(* ===== verification/Go_Prelude.thy ===== *)
theory Go_Prelude
  imports Main "HOL-Library.Word"
begin

text \<open>
  What the theories of the components share: the names of the Go types the program uses and that
  HOL has under another name, decimal printing (\<open>%d\<close> of \<open>fmt.Sprintf\<close>), the consecutive
  numbering of events, the facts on 64-bit integers, and the two collections of rewrite rules.

  How Go's values appear:

  \<^item> an \<open>error\<close> is its text: the program only wraps errors (\<open>%w\<close>) and inspects
  \<open>err.Error()\<close>, so an error is the string it prints;
  \<^item> a \<open>context.Context\<close> is what the code asks of it, the result of \<open>ctx.Err()\<close>
  (\<open>None\<close> for nil);
  \<^item> a \<open>time.Time\<close> is the number of nanoseconds since the zero time (year 1), so
  \<open>t.IsZero()\<close> is \<open>t = 0\<close>; a \<open>time.Duration\<close> is a number of nanoseconds.
  What the clock, \<open>uuid.New()\<close> and the random generator return are arguments of the definitions,
  one for every call the code makes.
\<close>

named_theorems frame \<open>what an operation leaves unchanged\<close>
named_theorems op_defs \<open>the definitions of small operations, to unfold\<close>

type_synonym go_error = string
type_synonym ctx_err = "go_error option"
type_synonym time = int
type_synonym duration = int
type_synonym uuid = string
type_synonym int64 = "64 word"

text \<open>The zero value of a uuid.\<close>

definition nil_uuid :: uuid where
  "nil_uuid = ''00000000-0000-0000-0000-000000000000''"

text \<open>The error-or-value results: \<open>Inl\<close> is a non-nil error.\<close>

type_synonym 'a go_result = "go_error + 'a"

definition is_ok :: "'e + 'a \<Rightarrow> bool" where
  [simp]: "is_ok r = (case r of Inl _ \<Rightarrow> False | Inr _ \<Rightarrow> True)"

lemma is_ok_Inr [intro]: "r = Inr x \<Longrightarrow> is_ok r"
  by simp

lemma not_is_okE: "\<not> is_ok r \<Longrightarrow> (\<And>e. r = Inl e \<Longrightarrow> P) \<Longrightarrow> P"
  by (cases r) auto

text \<open>The end of a call that may panic.\<close>

datatype 'a go_run = Panicked | Returned 'a

fun run_bind :: "'a go_run \<Rightarrow> ('a \<Rightarrow> 'b go_run) \<Rightarrow> 'b go_run" where
  "run_bind Panicked f = Panicked"
| "run_bind (Returned a) f = f a"

lemma run_bind_eq_Returned: "run_bind r f = Returned b \<longleftrightarrow> (\<exists>a. r = Returned a \<and> f a = Returned b)"
  by (cases r) auto

section \<open>Decimal printing\<close>

definition digit_char :: "nat \<Rightarrow> char" where
  "digit_char d = char_of (48 + d)"

fun show_nat :: "nat \<Rightarrow> string" where
  "show_nat n = (if n < 10 then [digit_char n] else show_nat (n div 10) @ [digit_char (n mod 10)])"

declare show_nat.simps [simp del]

definition show_int :: "int \<Rightarrow> string" where
  "show_int i = (if i < 0 then ''-'' @ show_nat (nat (- i)) else show_nat (nat i))"

section \<open>Consecutive numbers\<close>

text \<open>\<open>counts_from k xs\<close>: the list is \<open>k + 1, k + 2, \<dots>\<close>, the way versions are given out.\<close>

fun counts_from :: "int \<Rightarrow> int list \<Rightarrow> bool" where
  "counts_from k [] = True"
| "counts_from k (x # xs) = (x = k + 1 \<and> counts_from (k + 1) xs)"

lemma counts_from_append [simp]:
  "counts_from k (xs @ ys) = (counts_from k xs \<and> counts_from (k + int (length xs)) ys)"
  by (induction xs arbitrary: k) (auto simp: algebra_simps)

lemma counts_from_nth: "counts_from k xs \<Longrightarrow> i < length xs \<Longrightarrow> xs ! i = k + int i + 1"
proof (induction xs arbitrary: k i)
  case Nil
  then show ?case by simp
next
  case (Cons x xs)
  then show ?case by (cases i) auto
qed

lemma counts_from_bounds:
  "counts_from k xs \<Longrightarrow> x \<in> set xs \<Longrightarrow> k < x \<and> x \<le> k + int (length xs)"
  by (induction xs arbitrary: k) fastforce+

lemma counts_from_last: "counts_from k xs \<Longrightarrow> xs \<noteq> [] \<Longrightarrow> last xs = k + int (length xs)"
  by (induction xs arbitrary: k) auto

lemma counts_from_distinct: "counts_from k xs \<Longrightarrow> distinct xs"
proof (induction xs arbitrary: k)
  case Nil
  then show ?case by simp
next
  case (Cons x xs)
  then show ?case by (auto dest: counts_from_bounds)
qed

text \<open>Selecting the numbers from a bound on is dropping a prefix, up to a bound keeping one.\<close>

lemma counts_from_filter_ge:
  "counts_from k (map f es) \<Longrightarrow> filter (\<lambda>e. v \<le> f e) es = drop (nat (v - k - 1)) es"
proof (induction es arbitrary: k)
  case Nil
  then show ?case by simp
next
  case (Cons e es)
  have ih: "filter (\<lambda>e. v \<le> f e) es = drop (nat (v - (k + 1) - 1)) es"
    using Cons.prems by (intro Cons.IH) simp
  show ?case
  proof (cases "v \<le> k + 1")
    case True
    with Cons.prems ih show ?thesis by simp
  next
    case False
    then have "nat (v - k - 1) = Suc (nat (v - (k + 1) - 1))" by arith
    then have "drop (nat (v - k - 1)) (e # es) = filter (\<lambda>e. v \<le> f e) es"
      unfolding ih by (simp only: drop_Suc_Cons)
    moreover have "filter (\<lambda>e. v \<le> f e) (e # es) = filter (\<lambda>e. v \<le> f e) es"
      using False Cons.prems by simp
    ultimately show ?thesis by (simp only:)
  qed
qed

lemma counts_from_filter_le:
  "counts_from k (map f es) \<Longrightarrow> filter (\<lambda>e. f e \<le> v) es = take (nat (v - k)) es"
proof (induction es arbitrary: k)
  case Nil
  then show ?case by simp
next
  case (Cons e es)
  have ih: "filter (\<lambda>e. f e \<le> v) es = take (nat (v - (k + 1))) es"
    using Cons.prems by (intro Cons.IH) simp
  show ?case
  proof (cases "v < k + 1")
    case True
    with Cons.prems ih show ?thesis by simp
  next
    case False
    then have "nat (v - k) = Suc (nat (v - (k + 1)))" by simp
    with False Cons.prems ih show ?thesis by simp
  qed
qed

section \<open>Sorted sequences\<close>

lemma sorted_wrt_snoc [simp]:
  "sorted_wrt P (xs @ [x]) = (sorted_wrt P xs \<and> (\<forall>y \<in> set xs. P y x))"
  by (simp add: sorted_wrt_append)

section \<open>64-bit integers\<close>

text \<open>Signed comparison of \<open>int64\<close> values, and the exact cases of addition and subtraction.\<close>

definition i64_less :: "int64 \<Rightarrow> int64 \<Rightarrow> bool" where
  "i64_less a b = (sint a < sint b)"

definition i64_le :: "int64 \<Rightarrow> int64 \<Rightarrow> bool" where
  "i64_le a b = (sint a \<le> sint b)"

lemma sint_range: "- (2 ^ 63) \<le> sint (a :: int64)" "sint (a :: int64) < 2 ^ 63"
  using sint_ge [of a] sint_lt [of a] by simp_all

lemma sint_of_int64: "- (2 ^ 63) \<le> i \<Longrightarrow> i < 2 ^ 63 \<Longrightarrow> sint (word_of_int i :: int64) = i"
  by (simp add: sint_sbintrunc' signed_take_bit_int_eq_self)

lemma sint_add_exact:
  "- (2 ^ 63) \<le> sint a + sint b \<Longrightarrow> sint a + sint b < 2 ^ 63 \<Longrightarrow>
     sint (a + b :: int64) = sint a + sint b"
  using sint_of_int64 [of "sint a + sint b"] by simp

lemma sint_sub_exact:
  "- (2 ^ 63) \<le> sint a - sint b \<Longrightarrow> sint a - sint b < 2 ^ 63 \<Longrightarrow>
     sint (a - b :: int64) = sint a - sint b"
  using sint_of_int64 [of "sint a - sint b"] by simp

text \<open>Of two numbers that are not negative, a sum that wraps is negative.\<close>

lemma sint_add_no_wrap:
  assumes "0 \<le> sint (a :: int64)" "0 < sint b" "0 \<le> sint (a + b)"
  shows "sint (a + b) = sint a + sint b"
proof (cases "sint a + sint b < 2 ^ 63")
  case True
  then show ?thesis using assms by (intro sint_add_exact) linarith+
next
  case False
  have "a + b = word_of_int (sint a + sint b - 2 ^ 64)" by simp
  then have "sint (a + b) = sint (word_of_int (sint a + sint b - 2 ^ 64) :: int64)" by (rule arg_cong)
  also have "\<dots> = sint a + sint b - 2 ^ 64"
    using False sint_range [of a] sint_range [of b] by (intro sint_of_int64) simp_all
  finally show ?thesis using assms(3) sint_range [of a] sint_range [of b] by simp
qed

section \<open>Remote calls\<close>

text \<open>A request that does not arrive has no effect, one whose reply is lost has.\<close>

datatype fault = No_Fault | Lost_Request go_error | Lost_Reply go_error

fun fault_error :: "fault \<Rightarrow> go_error option" where
  "fault_error No_Fault = None"
| "fault_error (Lost_Request x) = Some x"
| "fault_error (Lost_Reply x) = Some x"

end
