(* ===== verification/Go_Float.thy ===== *)
theory Go_Float
  imports Go_Prelude Complex_Main
begin

text \<open>
  Go's \<open>float64\<close>: IEEE 754 binary64 as a datatype of the special values and the finite ones, a
  finite value being the rational it stands for.  The arithmetic is the rational operation followed
  by rounding to the nearest value with a 53-bit significand, ties to even, with gradual underflow
  below \<open>2^-1022\<close> and overflow to an infinity from \<open>2^1024\<close> on; comparisons with a NaN are
  false.  The two zeros are one value: the program never divides by a zero whose sign it could see.
  Everything is executable.
\<close>

datatype float64 = FNaN | FPosInf | FNegInf | FFin rat

section \<open>Rounding\<close>

fun nlog2 :: "nat \<Rightarrow> nat" where
  "nlog2 n = (if n < 2 then 0 else Suc (nlog2 (n div 2)))"

declare nlog2.simps [simp del]

lemma nlog2_bounds: "0 < n \<Longrightarrow> 2 ^ nlog2 n \<le> n \<and> n < 2 ^ Suc (nlog2 n)"
proof (induction n rule: nlog2.induct)
  case (1 n)
  show ?case
  proof (cases "n < 2")
    case True
    with "1.prems" show ?thesis by (simp add: nlog2.simps [of n])
  next
    case False
    with "1.IH" have "2 ^ nlog2 (n div 2) \<le> n div 2 \<and> n div 2 < 2 ^ Suc (nlog2 (n div 2))"
      by simp
    moreover have "nlog2 n = Suc (nlog2 (n div 2))"
      using False by (simp add: nlog2.simps [of n])
    ultimately show ?thesis
      by (simp add: less_eq_div_iff_mult_less_eq div_less_iff_less_mult mult.commute)
  qed
qed

text \<open>The binary exponent of a positive rational.\<close>

definition ilog2 :: "rat \<Rightarrow> int" where
  "ilog2 r = (case quotient_of r of (n, d) \<Rightarrow>
     let k = int (nlog2 (nat n)) - int (nlog2 (nat d))
     in if 2 powi k \<le> r then k else k - 1)"

definition round_even :: "rat \<Rightarrow> int" where
  "round_even q =
     (let f = \<lfloor>q\<rfloor>; d = q - of_int f
      in if d < 1 / 2 then f else if 1 / 2 < d then f + 1 else if even f then f else f + 1)"

text \<open>The least magnitude that overflows.\<close>

definition f64_limit :: rat where
  "f64_limit = 2 ^ 1024"

lemma f64_limit_gt: "2 ^ 60 < f64_limit"
  unfolding f64_limit_def by (rule power_strict_increasing) simp_all

definition round64 :: "rat \<Rightarrow> float64" where
  "round64 r =
     (if r = 0 then FFin 0
      else let e = max (ilog2 \<bar>r\<bar>) (- 1022) - 52;
               v = of_int (round_even (r / 2 powi e)) * 2 powi e
           in if f64_limit \<le> v then FPosInf else if v \<le> - f64_limit then FNegInf else FFin v)"

section \<open>Operations\<close>

fun fneg :: "float64 \<Rightarrow> float64" where
  "fneg FNaN = FNaN"
| "fneg FPosInf = FNegInf"
| "fneg FNegInf = FPosInf"
| "fneg (FFin a) = FFin (- a)"

fun fadd :: "float64 \<Rightarrow> float64 \<Rightarrow> float64" where
  "fadd FNaN _ = FNaN"
| "fadd _ FNaN = FNaN"
| "fadd FPosInf FNegInf = FNaN"
| "fadd FNegInf FPosInf = FNaN"
| "fadd FPosInf _ = FPosInf"
| "fadd _ FPosInf = FPosInf"
| "fadd FNegInf _ = FNegInf"
| "fadd _ FNegInf = FNegInf"
| "fadd (FFin a) (FFin b) = round64 (a + b)"

definition fsub :: "float64 \<Rightarrow> float64 \<Rightarrow> float64" where
  "fsub a b = fadd a (fneg b)"

fun flt :: "float64 \<Rightarrow> float64 \<Rightarrow> bool" where
  "flt FNaN _ = False"
| "flt _ FNaN = False"
| "flt FNegInf b = (b \<noteq> FNegInf)"
| "flt (FFin a) (FFin b) = (a < b)"
| "flt (FFin a) b = (b = FPosInf)"
| "flt FPosInf _ = False"

fun feq :: "float64 \<Rightarrow> float64 \<Rightarrow> bool" where
  "feq FNaN _ = False"
| "feq a b = (a = b)"

definition fle :: "float64 \<Rightarrow> float64 \<Rightarrow> bool" where
  "fle a b = (flt a b \<or> feq a b)"

definition f0 :: float64 where
  "f0 = FFin 0"

definition f_of_int :: "int \<Rightarrow> float64" where
  "f_of_int i = round64 (of_int i)"

definition finite64 :: "float64 \<Rightarrow> bool" where
  "finite64 f = (case f of FFin _ \<Rightarrow> True | _ \<Rightarrow> False)"

text \<open>A usable balance: a finite amount that is not negative.\<close>

definition nonneg64 :: "float64 \<Rightarrow> bool" where
  "nonneg64 f = (case f of FFin r \<Rightarrow> 0 \<le> r | _ \<Rightarrow> False)"

fun fmul :: "float64 \<Rightarrow> float64 \<Rightarrow> float64" where
  "fmul FNaN _ = FNaN"
| "fmul _ FNaN = FNaN"
| "fmul (FFin a) (FFin b) = round64 (a * b)"
| "fmul (FFin a) FPosInf = (if a = 0 then FNaN else if a < 0 then FNegInf else FPosInf)"
| "fmul (FFin a) FNegInf = (if a = 0 then FNaN else if a < 0 then FPosInf else FNegInf)"
| "fmul FPosInf (FFin a) = (if a = 0 then FNaN else if a < 0 then FNegInf else FPosInf)"
| "fmul FNegInf (FFin a) = (if a = 0 then FNaN else if a < 0 then FPosInf else FNegInf)"
| "fmul FPosInf FPosInf = FPosInf"
| "fmul FPosInf FNegInf = FNegInf"
| "fmul FNegInf FPosInf = FNegInf"
| "fmul FNegInf FNegInf = FPosInf"

text \<open>Division; a zero divisor counts as the positive one.\<close>

fun fdiv :: "float64 \<Rightarrow> float64 \<Rightarrow> float64" where
  "fdiv FNaN _ = FNaN"
| "fdiv _ FNaN = FNaN"
| "fdiv (FFin a) (FFin b) =
     (if b = 0 then (if a = 0 then FNaN else if a < 0 then FNegInf else FPosInf) else round64 (a / b))"
| "fdiv (FFin a) _ = FFin 0"
| "fdiv FPosInf (FFin b) = (if b < 0 then FNegInf else FPosInf)"
| "fdiv FNegInf (FFin b) = (if b < 0 then FPosInf else FNegInf)"
| "fdiv _ _ = FNaN"

text \<open>
  The conversion to \<open>int64\<close> truncates; out of range (left to the implementation by the language)
  it gives the least integer, as amd64 does.
\<close>

definition f_to_int64 :: "float64 \<Rightarrow> int" where
  "f_to_int64 f = (case f of
     FFin r \<Rightarrow> (let t = (if r < 0 then \<lceil>r\<rceil> else \<lfloor>r\<rfloor>)
               in if - (2 ^ 63) \<le> t \<and> t < 2 ^ 63 then t else - (2 ^ 63))
   | _ \<Rightarrow> - (2 ^ 63))"

text \<open>\<open>math.Pow\<close> with a natural exponent, by the algorithm of the standard library.\<close>

definition frexp :: "rat \<Rightarrow> rat \<times> int" where
  "frexp r = (let k = ilog2 \<bar>r\<bar> + 1 in (r / 2 powi k, k))"

fun pow_loop :: "nat \<Rightarrow> float64 \<Rightarrow> int \<Rightarrow> float64 \<Rightarrow> int \<Rightarrow> float64 \<times> int" where
  "pow_loop i a1 ae x1 xe =
     (if i = 0 then (a1, ae)
      else if xe < - 4096 \<or> 4096 < xe then (a1, ae + xe)
      else
        let a1' = (if odd i then fmul a1 x1 else a1);
            ae' = (if odd i then ae + xe else ae);
            sq = fmul x1 x1
        in if flt sq (FFin (1 / 2)) then pow_loop (i div 2) a1' ae' (fadd sq sq) (2 * xe - 1)
           else pow_loop (i div 2) a1' ae' sq (2 * xe))"

declare pow_loop.simps [simp del]

definition ldexp :: "float64 \<Rightarrow> int \<Rightarrow> float64" where
  "ldexp a e = (case a of FFin r \<Rightarrow> round64 (r * 2 powi e) | _ \<Rightarrow> a)"

definition fpow :: "float64 \<Rightarrow> nat \<Rightarrow> float64" where
  "fpow x n =
     (if n = 0 \<or> x = FFin 1 then FFin 1
      else if n = 1 then x
      else case x of
        FNaN \<Rightarrow> FNaN
      | FPosInf \<Rightarrow> FPosInf
      | FNegInf \<Rightarrow> if odd n then FNegInf else FPosInf
      | FFin r \<Rightarrow>
          if r = 0 then FFin 0
          else (case frexp r of (x1, xe) \<Rightarrow>
                 (case pow_loop n (FFin 1) 0 (FFin x1) xe of (a1, ae) \<Rightarrow> ldexp a1 ae)))"

section \<open>Printing with two decimals\<close>

text \<open>\<open>%.2f\<close>: the exact value rounded to two decimals, ties to even.\<close>

definition show_f2 :: "float64 \<Rightarrow> string" where
  "show_f2 f = (case f of
     FNaN \<Rightarrow> ''NaN'' | FPosInf \<Rightarrow> ''+Inf'' | FNegInf \<Rightarrow> ''-Inf''
   | FFin r \<Rightarrow>
      (let n = nat (round_even (\<bar>r\<bar> * 100))
       in (if r < 0 then ''-'' else '''') @ show_nat (n div 100) @ ''.'' @
          [digit_char (n mod 100 div 10), digit_char (n mod 10)]))"

section \<open>Facts on rounding\<close>

lemma round_even_nonneg: "0 \<le> q \<Longrightarrow> 0 \<le> round_even q"
  by (auto simp: round_even_def Let_def)

lemma round_even_of_int [simp]: "round_even (of_int i) = i"
  by (simp add: round_even_def)

lemma round64_zero [simp]: "round64 0 = FFin 0"
  by (simp add: round64_def)

lemma round64_nonneg:
  assumes "0 \<le> r"
  shows "round64 r = FPosInf \<or> (\<exists>v. round64 r = FFin v \<and> 0 \<le> v)"
proof (cases "r = 0")
  case True
  then show ?thesis by simp
next
  case False
  define e where "e = max (ilog2 \<bar>r\<bar>) (- 1022) - 52"
  define v where "v = of_int (round_even (r / 2 powi e)) * (2 powi e :: rat)"
  have "0 \<le> v"
    using assms by (simp add: v_def round_even_nonneg)
  then have "\<not> v \<le> - f64_limit"
    using f64_limit_gt by simp
  moreover have "round64 r = (if f64_limit \<le> v then FPosInf
      else if v \<le> - f64_limit then FNegInf else FFin v)"
    using False by (simp only: round64_def Let_def v_def e_def if_False)
  ultimately show ?thesis
    using \<open>0 \<le> v\<close> by (simp split: if_splits)
qed

lemma round64_exact:
  assumes "r \<noteq> 0" and "e = max (ilog2 \<bar>r\<bar>) (- 1022) - 52" and "r = of_int i * 2 powi e"
    and "\<bar>r\<bar> < f64_limit"
  shows "round64 r = FFin r"
proof -
  have "r / 2 powi e = of_int i"
    using assms(3) by simp
  then have "of_int (round_even (r / 2 powi e)) * 2 powi e = r"
    using assms(3) by simp
  with assms(1,4) show ?thesis
    unfolding round64_def Let_def assms(2) [symmetric] by (simp add: abs_less_iff)
qed

lemma quotient_of_nat: "quotient_of (of_nat n) = (int n, 1)"
  using quotient_of_Fract [of "int n" 1] by (simp add: Fract_of_int_eq)

lemma ilog2_of_nat: "0 < n \<Longrightarrow> ilog2 (of_nat n) = int (nlog2 n)"
proof -
  assume n: "0 < n"
  have "(of_nat (2 ^ nlog2 n) :: rat) \<le> of_nat n"
    using nlog2_bounds [OF n] of_nat_le_iff by blast
  then have "(2 :: rat) powi int (nlog2 n) \<le> of_nat n"
    by (simp add: power_int_def)
  moreover have "nlog2 (nat 1) = 0"
    by (simp add: nlog2.simps)
  ultimately show ?thesis
    by (simp add: ilog2_def quotient_of_nat del: nat_1)
qed

text \<open>Integers of at most 53 bits are float values: conversions of them, and sums of them, are exact.\<close>

lemma round64_int:
  assumes "\<bar>i\<bar> \<le> 2 ^ 53"
  shows "round64 (of_int i) = FFin (of_int i)"
proof (cases "i = 0")
  case True
  then show ?thesis by simp
next
  case False
  define n where "n = nat \<bar>i\<bar>"
  define k where "k = nlog2 n"
  have n: "0 < n" "n \<le> 2 ^ 53" and abs: "\<bar>of_int i :: rat\<bar> = of_nat n"
    using assms False by (simp_all add: n_def nat_le_iff)
  have bounds: "2 ^ k \<le> n" "n < 2 ^ Suc k"
    using nlog2_bounds [OF n(1)] by (simp_all add: k_def)
  have k: "k \<le> 53"
    using le_trans [OF bounds(1) n(2)] by (rule power_le_imp_le_exp [rotated]) simp
  have e: "max (ilog2 \<bar>of_int i :: rat\<bar>) (- 1022) - 52 = int k - 52"
    using ilog2_of_nat [OF n(1)] abs by (simp add: k_def)
  have lim: "\<bar>of_int i :: rat\<bar> < f64_limit"
  proof -
    have "\<bar>of_int i :: rat\<bar> \<le> 2 ^ 53"
      using assms by (metis of_int_abs of_int_le_iff of_int_numeral of_int_power)
    with f64_limit_gt show ?thesis by simp
  qed
  show ?thesis
  proof (cases "k = 53")
    case True
    with bounds(1) n(2) have "n = 2 ^ 53" by simp
    then have "even n" by simp
    then have "even i" by (simp add: n_def even_nat_iff)
    then have i: "of_int i = (of_int (i div 2) * 2 :: rat)"
      by (metis dvd_div_mult_self of_int_mult of_int_numeral)
    have "int k - 52 = 1" using True by simp
    with e i False show ?thesis
      by (intro round64_exact [OF _ _ _ lim, where e = 1 and i = "i div 2"]) simp_all
  next
    case False
    with k have k52: "k \<le> 52" by simp
    have p: "(2 :: rat) powi (int k - 52) * 2 ^ (52 - k) = 1"
    proof -
      have "nat (52 - int k) = 52 - k" by simp
      then have "(2 :: rat) powi (int k - 52) = (1 / 2) ^ (52 - k)"
        using k52 by (auto simp: power_int_def power_one_over field_simps)
      then show ?thesis by (simp add: power_mult_distrib [symmetric])
    qed
    define w where "w = (2 :: rat) powi (int k - 52)"
    have "of_int i = of_int (i * 2 ^ (52 - k)) * w"
      using p unfolding w_def [symmetric] by (simp add: mult.assoc mult.commute [of w])
    then show ?thesis
      unfolding w_def by (intro round64_exact [OF _ e [symmetric] _ lim]) (use \<open>i \<noteq> 0\<close> in simp)
  qed
qed

lemma round64_numeral: "numeral n \<le> (2 :: int) ^ 53 \<Longrightarrow> round64 (numeral n) = FFin (numeral n)"
  using round64_int [of "numeral n"] by simp

lemma round64_one: "round64 1 = FFin 1"
  using round64_int [of 1] by simp

lemma ilog2_small: "ilog2 (1 / 2) = - 1" "ilog2 (1 / 4) = - 2" "ilog2 (1 / 8) = - 3" "ilog2 2 = 1"
  by code_simp+

lemma round64_small:
  "round64 (1 / 2) = FFin (1 / 2)" "round64 (1 / 4) = FFin (1 / 4)" "round64 (1 / 8) = FFin (1 / 8)"
proof -
  have lim: "1 < f64_limit" using f64_limit_gt by simp
  show "round64 (1 / 2) = FFin (1 / 2)"
    by (rule round64_exact [where e = "- 53" and i = "2 ^ 52"])
      (use lim in \<open>simp_all add: ilog2_small power_int_minus\<close>)
  show "round64 (1 / 4) = FFin (1 / 4)"
    by (rule round64_exact [where e = "- 54" and i = "2 ^ 52"])
      (use lim in \<open>simp_all add: ilog2_small power_int_minus\<close>)
  show "round64 (1 / 8) = FFin (1 / 8)"
    by (rule round64_exact [where e = "- 55" and i = "2 ^ 52"])
      (use lim in \<open>simp_all add: ilog2_small power_int_minus\<close>)
qed

end
