(* ===== verification/Go_Json.thy ===== *)
theory Go_Json
  imports Go_Float
begin

text \<open>
  What the program uses of \<open>encoding/json\<close>: documents as trees, encoding of the basic types and of
  structs, decoding into struct fields.

  \<^item> A number is kept as what it was encoded from, a float or an integer; a float is printed in
  the shortest form that reads back as itself, so decoding a float field is the identity on it.
  \<^item> A time is printed with its nanoseconds and reads back as itself; it is a constructor of its own.
  \<^item> Encoding fails on the float values JSON has no form for.
  \<^item> Decoding a missing field or \<open>null\<close> leaves the zero value, a value of another type is
  an error, and of two fields of the same name the last one counts.  Field names are compared
  exactly (the library also accepts other capitalisations, which the program never writes).
\<close>

datatype json =
    JNull
  | JBool bool
  | JStr string
  | JInt int
  | JFloat float64
  | JTime time
  | JArr "json list"
  | JObj "(string \<times> json) list"

section \<open>Sequencing of results\<close>

fun rbind :: "'e + 'a \<Rightarrow> ('a \<Rightarrow> 'e + 'b) \<Rightarrow> 'e + 'b" where
  "rbind (Inl e) f = Inl e"
| "rbind (Inr a) f = f a"

lemma rbind_eq_Inr: "rbind r f = Inr b \<longleftrightarrow> (\<exists>a. r = Inr a \<and> f a = Inr b)"
  by (cases r) auto

lemma rbind_assoc: "rbind (rbind r f) g = rbind r (\<lambda>a. rbind (f a) g)"
  by (cases r) auto

fun rmap_list :: "('a \<Rightarrow> 'e + 'b) \<Rightarrow> 'a list \<Rightarrow> 'e + 'b list" where
  "rmap_list f [] = Inr []"
| "rmap_list f (x # xs) = rbind (f x) (\<lambda>y. rbind (rmap_list f xs) (\<lambda>ys. Inr (y # ys)))"

lemma rmap_list_all: "(\<And>x. x \<in> set xs \<Longrightarrow> f x = Inr (g x)) \<Longrightarrow> rmap_list f xs = Inr (map g xs)"
  by (induction xs) auto

section \<open>Encoding\<close>

fun j_float :: "float64 \<Rightarrow> json go_result" where
  "j_float FNaN = Inl ''json: unsupported value: NaN''"
| "j_float FPosInf = Inl ''json: unsupported value: +Inf''"
| "j_float FNegInf = Inl ''json: unsupported value: -Inf''"
| "j_float (FFin r) = Inr (JFloat (FFin r))"

lemma j_float_ok: "j_float f = Inr j \<longleftrightarrow> finite64 f \<and> j = JFloat f"
  by (cases f) (auto simp: finite64_def)

definition j_str :: "string \<Rightarrow> json go_result" where [simp]: "j_str s = Inr (JStr s)"
definition j_int :: "int \<Rightarrow> json go_result" where [simp]: "j_int i = Inr (JInt i)"
definition j_time :: "time \<Rightarrow> json go_result" where [simp]: "j_time t = Inr (JTime t)"

text \<open>A struct: its fields in order, the first error first.\<close>

fun j_fields :: "(string \<times> json go_result) list \<Rightarrow> (string \<times> json) list go_result" where
  "j_fields [] = Inr []"
| "j_fields ((k, r) # fs) = rbind r (\<lambda>j. rbind (j_fields fs) (\<lambda>kvs. Inr ((k, j) # kvs)))"

definition j_struct :: "(string \<times> json go_result) list \<Rightarrow> json go_result" where
  "j_struct fs = rbind (j_fields fs) (\<lambda>kvs. Inr (JObj kvs))"

lemma j_struct_ok:
  "j_struct fs = Inr j \<longleftrightarrow> (\<exists>kvs. j_fields fs = Inr kvs \<and> j = JObj kvs)"
  by (auto simp: j_struct_def rbind_eq_Inr)

section \<open>Decoding\<close>

definition type_mismatch :: go_error where
  "type_mismatch = ''json: cannot unmarshal value into Go struct field''"

fun d_struct :: "json \<Rightarrow> (string \<times> json) list go_result" where
  "d_struct (JObj kvs) = Inr kvs"
| "d_struct JNull = Inr []"
| "d_struct _ = Inl type_mismatch"

definition j_field :: "(string \<times> json) list \<Rightarrow> string \<Rightarrow> json" where
  "j_field kvs k = (case map_of (rev kvs) k of None \<Rightarrow> JNull | Some j \<Rightarrow> j)"

fun d_str :: "json \<Rightarrow> string go_result" where
  "d_str (JStr s) = Inr s"
| "d_str JNull = Inr ''''"
| "d_str _ = Inl type_mismatch"

fun d_float :: "json \<Rightarrow> float64 go_result" where
  "d_float (JFloat f) = Inr f"
| "d_float (JInt i) = Inr (f_of_int i)"
| "d_float JNull = Inr f0"
| "d_float _ = Inl type_mismatch"

fun d_int :: "json \<Rightarrow> int go_result" where
  "d_int (JInt i) = Inr i"
| "d_int (JFloat (FFin r)) = (if of_int \<lfloor>r\<rfloor> = r then Inr \<lfloor>r\<rfloor> else Inl type_mismatch)"
| "d_int JNull = Inr 0"
| "d_int _ = Inl type_mismatch"

fun d_time :: "json \<Rightarrow> time go_result" where
  "d_time (JTime t) = Inr t"
| "d_time JNull = Inr 0"
| "d_time _ = Inl type_mismatch"

text \<open>A \<open>*time.Time\<close> field.\<close>

fun d_time_ptr :: "json \<Rightarrow> time option go_result" where
  "d_time_ptr (JTime t) = Inr (Some t)"
| "d_time_ptr JNull = Inr None"
| "d_time_ptr _ = Inl type_mismatch"

lemma j_field_Nil [simp]: "j_field [] k = JNull"
  by (simp add: j_field_def)

lemma j_field_Cons [simp]:
  "k' \<notin> fst ` set kvs \<Longrightarrow> j_field ((k', j) # kvs) k = (if k = k' then j else j_field kvs k)"
  by (auto simp: j_field_def map_add_def map_of_eq_None_iff [THEN iffD2]
      split: option.splits)

end
