(* ===== verification/Event_Model.thy ===== *)
theory Event_Model
  imports Go_Json
begin

text \<open>
  The data model of \<open>pkg/eventstore/eventstore.go\<close>: the stored event, the filter, the snapshot,
  \<open>NewEvent\<close>, and the \<open>EventStore\<close> interface.  A Go interface value is a record of its
  methods over a state \<open>'s\<close> of the implementation; the laws its clients rely on are the locale
  \<open>event_store\<close>, interpreted on the in-memory store in \<open>Memory_Store\<close>.

  Events are passed by pointer.  Operations that write to the caller's events return the updated
  ones, on failure too.  Versions and sequence numbers are integers: an \<open>int64\<close> counter that
  starts at 0 and is only incremented does not reach \<open>2^63\<close>.
\<close>

record event =
  ev_id :: string
  ev_aggregate_id :: string
  ev_aggregate_type :: string
  ev_type :: string
  ev_version :: int
  ev_seq :: int
  ev_data :: json
  ev_metadata :: json
  ev_created_at :: time
  ev_caused_by :: string
  ev_correlation_id :: string

text \<open>A nil pointer of a filter is \<open>None\<close>; \<open>Limit\<close> and \<open>Offset\<close> are Go ints.\<close>

record event_filter =
  f_aggregate_id :: "string option"
  f_aggregate_type :: "string option"
  f_event_types :: "string list"
  f_from_version :: "int option"
  f_to_version :: "int option"
  f_from_seq :: "int option"
  f_to_seq :: "int option"
  f_from_time :: "time option"
  f_to_time :: "time option"
  f_limit :: "int option"
  f_offset :: "int option"

definition no_filter :: event_filter where
  "no_filter = \<lparr>f_aggregate_id = None, f_aggregate_type = None, f_event_types = [],
     f_from_version = None, f_to_version = None, f_from_seq = None, f_to_seq = None,
     f_from_time = None, f_to_time = None, f_limit = None, f_offset = None\<rparr>"

record snapshot =
  sn_aggregate_id :: string
  sn_aggregate_type :: string
  sn_version :: int
  sn_data :: json
  sn_created_at :: time

text \<open>
  \<open>NewEvent\<close> gets the result of \<open>json.Marshal(eventData)\<close>, the new identifier and its two
  readings of the clock (for the metadata and for \<open>CreatedAt\<close>).  The keys of a marshalled map
  are sorted.  The version and the sequence number are the zero value.
\<close>

definition new_event ::
  "string \<Rightarrow> string \<Rightarrow> string \<Rightarrow> json go_result \<Rightarrow> string \<Rightarrow> string \<Rightarrow> uuid \<Rightarrow> time \<Rightarrow> time \<Rightarrow> event go_result" where
  "new_event aggregate_id aggregate_type event_type event_data caused_by correlation_id new_id t1 t2 =
     rbind event_data (\<lambda>event_data_bytes.
     rbind (j_struct [(''source'', j_str ''payment-system''), (''timestamp'', j_time t1),
                      (''version'', j_str ''1.0'')]) (\<lambda>metadata_bytes.
     Inr \<lparr>ev_id = new_id, ev_aggregate_id = aggregate_id, ev_aggregate_type = aggregate_type,
          ev_type = event_type, ev_version = 0, ev_seq = 0, ev_data = event_data_bytes,
          ev_metadata = metadata_bytes, ev_created_at = t2, ev_caused_by = caused_by,
          ev_correlation_id = correlation_id\<rparr>))"

lemma new_event_Inl [simp]: "new_event a ty et (Inl e) c co i t1 t2 = Inl e"
  by (simp add: new_event_def)

lemma new_event_Inr [simp]:
  "new_event a ty et (Inr j) c co i t1 t2 =
     Inr \<lparr>ev_id = i, ev_aggregate_id = a, ev_aggregate_type = ty, ev_type = et, ev_version = 0,
       ev_seq = 0, ev_data = j, ev_metadata = JObj [(''source'', JStr ''payment-system''),
       (''timestamp'', JTime t1), (''version'', JStr ''1.0'')], ev_created_at = t2,
       ev_caused_by = c, ev_correlation_id = co\<rparr>"
  by (simp add: new_event_def j_struct_def)

section \<open>The interface\<close>

text \<open>
  The methods the aggregate repository calls, over a state \<open>'s\<close>.  An append gets the readings of
  the clock for the events that have no timestamp, by position.
\<close>

record 's event_store_ops =
  es_append_events :: "ctx_err \<Rightarrow> (nat \<Rightarrow> time) \<Rightarrow> event list \<Rightarrow> 's \<Rightarrow> go_error option \<times> 's \<times> event list"
  es_get_events :: "ctx_err \<Rightarrow> event_filter \<Rightarrow> 's \<Rightarrow> event list go_result"
  es_get_by_aggregate :: "ctx_err \<Rightarrow> string \<Rightarrow> int \<Rightarrow> 's \<Rightarrow> event list go_result"
  es_aggregate_version :: "ctx_err \<Rightarrow> string \<Rightarrow> 's \<Rightarrow> int go_result"
  es_create_snapshot ::
    "ctx_err \<Rightarrow> time \<Rightarrow> string \<Rightarrow> string \<Rightarrow> int \<Rightarrow> json \<Rightarrow> 's \<Rightarrow> go_error option \<times> 's"
  es_get_snapshot :: "ctx_err \<Rightarrow> string \<Rightarrow> 's \<Rightarrow> snapshot option go_result"

text \<open>
  What an append promises of the events: they are the given ones with consecutive versions from the
  current one on; nothing but the version, the sequence number and a missing timestamp changes.
\<close>

definition same_content :: "event \<Rightarrow> event \<Rightarrow> bool" where
  "same_content e e' = (e'\<lparr>ev_version := ev_version e, ev_seq := ev_seq e,
     ev_created_at := ev_created_at e\<rparr> = e)"

fun versions_fit :: "int \<Rightarrow> event list \<Rightarrow> bool" where
  "versions_fit v [] = True"
| "versions_fit v (e # es) =
     ((ev_version e > 0 \<longrightarrow> ev_version e = v + 1) \<and> versions_fit (v + 1) es)"

lemma same_content_data:
  assumes "same_content e e'"
  shows "ev_id e' = ev_id e" "ev_aggregate_id e' = ev_aggregate_id e"
    "ev_aggregate_type e' = ev_aggregate_type e" "ev_type e' = ev_type e" "ev_data e' = ev_data e"
    "ev_metadata e' = ev_metadata e" "ev_caused_by e' = ev_caused_by e"
    "ev_correlation_id e' = ev_correlation_id e"
  using assms by (cases e; cases e'; simp add: same_content_def)+

lemma same_content_refl [simp]: "same_content e e"
  by (simp add: same_content_def)

text \<open>Events that carry exactly the next versions fit, those that carry none fit always.\<close>

lemma versions_fit_counts: "counts_from v (map ev_version es) \<Longrightarrow> versions_fit v es"
  by (induction es arbitrary: v) auto

lemma versions_fit_zero: "(\<And>e. e \<in> set es \<Longrightarrow> ev_version e = 0) \<Longrightarrow> versions_fit v es"
  by (induction es arbitrary: v) auto

text \<open>An event to try definitions on: aggregate \<open>a\<close>, version \<open>v\<close>, everything else fixed.\<close>

definition example_event :: "string \<Rightarrow> int \<Rightarrow> event" where
  "example_event a v = \<lparr>ev_id = ''e1'', ev_aggregate_id = a, ev_aggregate_type = ''wallet'',
     ev_type = ''BalanceAdded'', ev_version = v, ev_seq = 0, ev_data = JNull, ev_metadata = JNull,
     ev_created_at = 5, ev_caused_by = ''u'', ev_correlation_id = ''c''\<rparr>"

text \<open>
  The contract of an implementation for those who read: \<open>stream s a\<close> are the events of
  aggregate \<open>a\<close>, \<open>snap s\<close> the snapshots, \<open>inv\<close> its invariant.
\<close>

locale event_log =
  fixes ES :: "'s event_store_ops"
    and inv :: "'s \<Rightarrow> bool"
    and stream :: "'s \<Rightarrow> string \<Rightarrow> event list"
    and snap :: "'s \<Rightarrow> string \<Rightarrow> snapshot option"
  assumes stream_versions: "inv s \<Longrightarrow> counts_from 0 (map ev_version (stream s a))"
    and stream_owner: "inv s \<Longrightarrow> e \<in> set (stream s a) \<Longrightarrow> ev_aggregate_id e = a"
    and get_by_aggregate: "inv s \<Longrightarrow> es_get_by_aggregate ES None a v s =
      Inr (filter (\<lambda>e. v \<le> ev_version e) (stream s a))"
    and get_range: "inv s \<Longrightarrow> es_get_events ES None
        (no_filter\<lparr>f_aggregate_id := Some a, f_from_version := Some v, f_to_version := Some w\<rparr>) s =
      Inr (filter (\<lambda>e. v \<le> ev_version e \<and> ev_version e \<le> w) (stream s a))"
    and aggregate_version: "inv s \<Longrightarrow> es_aggregate_version ES None a s = Inr (int (length (stream s a)))"
    and get_snapshot: "inv s \<Longrightarrow> es_get_snapshot ES None a s = Inr (snap s a)"
begin

text \<open>Reading from a version on is dropping a prefix of the stream.\<close>

lemma read_from: "inv s \<Longrightarrow> es_get_by_aggregate ES None a v s = Inr (drop (nat (v - 1)) (stream s a))"
  using counts_from_filter_ge [OF stream_versions] by (simp add: get_by_aggregate)

lemma read_range:
  assumes "inv s"
  shows "es_get_events ES None
      (no_filter\<lparr>f_aggregate_id := Some a, f_from_version := Some v, f_to_version := Some w\<rparr>) s =
    Inr (drop (nat (v - 1)) (take (nat w) (stream s a)))"
proof -
  let ?up = "filter (\<lambda>e. ev_version e \<le> w) (stream s a)"
  have up: "?up = take (nat w) (stream s a)"
    using counts_from_filter_le [OF stream_versions [OF assms, of a], of w] by simp
  have "counts_from 0 (map ev_version ?up)"
    using stream_versions [OF assms, of a] unfolding up
    by (metis append_take_drop_id counts_from_append map_append)
  then have "filter (\<lambda>e. v \<le> ev_version e) ?up = drop (nat (v - 1)) ?up"
    using counts_from_filter_ge by fastforce
  moreover have "filter (\<lambda>e. v \<le> ev_version e \<and> ev_version e \<le> w) (stream s a) =
      filter (\<lambda>e. v \<le> ev_version e) ?up"
    by (simp add: conj_commute)
  ultimately show ?thesis
    using up by (simp add: get_range [OF assms])
qed

lemma stream_nth_version:
  "inv s \<Longrightarrow> i < length (stream s a) \<Longrightarrow> ev_version (stream s a ! i) = int i + 1"
  using counts_from_nth [OF stream_versions, of s i a] by simp

end

text \<open>
  The contract for those who write, too: \<open>usable\<close> says that the store accepts appends.
\<close>

locale event_store = event_log ES inv stream snap
  for ES :: "'s event_store_ops"
    and inv :: "'s \<Rightarrow> bool"
    and usable :: "'s \<Rightarrow> bool"
    and stream :: "'s \<Rightarrow> string \<Rightarrow> event list"
    and snap :: "'s \<Rightarrow> string \<Rightarrow> snapshot option" +
  assumes append_inv: "inv s \<Longrightarrow> es_append_events ES ctx now es s = (r, s', es') \<Longrightarrow>
      inv s' \<and> usable s' = usable s \<and> snap s' = snap s \<and> list_all2 same_content es es'"
    and append_empty: "es_append_events ES ctx now [] s = (r, s', es') \<Longrightarrow> s' = s"
    and append_ok: "inv s \<Longrightarrow> es_append_events ES ctx now es s = (None, s', es') \<Longrightarrow> es \<noteq> [] \<Longrightarrow>
      a = ev_aggregate_id (hd es) \<Longrightarrow>
      stream s' = (stream s)(a := stream s a @ es') \<and>
      versions_fit (int (length (stream s a))) es \<and> (\<forall>e \<in> set es. ev_aggregate_id e = a)"
    and append_error: "inv s \<Longrightarrow> es_append_events ES ctx now es s = (Some x, s', es') \<Longrightarrow>
      stream s' = stream s"
    and append_accepts: "inv s \<Longrightarrow> usable s \<Longrightarrow> es \<noteq> [] \<Longrightarrow>
      (\<forall>e \<in> set es. ev_aggregate_id e = a) \<Longrightarrow>
      versions_fit (int (length (stream s a))) es \<Longrightarrow>
      fst (es_append_events ES None now es s) = None"
    and create_snapshot_ok: "inv s \<Longrightarrow> es_create_snapshot ES ctx t a ty v d s = (None, s') \<Longrightarrow>
      inv s' \<and> usable s' = usable s \<and> stream s' = stream s \<and>
      snap s' = (snap s)(a \<mapsto> \<lparr>sn_aggregate_id = a, sn_aggregate_type = ty, sn_version = v,
        sn_data = d, sn_created_at = t\<rparr>)"
    and create_snapshot_error: "inv s \<Longrightarrow> es_create_snapshot ES ctx t a ty v d s = (Some x, s') \<Longrightarrow>
      inv s' \<and> usable s' = usable s \<and> stream s' = stream s \<and> snap s' = snap s"
begin

text \<open>An append never rewrites history: the old stream is a prefix of the new one.\<close>

lemma append_extends:
  assumes "inv s" and "es_append_events ES ctx now es s = (r, s', es')"
  shows "\<exists>new. stream s' a = stream s a @ new"
proof (cases r)
  case None
  show ?thesis
  proof (cases "es = []")
    case True
    with append_empty [OF assms(2) [unfolded True]] show ?thesis by simp
  next
    case False
    with append_ok [OF assms(1) assms(2) [unfolded None] False refl, THEN conjunct1]
    show ?thesis by simp
  qed
next
  case (Some x)
  with append_error [OF assms(1) assms(2) [unfolded Some]] show ?thesis by simp
qed

text \<open>Of two writers that have seen the same version only the first one gets through.\<close>

lemma second_writer_loses:
  assumes "inv s" "usable s"
    and "es_append_events ES ctx now (e # es) s = (None, s1, es1)"
    and "ev_aggregate_id e = a" "ev_version e > 0"
    and "f \<in> {f. ev_aggregate_id f = a \<and> ev_version f = ev_version e}"
  shows "\<exists>x. fst (es_append_events ES ctx' now' (f # fs) s1) = Some x"
proof (rule ccontr)
  assume "\<not> ?thesis"
  then obtain s2 fs1 where f: "es_append_events ES ctx' now' (f # fs) s1 = (None, s2, fs1)"
    by (cases "es_append_events ES ctx' now' (f # fs) s1") auto
  from append_ok [OF assms(1,3)] assms(4,5)
  have s1: "stream s1 a = stream s a @ es1" "ev_version e = int (length (stream s a)) + 1" by simp_all
  have "list_all2 same_content (e # es) es1" "inv s1"
    using append_inv [OF assms(1,3)] by simp_all
  then have "0 < length es1" by (auto dest: list_all2_lengthD)
  moreover from append_ok [OF \<open>inv s1\<close> f] assms(5,6)
  have "ev_version f = int (length (stream s1 a)) + 1" by auto
  ultimately show False using s1 assms(6) by simp
qed

end

end
