(* ===== verification/Memory_Store.thy ===== *)
theory Memory_Store
  imports Event_Model
begin

text \<open>
  \<open>pkg/eventstore/memory_store.go\<close>: the in-memory event store, with its indexes, its snapshots
  and its subscribers.  The store is a value passed and returned; its mutex makes every operation
  one step, and the goroutines of \<open>Subscribe\<close> (the replay of the existing events and the
  clean-up at the end of the context) are further steps of a transition relation.

  The channels are part of the state: channel \<open>i\<close> is the \<open>i\<close>-th one made, with its buffer
  of 100 events.  Sending on a closed channel panics; \<open>ms_panicked\<close> records that this has
  happened.  The theorems show that the store's own operations never do it and that the replay
  goroutine can.
\<close>

record chan =
  ch_buf :: "event list"
  ch_closed :: bool

record subscriber =
  sub_channel :: nat
  sub_filter :: event_filter

record mem_store =
  ms_events :: "event list"
  ms_by_aggregate :: "string \<rightharpoonup> event list"
  ms_snapshots :: "string \<rightharpoonup> snapshot"
  ms_seq :: int
  ms_versions :: "string \<rightharpoonup> int"
  ms_subscribers :: "nat list"
  ms_event_subscribers :: "subscriber list"
  ms_closed :: bool
  ms_chans :: "chan list"
  ms_panicked :: bool

definition new_memory_event_store :: mem_store where
  "new_memory_event_store = \<lparr>ms_events = [], ms_by_aggregate = Map.empty,
     ms_snapshots = Map.empty, ms_seq = 0, ms_versions = Map.empty, ms_subscribers = [],
     ms_event_subscribers = [], ms_closed = False, ms_chans = [], ms_panicked = False\<rparr>"

section \<open>Filters\<close>

definition matches_filter :: "event \<Rightarrow> event_filter \<Rightarrow> bool" where
  "matches_filter e f =
     (if (case f_aggregate_id f of Some a \<Rightarrow> ev_aggregate_id e \<noteq> a | None \<Rightarrow> False) then False
      else if (case f_aggregate_type f of Some t \<Rightarrow> ev_aggregate_type e \<noteq> t | None \<Rightarrow> False) then False
      else if f_event_types f \<noteq> [] \<and> \<not> List.member (f_event_types f) (ev_type e) then False
      else if (case f_from_version f of Some v \<Rightarrow> ev_version e < v | None \<Rightarrow> False) then False
      else if (case f_to_version f of Some v \<Rightarrow> ev_version e > v | None \<Rightarrow> False) then False
      else if (case f_from_seq f of Some n \<Rightarrow> ev_seq e \<le> n | None \<Rightarrow> False) then False
      else if (case f_to_seq f of Some n \<Rightarrow> ev_seq e > n | None \<Rightarrow> False) then False
      else if (case f_from_time f of Some t \<Rightarrow> ev_created_at e < t | None \<Rightarrow> False) then False
      else if (case f_to_time f of Some t \<Rightarrow> ev_created_at e > t | None \<Rightarrow> False) then False
      else True)"

section \<open>Subscribers\<close>

definition chan_cap :: nat where
  "chan_cap = 100"

text \<open>
  The \<open>select\<close> of \<open>notifySubscribers\<close>: the event goes into the buffer, or the full channel is
  closed and the subscriber dropped (the second component); \<open>None\<close> is the panic.
\<close>

definition send_or_close :: "event \<Rightarrow> nat \<Rightarrow> chan list \<Rightarrow> (chan list \<times> bool) option" where
  "send_or_close e i cs =
     (if ch_closed (cs ! i) then None
      else if length (ch_buf (cs ! i)) < chan_cap
      then Some (cs[i := (cs ! i)\<lparr>ch_buf := ch_buf (cs ! i) @ [e]\<rparr>], True)
      else Some (cs[i := (cs ! i)\<lparr>ch_closed := True\<rparr>], False))"

text \<open>Both loops run from the last subscriber to the first one.\<close>

fun notify_plain :: "event \<Rightarrow> nat list \<Rightarrow> chan list \<Rightarrow> (chan list \<times> nat list) option" where
  "notify_plain e [] cs = Some (cs, [])"
| "notify_plain e (i # is) cs =
     (case notify_plain e is cs of None \<Rightarrow> None
      | Some (cs1, rest) \<Rightarrow>
         (case send_or_close e i cs1 of None \<Rightarrow> None
          | Some (cs2, keep) \<Rightarrow> Some (cs2, if keep then i # rest else rest)))"

fun notify_filtered ::
  "event \<Rightarrow> subscriber list \<Rightarrow> chan list \<Rightarrow> (chan list \<times> subscriber list) option" where
  "notify_filtered e [] cs = Some (cs, [])"
| "notify_filtered e (s # ss) cs =
     (case notify_filtered e ss cs of None \<Rightarrow> None
      | Some (cs1, rest) \<Rightarrow>
         (if matches_filter e (sub_filter s)
          then (case send_or_close e (sub_channel s) cs1 of None \<Rightarrow> None
                | Some (cs2, keep) \<Rightarrow> Some (cs2, if keep then s # rest else rest))
          else Some (cs1, s # rest)))"

definition notify_subscribers :: "event \<Rightarrow> mem_store \<Rightarrow> mem_store" where
  "notify_subscribers e m =
     (case notify_plain e (ms_subscribers m) (ms_chans m) of None \<Rightarrow> m\<lparr>ms_panicked := True\<rparr>
      | Some (cs1, plain) \<Rightarrow>
         (case notify_filtered e (ms_event_subscribers m) cs1 of None \<Rightarrow> m\<lparr>ms_panicked := True\<rparr>
          | Some (cs2, filtered) \<Rightarrow>
              m\<lparr>ms_chans := cs2, ms_subscribers := plain, ms_event_subscribers := filtered\<rparr>))"

section \<open>Appending\<close>

definition closed_error :: go_error where
  "closed_error = ''event store is closed''"

definition conflict_error :: "int \<Rightarrow> int \<Rightarrow> go_error" where
  "conflict_error expected got =
     ''concurrency conflict: expected version '' @ show_int expected @ '', got '' @ show_int got"

definition conflict_at_error :: "nat \<Rightarrow> int \<Rightarrow> int \<Rightarrow> go_error" where
  "conflict_at_error i expected got =
     ''concurrency conflict at event '' @ show_nat i @ '': expected version '' @ show_int expected @
     '', got '' @ show_int got"

definition current_version :: "mem_store \<Rightarrow> string \<Rightarrow> int" where
  "current_version m a = (case ms_versions m a of None \<Rightarrow> 0 | Some v \<Rightarrow> v)"

definition stamp :: "time \<Rightarrow> int \<Rightarrow> int \<Rightarrow> event \<Rightarrow> event" where
  "stamp now sq v e = e\<lparr>ev_seq := sq, ev_version := v,
     ev_created_at := (if ev_created_at e = 0 then now else ev_created_at e)\<rparr>"

definition add_event :: "event \<Rightarrow> mem_store \<Rightarrow> mem_store" where
  "add_event e m = m\<lparr>ms_events := ms_events m @ [e],
     ms_by_aggregate := (ms_by_aggregate m)(ev_aggregate_id e \<mapsto>
       (case ms_by_aggregate m (ev_aggregate_id e) of None \<Rightarrow> [] | Some es \<Rightarrow> es) @ [e])\<rparr>"

definition mem_append_event ::
  "ctx_err \<Rightarrow> time \<Rightarrow> event \<Rightarrow> mem_store \<Rightarrow> go_error option \<times> mem_store \<times> event" where
  "mem_append_event ctx now e m =
     (case ctx of Some x \<Rightarrow> (Some x, m, e) | None \<Rightarrow>
      if ms_closed m then (Some closed_error, m, e)
      else if ev_aggregate_id e = '''' \<or> ev_aggregate_type e = '''' \<or> ev_type e = ''''
      then (Some ''event must have aggregate_id, aggregate_type, and event_type'', m, e)
      else
        let cv = current_version m (ev_aggregate_id e)
        in if ev_version e > 0 \<and> ev_version e \<noteq> cv + 1
           then (Some (conflict_error (cv + 1) (ev_version e)), m, e)
           else
             let sq = ms_seq m + 1;
                 e' = stamp now sq (cv + 1) e;
                 m' = add_event e' (m\<lparr>ms_seq := sq\<rparr>);
                 m'' = m'\<lparr>ms_versions := (ms_versions m')(ev_aggregate_id e' \<mapsto> ev_version e')\<rparr>
             in (None, notify_subscribers e' m'', e'))"

text \<open>
  The first loop of \<open>AppendEvents\<close> gives out numbers to the caller's events, from the \<open>i\<close>-th on;
  at a conflict it returns with the numbers it has given out so far.
\<close>

fun assign_versions ::
  "(nat \<Rightarrow> time) \<Rightarrow> int \<Rightarrow> nat \<Rightarrow> int \<Rightarrow> event list \<Rightarrow> go_error option \<times> int \<times> event list" where
  "assign_versions now cv i sq [] = (None, sq, [])"
| "assign_versions now cv i sq (e # es) =
     (let expected = cv + int i + 1
      in if ev_version e > 0 \<and> ev_version e \<noteq> expected
         then (Some (conflict_at_error i expected (ev_version e)), sq, e # es)
         else
           let e' = stamp (now i) (sq + 1) expected e;
               (r, sq', es') = assign_versions now cv (Suc i) (sq + 1) es
           in (r, sq', e' # es'))"

definition store_event :: "event \<Rightarrow> mem_store \<Rightarrow> mem_store" where
  "store_event e m = notify_subscribers e (add_event e m)"

definition mem_append_events ::
  "ctx_err \<Rightarrow> (nat \<Rightarrow> time) \<Rightarrow> event list \<Rightarrow> mem_store \<Rightarrow> go_error option \<times> mem_store \<times> event list" where
  "mem_append_events ctx now es m =
     (case ctx of Some x \<Rightarrow> (Some x, m, es) | None \<Rightarrow>
      if es = [] then (None, m, es)
      else let a = ev_aggregate_id (hd es)
      in if list_ex (\<lambda>e. ev_aggregate_id e \<noteq> a) es
         then (Some ''all events must belong to the same aggregate'', m, es)
      else if ms_closed m then (Some closed_error, m, es)
      else
        case assign_versions now (current_version m a) 0 (ms_seq m) es of
          (Some x, sq, es') \<Rightarrow> (Some x, m\<lparr>ms_seq := sq\<rparr>, es')
        | (None, sq, es') \<Rightarrow>
            let m' = fold store_event es' (m\<lparr>ms_seq := sq\<rparr>)
            in (None, m'\<lparr>ms_versions := (ms_versions m')(a \<mapsto> ev_version (last es'))\<rparr>, es'))"

section \<open>Reading\<close>

text \<open>The paging of \<open>GetEvents\<close>; Go's slice bounds are ints.\<close>

definition page :: "int option \<Rightarrow> int option \<Rightarrow> 'a list \<Rightarrow> 'a list" where
  "page offset limit xs =
     (let tail = (case offset of
            Some n \<Rightarrow> if n > 0 then if n \<ge> int (length xs) then [] else drop (nat n) xs else xs
          | None \<Rightarrow> xs)
      in case limit of
           Some n \<Rightarrow> if n > 0 \<and> int (length tail) > n then take (nat n) tail else tail
         | None \<Rightarrow> tail)"

definition mem_get_events :: "ctx_err \<Rightarrow> event_filter \<Rightarrow> mem_store \<Rightarrow> event list go_result" where
  "mem_get_events ctx f m =
     (case ctx of Some x \<Rightarrow> Inl x
      | None \<Rightarrow> Inr (page (f_offset f) (f_limit f) (filter (\<lambda>e. matches_filter e f) (ms_events m))))"

definition mem_get_by_aggregate ::
  "ctx_err \<Rightarrow> string \<Rightarrow> int \<Rightarrow> mem_store \<Rightarrow> event list go_result" where
  "mem_get_by_aggregate ctx a from_version m =
     (case ctx of Some x \<Rightarrow> Inl x
      | None \<Rightarrow> (case ms_by_aggregate m a of None \<Rightarrow> Inr []
                  | Some es \<Rightarrow> Inr (filter (\<lambda>e. ev_version e \<ge> from_version) es)))"

definition mem_get_by_type ::
  "ctx_err \<Rightarrow> string \<Rightarrow> event_filter \<Rightarrow> mem_store \<Rightarrow> event list go_result" where
  "mem_get_by_type ctx t f m =
     (case ctx of Some x \<Rightarrow> Inl x
      | None \<Rightarrow> mem_get_events None (f\<lparr>f_aggregate_type := Some t\<rparr>) m)"

definition mem_last_seq :: "ctx_err \<Rightarrow> mem_store \<Rightarrow> int go_result" where
  "mem_last_seq ctx m = (case ctx of Some x \<Rightarrow> Inl x | None \<Rightarrow> Inr (ms_seq m))"

definition mem_aggregate_version :: "ctx_err \<Rightarrow> string \<Rightarrow> mem_store \<Rightarrow> int go_result" where
  "mem_aggregate_version ctx a m =
     (case ctx of Some x \<Rightarrow> Inl x
      | None \<Rightarrow> (case ms_versions m a of None \<Rightarrow> Inr 0 | Some v \<Rightarrow> Inr v))"

definition mem_create_snapshot ::
  "ctx_err \<Rightarrow> time \<Rightarrow> string \<Rightarrow> string \<Rightarrow> int \<Rightarrow> json \<Rightarrow> mem_store \<Rightarrow> go_error option \<times> mem_store" where
  "mem_create_snapshot ctx now a ty v d m =
     (case ctx of Some x \<Rightarrow> (Some x, m)
      | None \<Rightarrow> (None, m\<lparr>ms_snapshots := (ms_snapshots m)(a \<mapsto>
          \<lparr>sn_aggregate_id = a, sn_aggregate_type = ty, sn_version = v, sn_data = d,
            sn_created_at = now\<rparr>)\<rparr>))"

definition mem_get_snapshot :: "ctx_err \<Rightarrow> string \<Rightarrow> mem_store \<Rightarrow> snapshot option go_result" where
  "mem_get_snapshot ctx a m = (case ctx of Some x \<Rightarrow> Inl x | None \<Rightarrow> Inr (ms_snapshots m a))"

section \<open>Invariants\<close>

text \<open>The events of an aggregate, in the order of the log.\<close>

definition stream_of :: "mem_store \<Rightarrow> string \<Rightarrow> event list" where
  "stream_of m a = filter (\<lambda>e. ev_aggregate_id e = a) (ms_events m)"

definition index_ok :: "mem_store \<Rightarrow> bool" where
  "index_ok m = (\<forall>a. ms_by_aggregate m a =
     (if stream_of m a = [] then None else Some (stream_of m a)))"

definition versions_ok :: "mem_store \<Rightarrow> bool" where
  "versions_ok m = (\<forall>a. current_version m a = int (length (stream_of m a)) \<and>
     counts_from 0 (map ev_version (stream_of m a)))"

definition seq_ok :: "mem_store \<Rightarrow> bool" where
  "seq_ok m = (sorted_wrt (<) (map ev_seq (ms_events m)) \<and> 0 \<le> ms_seq m \<and>
     (\<forall>e \<in> set (ms_events m). 0 < ev_seq e \<and> ev_seq e \<le> ms_seq m))"

definition subs_ok :: "mem_store \<Rightarrow> bool" where
  "subs_ok m = (ms_subscribers m = [] \<and> distinct (map sub_channel (ms_event_subscribers m)) \<and>
     (\<forall>s \<in> set (ms_event_subscribers m). sub_channel s < length (ms_chans m) \<and>
        \<not> ch_closed (ms_chans m ! sub_channel s)) \<and>
     (\<forall>c \<in> set (ms_chans m). length (ch_buf c) \<le> chan_cap))"

definition mem_inv :: "mem_store \<Rightarrow> bool" where
  "mem_inv m = (index_ok m \<and> versions_ok m \<and> seq_ok m \<and> subs_ok m \<and> \<not> ms_panicked m)"

lemma new_store_simps [simp]:
  "stream_of new_memory_event_store = (\<lambda>_. [])" "ms_closed new_memory_event_store = False"
  "ms_snapshots new_memory_event_store = Map.empty"
  by (simp_all add: new_memory_event_store_def stream_of_def fun_eq_iff)

lemma counters_frame [simp]:
  "index_ok (m\<lparr>ms_seq := n\<rparr>) = index_ok m" "index_ok (m\<lparr>ms_versions := vs\<rparr>) = index_ok m"
  "index_ok (m\<lparr>ms_snapshots := sn\<rparr>) = index_ok m"
  "subs_ok (m\<lparr>ms_seq := n\<rparr>) = subs_ok m" "subs_ok (m\<lparr>ms_versions := vs\<rparr>) = subs_ok m"
  "stream_of (m\<lparr>ms_seq := n\<rparr>) = stream_of m" "stream_of (m\<lparr>ms_versions := vs\<rparr>) = stream_of m"
  "stream_of (m\<lparr>ms_snapshots := sn\<rparr>) = stream_of m"
  "versions_ok (m\<lparr>ms_seq := n\<rparr>) = versions_ok m"
  "mem_inv (m\<lparr>ms_snapshots := sn\<rparr>) = mem_inv m"
  by (simp_all add: index_ok_def subs_ok_def stream_of_def fun_eq_iff mem_inv_def versions_ok_def
      current_version_def seq_ok_def)

lemma mem_inv_new: "mem_inv new_memory_event_store"
  by (simp add: mem_inv_def index_ok_def versions_ok_def seq_ok_def subs_ok_def stream_of_def
      current_version_def new_memory_event_store_def)

section \<open>What the parts of an append change\<close>

lemma notify_frame [simp]:
  "ms_events (notify_subscribers e m) = ms_events m"
  "ms_by_aggregate (notify_subscribers e m) = ms_by_aggregate m"
  "ms_snapshots (notify_subscribers e m) = ms_snapshots m"
  "ms_seq (notify_subscribers e m) = ms_seq m"
  "ms_versions (notify_subscribers e m) = ms_versions m"
  "ms_closed (notify_subscribers e m) = ms_closed m"
  by (simp_all add: notify_subscribers_def split: option.split prod.split)

lemma add_event_frame [simp]:
  "ms_events (add_event e m) = ms_events m @ [e]"
  "ms_snapshots (add_event e m) = ms_snapshots m"
  "ms_seq (add_event e m) = ms_seq m"
  "ms_versions (add_event e m) = ms_versions m"
  "ms_closed (add_event e m) = ms_closed m"
  "ms_subscribers (add_event e m) = ms_subscribers m"
  "ms_event_subscribers (add_event e m) = ms_event_subscribers m"
  "ms_chans (add_event e m) = ms_chans m"
  "ms_panicked (add_event e m) = ms_panicked m"
  by (simp_all add: add_event_def)

lemma fold_store_frame [simp]:
  "ms_events (fold store_event es m) = ms_events m @ es"
  "ms_snapshots (fold store_event es m) = ms_snapshots m"
  "ms_seq (fold store_event es m) = ms_seq m"
  "ms_versions (fold store_event es m) = ms_versions m"
  "ms_closed (fold store_event es m) = ms_closed m"
  by (induction es arbitrary: m) (simp_all add: store_event_def)

lemma stream_of_snoc:
  "ms_events m' = ms_events m @ es \<Longrightarrow>
     stream_of m' a = stream_of m a @ filter (\<lambda>e. ev_aggregate_id e = a) es"
  by (simp add: stream_of_def)

lemma index_ok_add: "index_ok m \<Longrightarrow> index_ok (add_event e m)"
  by (auto simp: index_ok_def stream_of_def add_event_def)

lemma index_ok_frame:
  "ms_events m' = ms_events m \<Longrightarrow> ms_by_aggregate m' = ms_by_aggregate m \<Longrightarrow>
     index_ok m' = index_ok m"
  by (simp add: index_ok_def stream_of_def)

lemma index_ok_fold: "index_ok m \<Longrightarrow> index_ok (fold store_event es m)"
proof (induction es arbitrary: m)
  case Nil
  then show ?case by simp
next
  case (Cons e es)
  have "index_ok (store_event e m)"
    using index_ok_add [OF Cons.prems] index_ok_frame [of "store_event e m" "add_event e m"]
    by (simp add: store_event_def)
  then show ?case by (simp add: Cons.IH)
qed

text \<open>Notifying never panics while the channels of the subscribers are open and distinct.\<close>

lemma notify_filtered_ok:
  assumes "distinct (map sub_channel ss)"
    and "\<forall>s \<in> set ss. sub_channel s < length cs \<and> \<not> ch_closed (cs ! sub_channel s)"
    and "\<forall>c \<in> set cs. length (ch_buf c) \<le> chan_cap"
  shows "\<exists>cs' ss'. notify_filtered e ss cs = Some (cs', ss') \<and> length cs' = length cs \<and>
     distinct (map sub_channel ss') \<and> set ss' \<subseteq> set ss \<and>
     (\<forall>s \<in> set ss'. \<not> ch_closed (cs' ! sub_channel s)) \<and>
     (\<forall>i. i \<notin> sub_channel ` set ss \<longrightarrow> cs' ! i = cs ! i) \<and>
     (\<forall>s \<in> set ss'. ch_buf (cs' ! sub_channel s) = ch_buf (cs ! sub_channel s) @
        (if matches_filter e (sub_filter s) then [e] else [])) \<and>
     (\<forall>c \<in> set cs'. length (ch_buf c) \<le> chan_cap)"
  using assms
proof (induction ss)
  case Nil
  then show ?case by simp
next
  case (Cons s ss)
  then obtain cs' ss' where ih: "notify_filtered e ss cs = Some (cs', ss')"
    "length cs' = length cs" "distinct (map sub_channel ss')" "set ss' \<subseteq> set ss"
    "\<forall>s \<in> set ss'. \<not> ch_closed (cs' ! sub_channel s)"
    "\<forall>i. i \<notin> sub_channel ` set ss \<longrightarrow> cs' ! i = cs ! i"
    "\<forall>c \<in> set cs'. length (ch_buf c) \<le> chan_cap"
    "\<forall>s \<in> set ss'. ch_buf (cs' ! sub_channel s) = ch_buf (cs ! sub_channel s) @
       (if matches_filter e (sub_filter s) then [e] else [])"
    by auto
  have new: "sub_channel s \<notin> sub_channel ` set ss" "sub_channel s \<notin> sub_channel ` set ss'"
    using Cons.prems(1) ih(4) by auto
  have s: "sub_channel s < length cs'" "\<not> ch_closed (cs' ! sub_channel s)"
    "cs' ! sub_channel s = cs ! sub_channel s"
    using Cons.prems(2) ih(2,6) new by auto
  have upd: "c \<in> set (cs'[sub_channel s := x]) \<Longrightarrow> length (ch_buf x) \<le> chan_cap \<Longrightarrow>
      length (ch_buf c) \<le> chan_cap" for c x
    using ih(7) set_update_subset_insert by fastforce
  have "cs' ! sub_channel s \<in> set cs'" using s(1) by simp
  with ih(7) have "length (ch_buf (cs' ! sub_channel s)) \<le> chan_cap" by blast
  then show ?case
    using ih new s upd Cons.prems(1)
    by (cases "matches_filter e (sub_filter s)") (auto simp: send_or_close_def nth_list_update image_iff)
qed

lemma notify_ok:
  assumes "subs_ok m" and "\<not> ms_panicked m" and "m' = notify_subscribers e m"
  shows "subs_ok m' \<and> \<not> ms_panicked m' \<and> length (ms_chans m') = length (ms_chans m) \<and>
     set (ms_event_subscribers m') \<subseteq> set (ms_event_subscribers m) \<and>
     (\<forall>s \<in> set (ms_event_subscribers m').
        ch_buf (ms_chans m' ! sub_channel s) = ch_buf (ms_chans m ! sub_channel s) @
          (if matches_filter e (sub_filter s) then [e] else []))"
proof -
  from assms(1) notify_filtered_ok [of "ms_event_subscribers m" "ms_chans m" e]
  obtain cs' ss' where "notify_filtered e (ms_event_subscribers m) (ms_chans m) = Some (cs', ss')"
    "length cs' = length (ms_chans m)"
    "distinct (map sub_channel ss')" "set ss' \<subseteq> set (ms_event_subscribers m)"
    "\<forall>s \<in> set ss'. \<not> ch_closed (cs' ! sub_channel s)"
    "\<forall>s \<in> set ss'. ch_buf (cs' ! sub_channel s) = ch_buf (ms_chans m ! sub_channel s) @
       (if matches_filter e (sub_filter s) then [e] else [])"
    "\<forall>c \<in> set cs'. length (ch_buf c) \<le> chan_cap"
    unfolding subs_ok_def by auto
  with assms show ?thesis
    by (auto simp: subs_ok_def notify_subscribers_def)
qed

lemma fold_store_ok:
  "subs_ok m \<Longrightarrow> \<not> ms_panicked m \<Longrightarrow> m' = fold store_event es m \<Longrightarrow>
     subs_ok m' \<and> \<not> ms_panicked m' \<and> length (ms_chans m') = length (ms_chans m) \<and>
     set (ms_event_subscribers m') \<subseteq> set (ms_event_subscribers m) \<and>
     (\<forall>s \<in> set (ms_event_subscribers m').
        ch_buf (ms_chans m' ! sub_channel s) = ch_buf (ms_chans m ! sub_channel s) @
          filter (\<lambda>e. matches_filter e (sub_filter s)) es)"
proof (induction es arbitrary: m)
  case Nil
  then show ?case by simp
next
  case (Cons e es)
  have "subs_ok (add_event e m)" using Cons.prems by (simp add: subs_ok_def)
  then have e: "subs_ok (store_event e m)" "\<not> ms_panicked (store_event e m)"
    "length (ms_chans (store_event e m)) = length (ms_chans m)"
    "set (ms_event_subscribers (store_event e m)) \<subseteq> set (ms_event_subscribers m)"
    "\<forall>s \<in> set (ms_event_subscribers (store_event e m)).
        ch_buf (ms_chans (store_event e m) ! sub_channel s) = ch_buf (ms_chans m ! sub_channel s) @
          (if matches_filter e (sub_filter s) then [e] else [])"
    unfolding store_event_def using notify_ok [OF _ _ refl, of "add_event e m" e] Cons.prems(2)
    by simp_all
  from Cons.prems(3) have "m' = fold store_event es (store_event e m)" by simp
  from Cons.IH [OF e(1,2) this] e(3-5) show ?case by fastforce
qed

section \<open>Giving out versions\<close>

lemma stamp_simps [simp]:
  "ev_version (stamp now sq v e) = v" "ev_seq (stamp now sq v e) = sq"
  "ev_aggregate_id (stamp now sq v e) = ev_aggregate_id e"
  "same_content e (stamp now sq v e)"
  by (simp_all add: stamp_def same_content_def)

lemma assign_versions_content:
  "assign_versions now cv i sq es = (r, sq', es') \<Longrightarrow> list_all2 same_content es es' \<and> sq \<le> sq'"
  by (induction es arbitrary: i sq es')
    (fastforce simp: Let_def list_all2_refl split: if_splits prod.splits)+

lemma assign_versions_ok:
  "assign_versions now cv i sq es = (None, sq', es') \<Longrightarrow>
     counts_from (cv + int i) (map ev_version es') \<and> counts_from sq (map ev_seq es') \<and>
     sq' = sq + int (length es') \<and> versions_fit (cv + int i) es"
proof (induction es arbitrary: i sq es')
  case Nil
  then show ?case by simp
next
  case (Cons e es)
  then obtain es1 where es1: "assign_versions now cv (Suc i) (sq + 1) es = (None, sq', es1)"
    "es' = stamp (now i) (sq + 1) (cv + int i + 1) e # es1"
    and fit: "ev_version e > 0 \<longrightarrow> ev_version e = cv + int i + 1"
    by (auto simp: Let_def split: if_splits prod.splits)
  have "cv + int (Suc i) = cv + int i + 1" by simp
  with Cons.IH [OF es1(1)]
  have "counts_from (cv + int i + 1) (map ev_version es1) \<and> counts_from (sq + 1) (map ev_seq es1) \<and>
      sq' = sq + 1 + int (length es1) \<and> versions_fit (cv + int i + 1) es"
    by (simp only:)
  with es1(2) fit show ?case by simp
qed

lemma assign_versions_fits:
  "versions_fit (cv + int i) es \<Longrightarrow> fst (assign_versions now cv i sq es) = None"
proof (induction es arbitrary: i sq)
  case Nil
  then show ?case by simp
next
  case (Cons e es)
  have "cv + int (Suc i) = cv + int i + 1" by simp
  with Cons.prems have "fst (assign_versions now cv (Suc i) (sq + 1) es) = None"
    by (intro Cons.IH) (simp only: versions_fit.simps)
  with Cons.prems show ?case
    by (auto simp: Let_def split: prod.split)
qed

lemma assign_versions_Nil_iff:
  "assign_versions now cv i sq es = (r, sq', es') \<Longrightarrow> (es' = []) = (es = [])"
  using assign_versions_content [of now cv i sq es r sq' es'] by (auto dest: list_all2_lengthD)

section \<open>Appending\<close>

text \<open>A successful append, taken apart.\<close>

lemma append_events_ok:
  assumes "mem_append_events ctx now es m = (None, m', es')" and "es \<noteq> []"
    and a: "a = ev_aggregate_id (hd es)"
  obtains sq where
    "assign_versions now (current_version m a) 0 (ms_seq m) es = (None, sq, es')"
    "m' = (fold store_event es' (m\<lparr>ms_seq := sq\<rparr>))
       \<lparr>ms_versions := (ms_versions m)(a \<mapsto> ev_version (last es'))\<rparr>"
    "\<forall>e \<in> set es. ev_aggregate_id e = a" "\<not> ms_closed m" "ctx = None"
proof -
  have ok: "ctx = None" "\<not> list_ex (\<lambda>e. ev_aggregate_id e \<noteq> a) es" "\<not> ms_closed m"
    using assms by (auto simp: mem_append_events_def Let_def split: option.splits if_splits)
  obtain r sq es1 where as: "assign_versions now (current_version m a) 0 (ms_seq m) es = (r, sq, es1)"
    by (cases "assign_versions now (current_version m a) 0 (ms_seq m) es") auto
  have "r = None \<and> es1 = es' \<and> m' = (fold store_event es' (m\<lparr>ms_seq := sq\<rparr>))
       \<lparr>ms_versions := (ms_versions m)(a \<mapsto> ev_version (last es'))\<rparr>"
    using assms(1,2) ok as
    by (cases r) (auto simp: mem_append_events_def Let_def simp flip: a)
  with as ok that show thesis by (auto simp: list_ex_iff)
qed

lemma append_events_error:
  assumes "mem_append_events ctx now es m = (Some x, m', es')"
  obtains sq where "m' = m\<lparr>ms_seq := sq\<rparr>" "ms_seq m \<le> sq" "list_all2 same_content es es'"
proof -
  obtain r sq es1 where as: "assign_versions now (current_version m (ev_aggregate_id (hd es))) 0
      (ms_seq m) es = (r, sq, es1)"
    by (cases "assign_versions now (current_version m (ev_aggregate_id (hd es))) 0 (ms_seq m) es") auto
  show thesis
  proof (cases "ctx = None \<and> es \<noteq> [] \<and>
      \<not> list_ex (\<lambda>e. ev_aggregate_id e \<noteq> ev_aggregate_id (hd es)) es \<and> \<not> ms_closed m")
    case True
    with assms as have "m' = m\<lparr>ms_seq := sq\<rparr> \<and> es' = es1"
      by (cases r) (auto simp: mem_append_events_def Let_def)
    with assign_versions_content [OF as] show thesis by (intro that [of sq]) simp_all
  next
    case False
    with assms have "m' = m \<and> es' = es"
      by (auto simp: mem_append_events_def Let_def split: option.splits if_splits)
    then show thesis by (intro that [of "ms_seq m"]) (simp_all add: list_all2_refl)
  qed
qed

lemma counts_from_sorted: "counts_from k xs \<Longrightarrow> sorted_wrt (<) xs"
proof (induction xs arbitrary: k)
  case Nil
  then show ?case by simp
next
  case (Cons x xs)
  then show ?case by (auto dest: counts_from_bounds)
qed

lemma seq_ok_append:
  assumes "seq_ok m" and "counts_from (ms_seq m) (map ev_seq es)"
    and "ms_events m' = ms_events m @ es" and "ms_seq m' = ms_seq m + int (length es)"
  shows "seq_ok m'"
proof -
  have "ms_seq m < ev_seq e \<and> ev_seq e \<le> ms_seq m'" if "e \<in> set es" for e
    using counts_from_bounds [OF assms(2), of "ev_seq e"] that assms(4) by simp
  with assms counts_from_sorted [OF assms(2)] show ?thesis
    by (fastforce simp: seq_ok_def sorted_wrt_append)
qed

text \<open>The invariant after an append of any outcome.\<close>

lemma mem_inv_append_events:
  assumes inv: "mem_inv m" and app: "mem_append_events ctx now es m = (r, m', es')"
  shows "mem_inv m'"
proof (cases r)
  case (Some x)
  obtain sq where "m' = m\<lparr>ms_seq := sq\<rparr>" "ms_seq m \<le> sq"
    by (rule append_events_error [OF app [unfolded Some]])
  with inv show ?thesis by (fastforce simp: mem_inv_def seq_ok_def)
next
  case None
  show ?thesis
  proof (cases "es = []")
    case True
    with app None inv show ?thesis by (simp add: mem_append_events_def split: option.splits)
  next
    case False
    define a where "a = ev_aggregate_id (hd es)"
    obtain sq where as: "assign_versions now (current_version m a) 0 (ms_seq m) es = (None, sq, es')"
      and m': "m' = (fold store_event es' (m\<lparr>ms_seq := sq\<rparr>))
        \<lparr>ms_versions := (ms_versions m)(a \<mapsto> ev_version (last es'))\<rparr>"
      and all: "\<forall>e \<in> set es. ev_aggregate_id e = a"
      by (rule append_events_ok [OF app [unfolded None] False a_def])
    note content = assign_versions_content [OF as] and nums = assign_versions_ok [OF as]
    have ne: "es' \<noteq> []" using assign_versions_Nil_iff [OF as] False by simp
    have own: "\<forall>e \<in> set es'. ev_aggregate_id e = a"
      using content all by (auto simp: list_all2_conv_all_nth all_set_conv_all_nth same_content_data(2))
    have len: "current_version m b = int (length (stream_of m b))"
      and cnt: "counts_from 0 (map ev_version (stream_of m b))" for b
      using inv by (simp_all add: mem_inv_def versions_ok_def)
    have str: "stream_of m' b = (if b = a then stream_of m a @ es' else stream_of m b)" for b
      using own by (simp add: stream_of_def m')
    have "index_ok m' \<and> subs_ok m' \<and> \<not> ms_panicked m'"
      using inv index_ok_fold [of "m\<lparr>ms_seq := sq\<rparr>"] fold_store_ok [OF _ _ refl, of "m\<lparr>ms_seq := sq\<rparr>"]
      by (simp add: m' mem_inv_def)
    moreover have "versions_ok m'"
      unfolding versions_ok_def
    proof
      fix b
      have v: "ev_version (last es') = int (length (stream_of m a)) + int (length es')"
        using counts_from_last [of "current_version m a" "map ev_version es'"] nums ne len [of a]
        by (simp add: last_map)
      show "current_version m' b = int (length (stream_of m' b)) \<and>
          counts_from 0 (map ev_version (stream_of m' b))"
        using len [of a] len [of b] cnt [of a] cnt [of b] nums v
        by (simp add: str) (simp add: current_version_def m')
    qed
    moreover have "seq_ok m'"
      using seq_ok_append [of m es' m'] inv nums by (simp add: mem_inv_def m')
    ultimately show ?thesis by (simp add: mem_inv_def)
  qed
qed

text \<open>What the subscribers get: the matching events of the append, in order, behind what they had.\<close>

lemma append_delivery:
  assumes inv: "mem_inv m" and app: "mem_append_events ctx now es m = (r, m', es')"
  shows "\<exists>new. ms_events m' = ms_events m @ new \<and> new = (if r = None then es' else []) \<and>
     length (ms_chans m') = length (ms_chans m) \<and>
     set (ms_event_subscribers m') \<subseteq> set (ms_event_subscribers m) \<and>
     (\<forall>s \<in> set (ms_event_subscribers m').
        ch_buf (ms_chans m' ! sub_channel s) = ch_buf (ms_chans m ! sub_channel s) @
          filter (\<lambda>e. matches_filter e (sub_filter s)) new)"
proof (cases r)
  case (Some x)
  show ?thesis
    by (rule append_events_error [OF app [unfolded Some]]) (simp add: Some)
next
  case None
  show ?thesis
  proof (cases "es = []")
    case True
    with app None show ?thesis by (simp add: mem_append_events_def split: option.splits)
  next
    case False
    obtain sq where m': "m' = (fold store_event es' (m\<lparr>ms_seq := sq\<rparr>))
        \<lparr>ms_versions := (ms_versions m)(ev_aggregate_id (hd es) \<mapsto> ev_version (last es'))\<rparr>"
      by (rule append_events_ok [OF app [unfolded None] False refl])
    have "subs_ok (m\<lparr>ms_seq := sq\<rparr>)" "\<not> ms_panicked (m\<lparr>ms_seq := sq\<rparr>)"
      using inv by (simp_all add: mem_inv_def)
    from fold_store_ok [OF this refl, of es'] None m' show ?thesis by simp
  qed
qed

text \<open>
  \<open>AppendEvent\<close> is \<open>AppendEvents\<close> of one event, for events that pass its check of the three
  required fields; it updates the version before it notifies, which nobody can see.
\<close>

lemma notify_versions_commute:
  "notify_subscribers e (m\<lparr>ms_versions := v\<rparr>) = (notify_subscribers e m)\<lparr>ms_versions := v\<rparr>"
  by (simp add: notify_subscribers_def split: option.split prod.split)

lemma append_event_is_append_events:
  assumes "ev_aggregate_id e \<noteq> ''''" "ev_aggregate_type e \<noteq> ''''" "ev_type e \<noteq> ''''"
  shows "mem_append_event ctx t e m = (None, m', e') \<longleftrightarrow>
     mem_append_events ctx (\<lambda>_. t) [e] m = (None, m', [e'])"
proof (cases "ctx = None \<and> \<not> ms_closed m")
  case True
  with assms show ?thesis
    by (auto simp: mem_append_event_def mem_append_events_def Let_def store_event_def
        notify_versions_commute)
next
  case False
  with assms show ?thesis
    by (auto simp: mem_append_event_def mem_append_events_def Let_def split: option.splits)
qed

lemma append_event_error:
  "mem_append_event ctx t e m = (Some x, m', e') \<Longrightarrow> m' = m \<and> e' = e"
  by (auto simp: mem_append_event_def Let_def split: option.splits if_splits)

lemma append_event_cases:
  assumes "mem_append_event ctx t e m = (r, m', e')"
  obtains "r \<noteq> None" "m' = m" "e' = e"
  | "r = None" "mem_append_events ctx (\<lambda>_. t) [e] m = (None, m', [e'])"
proof (cases r)
  case (Some x)
  with append_event_error [of ctx t e m x m' e'] assms that(1) show thesis by simp
next
  case None
  then have "ev_aggregate_id e \<noteq> ''''" "ev_aggregate_type e \<noteq> ''''" "ev_type e \<noteq> ''''"
    using assms by (auto simp: mem_append_event_def split: option.splits if_splits)
  from append_event_is_append_events [OF this] assms None that(2) show thesis by blast
qed

lemma mem_inv_append_event:
  assumes "mem_inv m" "mem_append_event ctx t e m = (r, m', e')"
  shows "mem_inv m'"
  using assms(2)
proof (cases rule: append_event_cases)
  case 1
  with assms(1) show ?thesis by simp
next
  case 2
  then show ?thesis using mem_inv_append_events [OF assms(1)] by blast
qed

section \<open>The store implements the interface\<close>

definition memory_ops :: "mem_store event_store_ops" where
  "memory_ops = \<lparr>es_append_events = mem_append_events, es_get_events = mem_get_events,
     es_get_by_aggregate = mem_get_by_aggregate, es_aggregate_version = mem_aggregate_version,
     es_create_snapshot = mem_create_snapshot, es_get_snapshot = mem_get_snapshot\<rparr>"

definition mem_usable :: "mem_store \<Rightarrow> bool" where
  "mem_usable m = (\<not> ms_closed m)"

lemma memory_ops_simps [simp]:
  "es_append_events memory_ops = mem_append_events"
  "es_get_events memory_ops = mem_get_events"
  "es_get_by_aggregate memory_ops = mem_get_by_aggregate"
  "es_aggregate_version memory_ops = mem_aggregate_version"
  "es_create_snapshot memory_ops = mem_create_snapshot"
  "es_get_snapshot memory_ops = mem_get_snapshot"
  by (simp_all add: memory_ops_def)

lemma mem_append_frame:
  assumes "mem_append_events ctx now es m = (r, m', es')"
  shows "ms_snapshots m' = ms_snapshots m" "mem_usable m' = mem_usable m"
    "list_all2 same_content es es'"
proof -
  have "ms_snapshots m' = ms_snapshots m \<and> mem_usable m' = mem_usable m \<and> list_all2 same_content es es'"
  proof (cases r)
    case (Some x)
    show ?thesis
      by (rule append_events_error [OF assms [unfolded Some]]) (simp add: mem_usable_def)
  next
    case None
    show ?thesis
    proof (cases "es = []")
      case True
      with assms None show ?thesis by (simp add: mem_append_events_def split: option.splits)
    next
      case False
      show ?thesis
        by (rule append_events_ok [OF assms [unfolded None] False refl])
          (simp add: mem_usable_def assign_versions_content)
    qed
  qed
  then show "ms_snapshots m' = ms_snapshots m" "mem_usable m' = mem_usable m"
    "list_all2 same_content es es'" by simp_all
qed

lemma mem_append_stream:
  assumes inv: "mem_inv m" and app: "mem_append_events ctx now es m = (None, m', es')"
    and ne: "es \<noteq> []" and a: "a = ev_aggregate_id (hd es)"
  shows "stream_of m' = (stream_of m)(a := stream_of m a @ es') \<and>
     versions_fit (int (length (stream_of m a))) es \<and> (\<forall>e \<in> set es. ev_aggregate_id e = a)"
proof (rule append_events_ok [OF app ne a])
  fix sq
  assume as: "assign_versions now (current_version m a) 0 (ms_seq m) es = (None, sq, es')"
    and m': "m' = (fold store_event es' (m\<lparr>ms_seq := sq\<rparr>))
        \<lparr>ms_versions := (ms_versions m)(a \<mapsto> ev_version (last es'))\<rparr>"
    and all: "\<forall>e \<in> set es. ev_aggregate_id e = a"
  have "\<forall>e \<in> set es'. ev_aggregate_id e = a"
    using assign_versions_content [OF as] all
    by (auto simp: list_all2_conv_all_nth all_set_conv_all_nth same_content_data(2))
  then have "stream_of m' = (stream_of m)(a := stream_of m a @ es')"
    unfolding m' by (auto simp: stream_of_def fun_eq_iff filter_empty_conv)
  moreover have "current_version m a = int (length (stream_of m a))"
    using inv by (simp add: mem_inv_def versions_ok_def)
  ultimately show ?thesis
    using assign_versions_ok [OF as] all by simp
qed

lemma mem_append_error_stream:
  assumes "mem_append_events ctx now es m = (Some x, m', es')"
  shows "stream_of m' = stream_of m"
  by (rule append_events_error [OF assms]) simp

lemma mem_append_accepts:
  assumes "mem_inv m" "mem_usable m" "es \<noteq> []" "\<forall>e \<in> set es. ev_aggregate_id e = a"
    and "versions_fit (int (length (stream_of m a))) es"
  shows "fst (mem_append_events None now es m) = None"
proof -
  have "ev_aggregate_id (hd es) = a" using assms(3,4) by simp
  moreover have "current_version m a = int (length (stream_of m a))"
    using assms(1) by (simp add: mem_inv_def versions_ok_def)
  ultimately show ?thesis
    using assms(2-5) assign_versions_fits [of "current_version m a" 0 es now "ms_seq m"]
    by (auto simp: mem_append_events_def mem_usable_def list_ex_iff Let_def split: prod.split option.split)
qed

lemma matches_range:
  "matches_filter e (no_filter\<lparr>f_aggregate_id := Some a, f_from_version := Some v, f_to_version := Some w\<rparr>)
     = (ev_aggregate_id e = a \<and> v \<le> ev_version e \<and> ev_version e \<le> w)"
  by (auto simp: matches_filter_def no_filter_def)

lemma page_none [simp]: "page None None xs = xs"
  by (simp add: page_def)

interpretation mem: event_store memory_ops mem_inv mem_usable stream_of ms_snapshots
proof
  fix m :: mem_store and a
  assume inv: "mem_inv m"
  then show "counts_from 0 (map ev_version (stream_of m a))"
    by (simp add: mem_inv_def versions_ok_def)
  show "ev_aggregate_id e = a" if "e \<in> set (stream_of m a)" for e
    using that by (simp add: stream_of_def)
  show "es_get_by_aggregate memory_ops None a v m =
      Inr (filter (\<lambda>e. v \<le> ev_version e) (stream_of m a))" for v
    using inv by (simp add: mem_get_by_aggregate_def mem_inv_def index_ok_def)
  show "es_get_events memory_ops None
        (no_filter\<lparr>f_aggregate_id := Some a, f_from_version := Some v, f_to_version := Some w\<rparr>) m =
      Inr (filter (\<lambda>e. v \<le> ev_version e \<and> ev_version e \<le> w) (stream_of m a))" for v w
    by (simp add: mem_get_events_def matches_range stream_of_def)
      (simp add: no_filter_def conj_commute conj_left_commute)
  show "es_aggregate_version memory_ops None a m = Inr (int (length (stream_of m a)))"
    using inv
    by (auto simp: mem_aggregate_version_def mem_inv_def versions_ok_def current_version_def
        dest: spec [of _ a] split: option.splits)
next
  fix m m' :: mem_store and ctx now es r es'
  assume "mem_inv m" "es_append_events memory_ops ctx now es m = (r, m', es')"
  then show "mem_inv m' \<and> mem_usable m' = mem_usable m \<and> ms_snapshots m' = ms_snapshots m \<and>
      list_all2 same_content es es'"
    using mem_append_frame mem_inv_append_events by simp
next
  fix m m' :: mem_store and ctx now es es' a
  assume "mem_inv m" "es_append_events memory_ops ctx now es m = (None, m', es')" "es \<noteq> []"
    "a = ev_aggregate_id (hd es)"
  then show "stream_of m' = (stream_of m)(a := stream_of m a @ es') \<and>
      versions_fit (int (length (stream_of m a))) es \<and> (\<forall>e \<in> set es. ev_aggregate_id e = a)"
    unfolding memory_ops_simps by (rule mem_append_stream)
next
  fix m :: mem_store and es a now
  assume "mem_inv m" "mem_usable m" "es \<noteq> []" "\<forall>e \<in> set es. ev_aggregate_id e = a"
    "versions_fit (int (length (stream_of m a))) es"
  then show "fst (es_append_events memory_ops None now es m) = None"
    unfolding memory_ops_simps by (rule mem_append_accepts)
next
  fix m m' :: mem_store and ctx now es x es'
  assume "es_append_events memory_ops ctx now es m = (Some x, m', es')"
  then show "stream_of m' = stream_of m"
    unfolding memory_ops_simps by (rule mem_append_error_stream)
qed (auto simp: mem_create_snapshot_def mem_get_snapshot_def mem_usable_def mem_append_events_def
      split: option.splits)

section \<open>Properties\<close>

text \<open>C3: \<open>AppendEvents\<close> decides optimistic concurrency exactly.  A batch of one aggregate is
  accepted just when the store is open and every version the events carry is the next one; then the
  aggregate's stream, and no other, grows by the batch, numbered consecutively and otherwise as the
  caller gave it.  A refused batch leaves every stream as it was.  The invariant holds either way.\<close>

theorem append_events_exact:
  assumes inv: "mem_inv m" and ne: "es \<noteq> []" and all: "\<forall>e \<in> set es. ev_aggregate_id e = a"
    and app: "mem_append_events None now es m = (r, m', es')"
  shows "mem_inv m' \<and>
    (if \<not> ms_closed m \<and> versions_fit (int (length (stream_of m a))) es
     then r = None \<and> stream_of m' = (stream_of m)(a := stream_of m a @ es') \<and>
       counts_from (int (length (stream_of m a))) (map ev_version es') \<and> list_all2 same_content es es'
     else r \<noteq> None \<and> stream_of m' = stream_of m)"
proof -
  have inv': "mem_inv m'" by (rule mem_inv_append_events [OF inv app])
  have a: "a = ev_aggregate_id (hd es)" using ne all by simp
  show ?thesis
  proof (cases "\<not> ms_closed m \<and> versions_fit (int (length (stream_of m a))) es")
    case True
    with mem_append_accepts [OF inv _ ne all, of now] app have r: "r = None" by (simp add: mem_usable_def)
    with mem.append_ok [OF inv _ ne a, of None now m' es'] app
    have str: "stream_of m' = (stream_of m)(a := stream_of m a @ es')" by simp
    have "counts_from 0 (map ev_version (stream_of m a @ es'))"
      using mem.stream_versions [OF inv', of a] str by simp
    with True r str inv' mem_append_frame(3) [OF app] show ?thesis by simp
  next
    case False
    have "r \<noteq> None"
    proof
      assume r: "r = None"
      from append_events_ok [OF app [unfolded r] ne a] mem_append_stream [OF inv app [unfolded r] ne a]
      show False using False by blast
    qed
    with False inv' mem_append_error_stream app show ?thesis by auto
  qed
qed

lemma append_events_exact_witness:
  "\<exists>r m' es'. mem_append_events None (\<lambda>_. 7) [example_event ''w'' 1] new_memory_event_store = (r, m', es') \<and>
     mem_inv m' \<and> r = None \<and> stream_of m' ''w'' = es'"
proof -
  have own: "ev_aggregate_id (example_event ''w'' 1) = ''w''" "ev_version (example_event ''w'' 1) = 1"
    by (simp_all add: example_event_def)
  show ?thesis
    using append_events_exact [OF mem_inv_new, of "[example_event ''w'' 1]" "''w''" "\<lambda>_. 7"] own
    by (cases "mem_append_events None (\<lambda>_. 7) [example_event ''w'' 1] new_memory_event_store") auto
qed

text \<open>Two writers that have read the same version of an aggregate: when the append of the first
  one is accepted, the append of the second one, with its context live or not, is refused.\<close>

theorem append_conflict:
  assumes "mem_inv m" "\<not> ms_closed m"
    and "mem_append_events ctx now (e # es) m = (None, m1, es1)"
    and "ev_version e > 0" "ev_version f = ev_version e" "ev_aggregate_id f = ev_aggregate_id e"
  shows "fst (mem_append_events ctx' now' (f # fs) m1) \<noteq> None"
  using mem.second_writer_loses [of m ctx now e es m1 es1 "ev_aggregate_id e" f ctx' now' fs] assms
  by (auto simp: mem_usable_def)

lemma append_conflict_witness:
  "\<exists>m1 es1. mem_append_events None (\<lambda>_. 7) [example_event ''w'' 1] new_memory_event_store = (None, m1, es1) \<and>
     fst (mem_append_events None (\<lambda>_. 8) [example_event ''w'' 1] m1) \<noteq> None"
proof -
  obtain m1 es1 where app: "mem_append_events None (\<lambda>_. 7) [example_event ''w'' 1] new_memory_event_store =
      (None, m1, es1)"
    by (auto simp: mem_append_events_def example_event_def new_memory_event_store_def
        current_version_def Let_def)
  have "fst (mem_append_events None (\<lambda>_. 8) [example_event ''w'' 1] m1) \<noteq> None"
    by (rule append_conflict [OF mem_inv_new _ app]) (simp_all add: example_event_def)
  with app show ?thesis by blast
qed

text \<open>\<open>AppendEvents\<close> is documented as atomic, but a conflict in the middle of a batch
  leaves traces: the sequence numbers given out before it stay used up, and the caller's events before
  it have been renumbered although nothing was stored.\<close>

theorem append_events_not_atomic:
  "\<exists>x m' es'. mem_append_events None (\<lambda>_. 7) [example_event ''w'' 0, example_event ''w'' 9]
       new_memory_event_store = (Some x, m', es') \<and>
     ms_events m' = [] \<and> ms_seq m' = 1 \<and> ev_seq (hd es') = 1 \<and> ev_version (hd es') = 1"
  by (simp add: mem_append_events_def example_event_def new_memory_event_store_def
      current_version_def Let_def stamp_def)

end
