(* ===== verification/Postgres_Store.thy ===== *)
theory Postgres_Store
  imports Memory_Store
begin

text \<open>
  \<open>pkg/eventstore/postgres_store.go\<close>: the event store on PostgreSQL, its two tables with their
  constraints, and the statements of every operation.

  An append is one serializable transaction: it takes place at once, at its commit, or not at all, and
  a conflict with another transaction is an error of one of its statements.  The environment says for
  every statement of a call whether its request or its reply gets lost, what the server answers to
  \<open>SELECT MAX(\<dots>) \<dots> FOR UPDATE\<close>, how many sequence numbers others have drawn before an
  insert, the texts of the server's errors, and what storing does to a document (\<open>JSONB\<close> orders
  its keys) and to a time (microseconds).  Sequence numbers grow in the order of the commits.
\<close>

record pg_config =
  pc_optimistic_locking :: bool
  pc_notifications :: bool

record pg_tables =
  pg_events :: "event list"
  pg_snapshots :: "snapshot list"

record pg_env =
  pe_fault :: "nat \<Rightarrow> fault"
  pe_locking_refused :: "go_error option"
  pe_skip :: "nat \<Rightarrow> nat"
  pe_violation :: "string \<Rightarrow> go_error"
  pe_jsonb :: "json \<Rightarrow> json"
  pe_micro :: "time \<Rightarrow> time"

definition pg_create_tables :: pg_tables where
  "pg_create_tables = \<lparr>pg_events = [], pg_snapshots = []\<rparr>"

section \<open>Constraints\<close>

definition too_long :: "event \<Rightarrow> string option" where
  "too_long e =
     (if 36 < length (ev_id e) then Some ''id''
      else if 36 < length (ev_aggregate_id e) then Some ''aggregate_id''
      else if 100 < length (ev_aggregate_type e) then Some ''aggregate_type''
      else if 100 < length (ev_type e) then Some ''event_type''
      else if 36 < length (ev_caused_by e) then Some ''caused_by''
      else if 36 < length (ev_correlation_id e) then Some ''correlation_id''
      else None)"

text \<open>What an insert into \<open>events\<close> violates; the sequence number is new.\<close>

definition event_violation :: "event list \<Rightarrow> event \<Rightarrow> string option" where
  "event_violation rows e =
     (if too_long e \<noteq> None then too_long e
      else if ev_id e \<in> ev_id ` set rows then Some ''events_pkey''
      else if (ev_aggregate_id e, ev_version e) \<in> (\<lambda>r. (ev_aggregate_id r, ev_version r)) ` set rows
      then Some ''unique_aggregate_version''
      else None)"

definition snapshot_violation :: "snapshot \<Rightarrow> string option" where
  "snapshot_violation sn =
     (if 36 < length (sn_aggregate_id sn) then Some ''aggregate_id''
      else if 100 < length (sn_aggregate_type sn) then Some ''aggregate_type''
      else None)"

section \<open>Statements\<close>

text \<open>\<open>COALESCE(MAX(\<dots>), 0)\<close>.\<close>

definition max_or_zero :: "int list \<Rightarrow> int" where
  "max_or_zero xs = (case xs of [] \<Rightarrow> 0 | x # ys \<Rightarrow> fold max ys x)"

definition max_version :: "string \<Rightarrow> pg_tables \<Rightarrow> int" where
  "max_version a t = max_or_zero (map ev_version (filter (\<lambda>e. ev_aggregate_id e = a) (pg_events t)))"

text \<open>The maximum with \<open>FOR UPDATE\<close>, the second statement of both appends.\<close>

definition locked_version :: "pg_env \<Rightarrow> string \<Rightarrow> pg_tables \<Rightarrow> int go_result" where
  "locked_version env a t =
     (case fault_error (pe_fault env 1) of Some x \<Rightarrow> Inl x
      | None \<Rightarrow> (case pe_locking_refused env of Some x \<Rightarrow> Inl x | None \<Rightarrow> Inr (max_version a t)))"

text \<open>What is stored of an event.\<close>

definition stored_event :: "pg_env \<Rightarrow> int \<Rightarrow> event \<Rightarrow> event" where
  "stored_event env sq e = e\<lparr>ev_seq := sq, ev_data := pe_jsonb env (ev_data e),
     ev_metadata := pe_jsonb env (ev_metadata e), ev_created_at := pe_micro env (ev_created_at e)\<rparr>"

text \<open>
  The \<open>INSERT\<close>, as statement \<open>k\<close> of its call: the rows with the new one, or the violated
  constraint (none when the request is lost) with the text of the error.
\<close>

definition insert_event :: "pg_env \<Rightarrow> nat \<Rightarrow> event \<Rightarrow> event list \<Rightarrow> string \<times> go_error + event list" where
  "insert_event env k e rows =
     (case fault_error (pe_fault env k) of Some x \<Rightarrow> Inl ('''', x)
      | None \<Rightarrow> (case event_violation rows e of Some c \<Rightarrow> Inl (c, pe_violation env c)
         | None \<Rightarrow> Inr (rows @ [stored_event env (max_or_zero (map ev_seq rows) + int (pe_skip env k) + 1) e])))"

definition commit_tx :: "pg_env \<Rightarrow> nat \<Rightarrow> pg_tables \<Rightarrow> pg_tables \<Rightarrow> go_error option \<times> pg_tables" where
  "commit_tx env k t t' =
     (case pe_fault env k of
        No_Fault \<Rightarrow> (None, t')
      | Lost_Request x \<Rightarrow> (Some (''failed to commit transaction: '' @ x), t)
      | Lost_Reply x \<Rightarrow> (Some (''failed to commit transaction: '' @ x), t'))"

section \<open>Appending\<close>

text \<open>Both appends write into the caller's events: the version, a missing time, the sequence number.\<close>

definition numbered :: "time \<Rightarrow> int \<Rightarrow> event \<Rightarrow> event" where
  "numbered now v e = e\<lparr>ev_version := v,
     ev_created_at := (if ev_created_at e = 0 then now else ev_created_at e)\<rparr>"

definition pg_append_event ::
  "pg_config \<Rightarrow> pg_env \<Rightarrow> ctx_err \<Rightarrow> time \<Rightarrow> event \<Rightarrow> pg_tables \<Rightarrow> go_error option \<times> pg_tables \<times> event" where
  "pg_append_event cfg env ctx now e t =
     (case ctx of Some x \<Rightarrow> (Some x, t, e) | None \<Rightarrow>
      if ev_aggregate_id e = '''' \<or> ev_aggregate_type e = '''' \<or> ev_type e = ''''
      then (Some ''event must have aggregate_id, aggregate_type, and event_type'', t, e)
      else case fault_error (pe_fault env 0) of
        Some x \<Rightarrow> (Some (''failed to begin transaction: '' @ x), t, e)
      | None \<Rightarrow>
      (case locked_version env (ev_aggregate_id e) t of
        Inl x \<Rightarrow> (Some (''failed to get current aggregate version: '' @ x), t, e)
      | Inr cv \<Rightarrow>
      if pc_optimistic_locking cfg \<and> ev_version e > 0 \<and> ev_version e \<noteq> cv + 1
      then (Some (conflict_error (cv + 1) (ev_version e)), t, e)
      else let e1 = numbered now (cv + 1) e in
      case insert_event env 2 e1 (pg_events t) of
        Inl (c, x) \<Rightarrow>
          (Some (if c = ''unique_aggregate_version''
                 then ''concurrency conflict: version '' @ show_int (ev_version e1) @
                   '' already exists for aggregate '' @ ev_aggregate_id e1
                 else ''failed to insert event: '' @ x), t, e1)
      | Inr rows \<Rightarrow>
      (case fault_error (pe_fault env 3) of
        Some x \<Rightarrow> (Some (''failed to get sequence number: '' @ x), t, e1)
      | None \<Rightarrow>
        let e2 = e1\<lparr>ev_seq := ev_seq (last rows)\<rparr>;
            (r, t') = commit_tx env 4 t (t\<lparr>pg_events := rows\<rparr>)
        in (r, t', e2))))"

text \<open>The loop of \<open>AppendEvents\<close>, from the \<open>i\<close>-th event on.\<close>

fun insert_all ::
  "pg_env \<Rightarrow> (nat \<Rightarrow> time) \<Rightarrow> int \<Rightarrow> nat \<Rightarrow> event list \<Rightarrow> event list \<Rightarrow>
     go_error option \<times> event list \<times> event list" where
  "insert_all env now cv i [] rows = (None, rows, [])"
| "insert_all env now cv i (e # es) rows =
     (let e1 = numbered (now i) (cv + int i + 1) e
      in case insert_event env (3 + i) e1 rows of
           Inl (c, x) \<Rightarrow> (Some (''failed to insert event '' @ show_nat i @ '': '' @ x), rows, e1 # es)
         | Inr rows1 \<Rightarrow>
             (let (r, rows2, es2) = insert_all env now cv (Suc i) es rows1 in (r, rows2, e1 # es2)))"

text \<open>The sequence numbers the query gives back, found by the event's id.\<close>

definition set_sequence :: "event list \<Rightarrow> event \<Rightarrow> event" where
  "set_sequence rows e =
     (case find (\<lambda>r. ev_id r = ev_id e) rows of None \<Rightarrow> e | Some r \<Rightarrow> e\<lparr>ev_seq := ev_seq r\<rparr>)"

definition pg_append_events ::
  "pg_env \<Rightarrow> ctx_err \<Rightarrow> (nat \<Rightarrow> time) \<Rightarrow> event list \<Rightarrow> pg_tables \<Rightarrow> go_error option \<times> pg_tables \<times> event list" where
  "pg_append_events env ctx now es t =
     (case ctx of Some x \<Rightarrow> (Some x, t, es) | None \<Rightarrow>
      if es = [] then (None, t, es)
      else let a = ev_aggregate_id (hd es); n = length es in
      if list_ex (\<lambda>e. ev_aggregate_id e \<noteq> a) es
      then (Some ''all events must belong to the same aggregate'', t, es)
      else case fault_error (pe_fault env 0) of
        Some x \<Rightarrow> (Some (''failed to begin transaction: '' @ x), t, es)
      | None \<Rightarrow>
      (case locked_version env a t of
        Inl x \<Rightarrow> (Some (''failed to get current aggregate version: '' @ x), t, es)
      | Inr cv \<Rightarrow>
      (case fault_error (pe_fault env 2) of
        Some x \<Rightarrow> (Some (''failed to prepare statement: '' @ x), t, es)
      | None \<Rightarrow>
      (case insert_all env now cv 0 es (pg_events t) of
        (Some x, _, es1) \<Rightarrow> (Some x, t, es1)
      | (None, rows, es1) \<Rightarrow>
      (case fault_error (pe_fault env (3 + n)) of
        Some x \<Rightarrow> (Some (''failed to get sequence numbers: '' @ x), t, es1)
      | None \<Rightarrow>
        let es2 = map (set_sequence (filter (\<lambda>r. ev_aggregate_id r = a \<and> cv < ev_version r) rows)) es1;
            (r, t') = commit_tx env (4 + n) t (t\<lparr>pg_events := rows\<rparr>)
        in (r, t', es2))))))"

section \<open>Reading\<close>

text \<open>The conditions \<open>GetEvents\<close> adds to its \<open>WHERE\<close>; times are sent with the precision of
  the column.\<close>

definition row_matches :: "pg_env \<Rightarrow> event_filter \<Rightarrow> event \<Rightarrow> bool" where
  "row_matches env f e \<longleftrightarrow>
     (case f_aggregate_id f of Some a \<Rightarrow> ev_aggregate_id e = a | None \<Rightarrow> True) \<and>
     (case f_aggregate_type f of Some t \<Rightarrow> ev_aggregate_type e = t | None \<Rightarrow> True) \<and>
     (f_event_types f \<noteq> [] \<longrightarrow> List.member (f_event_types f) (ev_type e)) \<and>
     (case f_from_version f of Some v \<Rightarrow> ev_version e \<ge> v | None \<Rightarrow> True) \<and>
     (case f_to_version f of Some v \<Rightarrow> ev_version e \<le> v | None \<Rightarrow> True) \<and>
     (case f_from_seq f of Some n \<Rightarrow> ev_seq e \<ge> n | None \<Rightarrow> True) \<and>
     (case f_to_seq f of Some n \<Rightarrow> ev_seq e \<le> n | None \<Rightarrow> True) \<and>
     (case f_from_time f of Some u \<Rightarrow> ev_created_at e \<ge> pe_micro env u | None \<Rightarrow> True) \<and>
     (case f_to_time f of Some u \<Rightarrow> ev_created_at e \<le> pe_micro env u | None \<Rightarrow> True)"

text \<open>\<open>LIMIT\<close> and \<open>OFFSET\<close> of a query, which refuses negative ones.\<close>

definition limit_offset :: "int option \<Rightarrow> int option \<Rightarrow> 'a list \<Rightarrow> string + 'a list" where
  "limit_offset limit offset xs =
     (if (case limit of Some n \<Rightarrow> n < 0 | None \<Rightarrow> False) then Inl ''LIMIT''
      else if (case offset of Some n \<Rightarrow> n < 0 | None \<Rightarrow> False) then Inl ''OFFSET''
      else let tail = (case offset of Some n \<Rightarrow> drop (nat n) xs | None \<Rightarrow> xs)
           in Inr (case limit of Some n \<Rightarrow> take (nat n) tail | None \<Rightarrow> tail))"

definition pg_get_events :: "pg_env \<Rightarrow> ctx_err \<Rightarrow> event_filter \<Rightarrow> pg_tables \<Rightarrow> event list go_result" where
  "pg_get_events env ctx f t =
     (case ctx of Some x \<Rightarrow> Inl x | None \<Rightarrow>
      (case fault_error (pe_fault env 0) of Some x \<Rightarrow> Inl (''failed to query events: '' @ x) | None \<Rightarrow>
      (case limit_offset (f_limit f) (f_offset f)
              (sort_key ev_seq (filter (row_matches env f) (pg_events t))) of
        Inl c \<Rightarrow> Inl (''failed to query events: '' @ pe_violation env c)
      | Inr es \<Rightarrow>
      (case fault_error (pe_fault env 1) of Some x \<Rightarrow> Inl (''error iterating rows: '' @ x)
       | None \<Rightarrow> Inr es))))"

definition pg_get_by_aggregate ::
  "pg_env \<Rightarrow> ctx_err \<Rightarrow> string \<Rightarrow> int \<Rightarrow> pg_tables \<Rightarrow> event list go_result" where
  "pg_get_by_aggregate env ctx a from_version =
     pg_get_events env ctx (no_filter\<lparr>f_aggregate_id := Some a, f_from_version := Some from_version\<rparr>)"

definition pg_get_by_type ::
  "pg_env \<Rightarrow> ctx_err \<Rightarrow> string \<Rightarrow> event_filter \<Rightarrow> pg_tables \<Rightarrow> event list go_result" where
  "pg_get_by_type env ctx ty f = pg_get_events env ctx (f\<lparr>f_aggregate_type := Some ty\<rparr>)"

definition pg_last_seq :: "pg_env \<Rightarrow> ctx_err \<Rightarrow> pg_tables \<Rightarrow> int go_result" where
  "pg_last_seq env ctx t =
     (case ctx of Some x \<Rightarrow> Inl x | None \<Rightarrow>
      (case fault_error (pe_fault env 0) of Some x \<Rightarrow> Inl (''failed to get last sequence number: '' @ x)
       | None \<Rightarrow> Inr (max_or_zero (map ev_seq (pg_events t)))))"

definition pg_aggregate_version :: "pg_env \<Rightarrow> ctx_err \<Rightarrow> string \<Rightarrow> pg_tables \<Rightarrow> int go_result" where
  "pg_aggregate_version env ctx a t =
     (case ctx of Some x \<Rightarrow> Inl x | None \<Rightarrow>
      (case fault_error (pe_fault env 0) of Some x \<Rightarrow> Inl (''failed to get aggregate version: '' @ x)
       | None \<Rightarrow> Inr (max_version a t)))"

section \<open>Snapshots\<close>

text \<open>\<open>INSERT \<dots> ON CONFLICT (aggregate_id) DO UPDATE\<close>; the time is the server's.\<close>

definition upsert_snapshot :: "snapshot \<Rightarrow> snapshot list \<Rightarrow> snapshot list" where
  "upsert_snapshot sn rows =
     (if sn_aggregate_id sn \<in> sn_aggregate_id ` set rows
      then map (\<lambda>r. if sn_aggregate_id r = sn_aggregate_id sn then sn else r) rows
      else rows @ [sn])"

definition pg_create_snapshot ::
  "pg_env \<Rightarrow> ctx_err \<Rightarrow> time \<Rightarrow> string \<Rightarrow> string \<Rightarrow> int \<Rightarrow> json \<Rightarrow> pg_tables \<Rightarrow> go_error option \<times> pg_tables" where
  "pg_create_snapshot env ctx now a ty v d t =
     (case ctx of Some x \<Rightarrow> (Some x, t) | None \<Rightarrow>
      let sn = \<lparr>sn_aggregate_id = a, sn_aggregate_type = ty, sn_version = v, sn_data = pe_jsonb env d,
            sn_created_at = now\<rparr>;
          t' = (if snapshot_violation sn = None
                then t\<lparr>pg_snapshots := upsert_snapshot sn (pg_snapshots t)\<rparr> else t);
          failed = (\<lambda>x. Some (''failed to create snapshot: '' @ x))
      in case pe_fault env 0 of
           Lost_Request x \<Rightarrow> (failed x, t)
         | Lost_Reply x \<Rightarrow> (failed x, t')
         | No_Fault \<Rightarrow>
             (case snapshot_violation sn of Some c \<Rightarrow> (failed (pe_violation env c), t)
              | None \<Rightarrow> (None, t')))"

definition pg_get_snapshot :: "pg_env \<Rightarrow> ctx_err \<Rightarrow> string \<Rightarrow> pg_tables \<Rightarrow> snapshot option go_result" where
  "pg_get_snapshot env ctx a t =
     (case ctx of Some x \<Rightarrow> Inl x | None \<Rightarrow>
      (case fault_error (pe_fault env 0) of Some x \<Rightarrow> Inl (''failed to get snapshot: '' @ x)
       | None \<Rightarrow> Inr (find (\<lambda>sn. sn_aggregate_id sn = a) (pg_snapshots t))))"

section \<open>Subscribing\<close>

text \<open>What the trigger sends for every row at the commit, while notifications are enabled.\<close>

record notification =
  nt_event_id :: string
  nt_aggregate_id :: string
  nt_event_type :: string
  nt_seq :: int

definition notification_of :: "event \<Rightarrow> notification" where
  "notification_of r = \<lparr>nt_event_id = ev_id r, nt_aggregate_id = ev_aggregate_id r,
     nt_event_type = ev_type r, nt_seq = ev_seq r\<rparr>"

text \<open>\<open>Subscribe\<close> up to the goroutine: its argument is the error of \<open>Listen\<close>.\<close>

definition pg_subscribe :: "pg_config \<Rightarrow> go_error option \<Rightarrow> ctx_err \<Rightarrow> go_error option" where
  "pg_subscribe cfg listen ctx =
     (case ctx of Some x \<Rightarrow> Some x | None \<Rightarrow>
      if \<not> pc_notifications cfg then Some ''notifications are not enabled''
      else map_option (\<lambda>x. ''failed to listen on channel: '' @ x) listen)"

definition pg_matches_filter :: "event \<Rightarrow> event_filter \<Rightarrow> bool" where
  "pg_matches_filter e f =
     (if (case f_aggregate_id f of Some a \<Rightarrow> ev_aggregate_id e \<noteq> a | None \<Rightarrow> False) then False
      else if (case f_aggregate_type f of Some t \<Rightarrow> ev_aggregate_type e \<noteq> t | None \<Rightarrow> False) then False
      else if f_event_types f \<noteq> [] \<and> \<not> List.member (f_event_types f) (ev_type e) then False
      else if (case f_from_version f of Some v \<Rightarrow> ev_version e < v | None \<Rightarrow> False) then False
      else if (case f_to_version f of Some v \<Rightarrow> ev_version e > v | None \<Rightarrow> False) then False
      else if (case f_from_seq f of Some n \<Rightarrow> ev_seq e < n | None \<Rightarrow> False) then False
      else if (case f_to_seq f of Some n \<Rightarrow> ev_seq e > n | None \<Rightarrow> False) then False
      else if (case f_from_time f of Some u \<Rightarrow> ev_created_at e < u | None \<Rightarrow> False) then False
      else if (case f_to_time f of Some u \<Rightarrow> ev_created_at e > u | None \<Rightarrow> False) then False
      else True)"

text \<open>
  The goroutine: for every notification it gets (none after a reconnection) it reads the event, in the
  tables and the environment of that moment, and puts it on the channel when it matches; a full channel
  makes it wait.
\<close>

definition notified_event :: "pg_env \<Rightarrow> notification \<Rightarrow> pg_tables \<Rightarrow> event option" where
  "notified_event env n t =
     (case pg_get_events env None (no_filter\<lparr>f_aggregate_id := Some (nt_aggregate_id n),
              f_from_seq := Some (nt_seq n), f_to_seq := Some (nt_seq n)\<rparr>) t of
        Inr (e # _) \<Rightarrow> Some e | _ \<Rightarrow> None)"

fun pg_deliver :: "event_filter \<Rightarrow> (pg_env \<times> pg_tables \<times> notification option) list \<Rightarrow> event list" where
  "pg_deliver f [] = []"
| "pg_deliver f ((env, t, None) # ns) = pg_deliver f ns"
| "pg_deliver f ((env, t, Some n) # ns) =
     (case notified_event env n t of
        None \<Rightarrow> pg_deliver f ns
      | Some e \<Rightarrow> if pg_matches_filter e f then e # pg_deliver f ns else pg_deliver f ns)"

lemma fault_error_None [simp]: "fault_error f = None \<longleftrightarrow> f = No_Fault"
  by (cases f) simp_all

section \<open>What the tables keep\<close>

definition rows_of :: "string \<Rightarrow> event list \<Rightarrow> event list" where
  "rows_of a rows = filter (\<lambda>e. ev_aggregate_id e = a) rows"

definition pg_stream :: "pg_tables \<Rightarrow> string \<Rightarrow> event list" where
  "pg_stream t a = rows_of a (pg_events t)"

definition pg_snap :: "pg_tables \<Rightarrow> string \<Rightarrow> snapshot option" where
  "pg_snap t a = find (\<lambda>sn. sn_aggregate_id sn = a) (pg_snapshots t)"

definition rows_ok :: "event list \<Rightarrow> bool" where
  "rows_ok rows \<longleftrightarrow> distinct (map ev_id rows) \<and> sorted_wrt (<) (map ev_seq rows) \<and>
     (\<forall>e \<in> set rows. 0 < ev_seq e \<and> too_long e = None) \<and>
     (\<forall>a. counts_from 0 (map ev_version (rows_of a rows)))"

definition pg_inv :: "pg_tables \<Rightarrow> bool" where
  "pg_inv t \<longleftrightarrow> rows_ok (pg_events t) \<and> distinct (map sn_aggregate_id (pg_snapshots t))"

lemma rows_of_simps [simp]:
  "rows_of a [] = []" "rows_of a (xs @ ys) = rows_of a xs @ rows_of a ys"
  "rows_of a (e # es) = (if ev_aggregate_id e = a then e # rows_of a es else rows_of a es)"
  by (simp_all add: rows_of_def)

lemma rows_of_all: "\<forall>e \<in> set es. ev_aggregate_id e = a \<Longrightarrow> rows_of b es = (if b = a then es else [])"
  by (auto simp: rows_of_def filter_empty_conv)

lemma pg_inv_create: "pg_inv pg_create_tables"
  by (simp add: pg_inv_def pg_create_tables_def rows_ok_def)

lemma max_or_zero_Max: "xs \<noteq> [] \<Longrightarrow> max_or_zero xs = Max (set xs)"
  by (cases xs) (simp, simp only: max_or_zero_def list.case Max.set_eq_fold)

lemma max_or_zero_bound: "x \<in> set xs \<Longrightarrow> x \<le> max_or_zero xs"
  by (cases "xs = []") (simp_all add: max_or_zero_Max)

lemma max_or_zero_counts: "counts_from 0 xs \<Longrightarrow> max_or_zero xs = int (length xs)"
proof (cases xs)
  case Nil
  then show ?thesis by (simp add: max_or_zero_def)
next
  case (Cons y ys)
  assume c: "counts_from 0 xs"
  have "max_or_zero xs \<in> set xs" using Max_in [of "set xs"] Cons by (simp add: max_or_zero_Max)
  then have "max_or_zero xs \<le> int (length xs)" using counts_from_bounds [OF c] by simp
  moreover have "last xs \<le> max_or_zero xs" by (rule max_or_zero_bound) (simp add: Cons)
  ultimately show ?thesis using counts_from_last [OF c] Cons by simp
qed

lemma max_version_length: "pg_inv t \<Longrightarrow> max_version a t = int (length (pg_stream t a))"
  using max_or_zero_counts [of "map ev_version (rows_of a (pg_events t))"]
  by (simp add: max_version_def pg_stream_def rows_of_def pg_inv_def rows_ok_def)

lemma stored_event_simps [simp]:
  "ev_id (stored_event env sq e) = ev_id e" "ev_seq (stored_event env sq e) = sq"
  "ev_aggregate_id (stored_event env sq e) = ev_aggregate_id e" "ev_type (stored_event env sq e) = ev_type e"
  "ev_version (stored_event env sq e) = ev_version e" "too_long (stored_event env sq e) = too_long e"
  "ev_data (stored_event env sq e) = pe_jsonb env (ev_data e)"
  "stored_event env sq (e\<lparr>ev_seq := n\<rparr>) = stored_event env sq e"
  by (simp_all add: stored_event_def too_long_def)

lemma numbered_simps [simp]:
  "ev_version (numbered now v e) = v" "ev_aggregate_id (numbered now v e) = ev_aggregate_id e"
  "ev_id (numbered now v e) = ev_id e" "ev_type (numbered now v e) = ev_type e"
  "ev_data (numbered now v e) = ev_data e" "same_content e (numbered now v e)"
  "too_long (numbered now v e) = too_long e"
  by (simp_all add: numbered_def same_content_def too_long_def)

lemma insert_event_ok:
  "insert_event env k e rows = Inr rows' \<longleftrightarrow>
     pe_fault env k = No_Fault \<and> event_violation rows e = None \<and>
     rows' = rows @ [stored_event env (max_or_zero (map ev_seq rows) + int (pe_skip env k) + 1) e]"
  by (cases "pe_fault env k") (auto simp: insert_event_def split: option.splits)

text \<open>An insert with the next version keeps the table in order.\<close>

lemma rows_ok_insert:
  assumes ok: "rows_ok rows" and ins: "insert_event env k e rows = Inr rows'"
    and v: "ev_version e = int (length (rows_of (ev_aggregate_id e) rows)) + 1"
  shows "rows_ok rows'"
proof -
  let ?sq = "max_or_zero (map ev_seq rows) + int (pe_skip env k) + 1"
  from ins have new: "too_long e = None" "ev_id e \<notin> ev_id ` set rows"
    and rows': "rows' = rows @ [stored_event env ?sq e]"
    by (auto simp: insert_event_ok event_violation_def split: if_splits)
  have up: "ev_seq r < ?sq" if "r \<in> set rows" for r
    using max_or_zero_bound [of "ev_seq r" "map ev_seq rows"] that by force
  have "0 < ?sq"
  proof (cases rows)
    case Nil
    then show ?thesis by (simp add: max_or_zero_def)
  next
    case (Cons r rs)
    with ok have "0 < ev_seq r" by (simp add: rows_ok_def)
    with up [of r] Cons show ?thesis by simp
  qed
  moreover have "counts_from 0 (map ev_version (rows_of a rows'))" for a
    using ok v by (simp add: rows_ok_def rows')
  ultimately show ?thesis
    using ok new up by (auto simp: rows_ok_def rows')
qed

text \<open>The loop: what it has inserted so far, and what it has made of the caller's events.\<close>

lemma insert_all_ok:
  assumes "insert_all env now cv i es rows = (r, rows', es1)"
    and "rows_ok rows" "\<forall>e \<in> set es. ev_aggregate_id e = a"
    and "int (length (rows_of a rows)) = cv + int i"
  shows "rows_ok rows' \<and> list_all2 same_content es es1 \<and>
    (r = None \<longrightarrow> (\<exists>new. rows' = rows @ new \<and> list_all2 (\<lambda>e n. n = stored_event env (ev_seq n) e) es1 new \<and>
       counts_from (cv + int i) (map ev_version new) \<and> (\<forall>n \<in> set new. ev_aggregate_id n = a)))"
  using assms
proof (induction es arbitrary: i rows r rows' es1)
  case Nil
  then show ?case by simp
next
  case (Cons e es)
  let ?e = "numbered (now i) (cv + int i + 1) e"
  show ?case
  proof (cases "insert_event env (3 + i) ?e rows")
    case (Inl x)
    with Cons.prems show ?thesis by (cases x) (auto simp: list_all2_refl)
  next
    case (Inr rows1)
    obtain es2 where rest: "insert_all env now cv (Suc i) es rows1 = (r, rows', es2)" and es1: "es1 = ?e # es2"
      using Cons.prems(1) Inr by (auto simp: Let_def split: prod.splits)
    have a: "ev_aggregate_id e = a" using Cons.prems(3) by simp
    have ok1: "rows_ok rows1" using rows_ok_insert [OF Cons.prems(2) Inr] Cons.prems(4) a by simp
    obtain sq where rows1: "rows1 = rows @ [stored_event env sq ?e]" using Inr by (auto simp: insert_event_ok)
    have "int (length (rows_of a rows1)) = cv + int (Suc i)" using Cons.prems(4) a rows1 by simp
    from Cons.IH [OF rest ok1 _ this] Cons.prems(3) have ih: "rows_ok rows'" "list_all2 same_content es es2"
      "r = None \<longrightarrow> (\<exists>new. rows' = rows1 @ new \<and> list_all2 (\<lambda>e n. n = stored_event env (ev_seq n) e) es2 new \<and>
         counts_from (cv + int (Suc i)) (map ev_version new) \<and> (\<forall>n \<in> set new. ev_aggregate_id n = a))"
      by simp_all
    have "\<exists>new. rows' = rows @ new \<and> list_all2 (\<lambda>e n. n = stored_event env (ev_seq n) e) es1 new \<and>
       counts_from (cv + int i) (map ev_version new) \<and> (\<forall>n \<in> set new. ev_aggregate_id n = a)" if "r = None"
    proof -
      from ih(3) that obtain new where new: "rows' = rows1 @ new"
        "list_all2 (\<lambda>e n. n = stored_event env (ev_seq n) e) es2 new"
        "counts_from (cv + int (Suc i)) (map ev_version new)" "\<forall>n \<in> set new. ev_aggregate_id n = a" by blast
      have "cv + (1 + int i) = cv + int i + 1" by simp
      with new a show ?thesis
        by (intro exI [of _ "stored_event env sq ?e # new"]) (simp add: rows1 es1)
    qed
    with ih(1,2) es1 show ?thesis by simp
  qed
qed

text \<open>An event that gets the next version can only be refused for its columns or its id.\<close>

lemma violation_next:
  assumes "rows_ok rows" "ev_version e = int (length (rows_of (ev_aggregate_id e) rows)) + 1"
  shows "event_violation rows e = None \<longleftrightarrow> too_long e = None \<and> ev_id e \<notin> ev_id ` set rows"
proof -
  have "ev_version r < ev_version e" if "r \<in> set rows" "ev_aggregate_id r = ev_aggregate_id e" for r
  proof -
    have "counts_from 0 (map ev_version (rows_of (ev_aggregate_id e) rows))" using assms(1) by (simp add: rows_ok_def)
    from counts_from_bounds [OF this, of "ev_version r"] that assms(2) show ?thesis by (simp add: rows_of_def)
  qed
  then have "(ev_aggregate_id e, ev_version e) \<notin> (\<lambda>r. (ev_aggregate_id r, ev_version r)) ` set rows"
    by fastforce
  then show ?thesis by (simp add: event_violation_def)
qed

text \<open>The statements from \<open>i\<close> on and before \<open>j\<close> get through, and so do their replies.\<close>

definition quiet :: "pg_env \<Rightarrow> nat \<Rightarrow> nat \<Rightarrow> bool" where
  "quiet env i j \<longleftrightarrow> list_all (\<lambda>k. pe_fault env k = No_Fault) [i..<j]"

lemma quiet_step: "i < j \<Longrightarrow> quiet env i j \<longleftrightarrow> pe_fault env i = No_Fault \<and> quiet env (Suc i) j"
  by (simp add: quiet_def upt_conv_Cons)

lemma quiet_empty [simp]: "quiet env i i"
  by (simp add: quiet_def)

lemma quiet_append: "i \<le> j \<Longrightarrow> quiet env i (j + n) \<longleftrightarrow> quiet env i j \<and> quiet env j (j + n)"
  by (simp add: quiet_def upt_add_eq_append [of i j n])

lemma insert_all_accepts:
  assumes "rows_ok rows" "\<forall>e \<in> set es. ev_aggregate_id e = a" "int (length (rows_of a rows)) = cv + int i"
  shows "fst (insert_all env now cv i es rows) = None \<longleftrightarrow>
    quiet env (3 + i) (3 + i + length es) \<and> (\<forall>e \<in> set es. too_long e = None) \<and>
    distinct (map ev_id (rows @ es))"
  using assms
proof (induction es arbitrary: i rows)
  case Nil
  then show ?case by (simp add: rows_ok_def)
next
  case (Cons e es)
  let ?e = "numbered (now i) (cv + int i + 1) e"
  have a: "ev_aggregate_id e = a" using Cons.prems(2) by simp
  have ok: "event_violation rows ?e = None \<longleftrightarrow> too_long e = None \<and> ev_id e \<notin> ev_id ` set rows"
    using violation_next [OF Cons.prems(1), of ?e] Cons.prems(3) a by simp
  have all: "quiet env (3 + i) (3 + i + length (e # es)) \<longleftrightarrow>
      pe_fault env (3 + i) = No_Fault \<and> quiet env (3 + Suc i) (3 + Suc i + length es)"
    by (simp add: quiet_step add.assoc)
  show ?case
  proof (cases "insert_event env (3 + i) ?e rows")
    case (Inl x)
    then have "\<not> (pe_fault env (3 + i) = No_Fault \<and> event_violation rows ?e = None)"
      by (auto simp: insert_event_def split: option.splits)
    with Inl ok show ?thesis unfolding all by (cases x) (auto simp: Let_def)
  next
    case (Inr rows1)
    then have q: "pe_fault env (3 + i) = No_Fault" "event_violation rows ?e = None"
      "\<exists>sq. rows1 = rows @ [stored_event env sq ?e]" by (auto simp: insert_event_ok)
    have "rows_ok rows1" using rows_ok_insert [OF Cons.prems(1) Inr] Cons.prems(3) a by simp
    moreover have "int (length (rows_of a rows1)) = cv + int (Suc i)" using q(3) Cons.prems(3) a by auto
    ultimately have ih: "fst (insert_all env now cv (Suc i) es rows1) = None \<longleftrightarrow>
        quiet env (3 + Suc i) (3 + Suc i + length es) \<and> (\<forall>e \<in> set es. too_long e = None) \<and>
        distinct (map ev_id (rows1 @ es))"
      using Cons.prems(2) by (intro Cons.IH) simp_all
    have step: "fst (insert_all env now cv i (e # es) rows) = fst (insert_all env now cv (Suc i) es rows1)"
      using Inr by (simp add: Let_def split: prod.split)
    have "map ev_id (rows1 @ es) = map ev_id (rows @ e # es)" using q(3) by auto
    with q(1,2) ok show ?thesis unfolding step ih all by (auto simp del: insert_all.simps)
  qed
qed

text \<open>The numbers read back are those of the new rows.\<close>

lemma set_sequence_new:
  assumes "list_all2 (\<lambda>e n. n = stored_event env (ev_seq n) e) es new" "distinct (map ev_id new)"
  shows "list_all2 (\<lambda>e n. n = stored_event env (ev_seq e) e) (map (set_sequence new) es) new"
    and "list_all2 same_content es (map (set_sequence new) es)"
proof -
  have one: "set_sequence new (es ! i) = (es ! i)\<lparr>ev_seq := ev_seq (new ! i)\<rparr>" if i: "i < length es" for i
  proof -
    have n: "i < length new" "new ! i = stored_event env (ev_seq (new ! i)) (es ! i)"
      using assms(1) i by (auto simp: list_all2_conv_all_nth)
    have "ev_id (new ! i) = ev_id (stored_event env (ev_seq (new ! i)) (es ! i))" using n(2) by simp
    then have eq: "ev_id (new ! i) = ev_id (es ! i)" by simp
    have "j = i" if "j < length new" "ev_id (new ! j) = ev_id (new ! i)" for j
      using that n(1) assms(2) by (simp add: distinct_conv_nth) metis
    then have first: "ev_id (new ! j) \<noteq> ev_id (es ! i)" if "j < i" for j
      using that n(1) eq by (metis less_trans nat_neq_iff)
    have "find (\<lambda>r. ev_id r = ev_id (es ! i)) new = Some (new ! i)"
      using n(1) eq first by (auto simp: find_Some_iff intro!: exI [of _ i])
    then show ?thesis by (simp add: set_sequence_def)
  qed
  have "new ! i = stored_event env (ev_seq (set_sequence new (es ! i))) (set_sequence new (es ! i))"
    if "i < length es" for i
    using that assms(1) by (simp add: one list_all2_conv_all_nth)
  then show "list_all2 (\<lambda>e n. n = stored_event env (ev_seq e) e) (map (set_sequence new) es) new"
    using assms(1) by (simp add: list_all2_conv_all_nth)
  show "list_all2 same_content es (map (set_sequence new) es)"
    by (simp add: list_all2_conv_all_nth one same_content_def)
qed

lemma same_content_trans: "same_content e f \<Longrightarrow> same_content f g \<Longrightarrow> same_content e g"
  by (cases e; cases f; cases g) (simp add: same_content_def)

section \<open>Appending a batch\<close>

text \<open>The query for the sequence numbers finds the new rows only.\<close>

lemma select_new_rows:
  assumes "\<And>n. n \<in> set new \<Longrightarrow> ev_aggregate_id n = a \<and> max_version a t < ev_version n"
  shows "filter (\<lambda>r. ev_aggregate_id r = a \<and> max_version a t < ev_version r) (pg_events t @ new) = new"
proof -
  have "ev_version e \<le> max_version a t" if "e \<in> set (pg_events t)" "ev_aggregate_id e = a" for e
    unfolding max_version_def by (rule max_or_zero_bound) (use that in auto)
  then have "filter (\<lambda>r. ev_aggregate_id r = a \<and> max_version a t < ev_version r) (pg_events t) = []"
    by (auto simp: filter_empty_conv not_less)
  then show ?thesis using assms by (simp add: filter_id_conv)
qed

text \<open>A transaction that does not get to its commit changes nothing.\<close>

lemma append_events_early:
  assumes ne: "es \<noteq> []"
    and a: "ev_aggregate_id (hd es) = a" "\<not> list_ex (\<lambda>e. ev_aggregate_id e \<noteq> a) es"
    and app: "pg_append_events env None now es t = (r, t', es')"
    and ins: "insert_all env now (max_version a t) 0 es (pg_events t) = (r1, rows1, es1)"
    and False: "\<not> (pe_fault env 0 = No_Fault \<and> pe_fault env 1 = No_Fault \<and> pe_locking_refused env = None \<and>
      pe_fault env 2 = No_Fault \<and> r1 = None \<and> pe_fault env (3 + length es) = No_Fault)"
  shows "r \<noteq> None \<and> t' = t \<and> (es' = es \<or> es' = es1)"
proof (cases "fault_error (pe_fault env 0)")
  case (Some x)
  then show ?thesis using app assms(1) by (auto simp: pg_append_events_def Let_def a)
next
  case f0: None
  show ?thesis
  proof (cases "locked_version env a t")
    case (Inl x)
    then show ?thesis using app assms(1) f0 by (auto simp: pg_append_events_def Let_def a)
  next
    case (Inr cv)
    then have l: "pe_fault env 1 = No_Fault" "pe_locking_refused env = None" "cv = max_version a t"
      by (auto simp: locked_version_def split: option.splits)
    show ?thesis
    proof (cases "fault_error (pe_fault env 2)")
      case (Some x)
      then show ?thesis using app assms(1) f0 Inr by (auto simp: pg_append_events_def Let_def a)
    next
      case f2: None
      show ?thesis
      proof (cases r1)
        case (Some x)
        then show ?thesis using app assms(1) f0 f2 Inr l ins by (auto simp: pg_append_events_def Let_def a)
      next
        case None
        with False f0 f2 l obtain x where "fault_error (pe_fault env (3 + length es)) = Some x"
          by (cases "pe_fault env (3 + length es)") auto
        with None show ?thesis using app assms(1) f0 f2 Inr l ins by (auto simp: pg_append_events_def Let_def a)
      qed
    qed
  qed
qed

definition batch_accepted :: "pg_env \<Rightarrow> event list \<Rightarrow> pg_tables \<Rightarrow> bool" where
  "batch_accepted env es t \<longleftrightarrow> pe_locking_refused env = None \<and> quiet env 0 (5 + length es) \<and>
     list_all (\<lambda>e. too_long e = None) es \<and> distinct (map ev_id (pg_events t @ es))"

definition batch_stored :: "pg_env \<Rightarrow> string \<Rightarrow> event list \<Rightarrow> pg_tables \<Rightarrow> pg_tables \<Rightarrow> bool" where
  "batch_stored env a es t t' \<longleftrightarrow>
     (\<exists>new. t' = t\<lparr>pg_events := pg_events t @ new\<rparr> \<and> pg_stream t' = (pg_stream t)(a := pg_stream t a @ new) \<and>
        counts_from (int (length (pg_stream t a))) (map ev_version new) \<and>
        list_all2 (\<lambda>e n. n = stored_event env (ev_seq e) e) es new)"

lemma pg_append_events_effect:
  assumes inv: "pg_inv t" and ne: "es \<noteq> []" and all: "\<forall>e \<in> set es. ev_aggregate_id e = a"
    and app: "pg_append_events env None now es t = (r, t', es')"
  shows "pg_inv t' \<and> list_all2 same_content es es' \<and>
    (if batch_accepted env es t then r = None \<and> batch_stored env a es' t t'
     else r \<noteq> None \<and> (t' = t \<or> (\<exists>x. pe_fault env (4 + length es) = Lost_Reply x) \<and> batch_stored env a es' t t'))"
proof -
  let ?cv = "max_version a t" and ?n = "length es"
  have a: "ev_aggregate_id (hd es) = a" "\<not> list_ex (\<lambda>e. ev_aggregate_id e \<noteq> a) es"
    using ne all by (auto simp: list_ex_iff)
  have rows: "rows_ok (pg_events t)" using inv by (simp add: pg_inv_def)
  have cv: "int (length (rows_of a (pg_events t))) = ?cv + int 0"
    using max_version_length [OF inv] by (simp add: pg_stream_def)
  obtain r1 rows1 es1 where ins: "insert_all env now ?cv 0 es (pg_events t) = (r1, rows1, es1)"
    using prod_cases3 by blast
  note ok = insert_all_ok [OF ins rows all cv] and acc = insert_all_accepts [OF rows all cv, of env now]
  let ?early = "pe_fault env 0 = No_Fault \<and> pe_fault env 1 = No_Fault \<and> pe_locking_refused env = None \<and>
    pe_fault env 2 = No_Fault \<and> r1 = None \<and> pe_fault env (3 + ?n) = No_Fault"
  have r1: "r1 = None \<longleftrightarrow> quiet env 3 (3 + ?n) \<and> (\<forall>e \<in> set es. too_long e = None) \<and>
      distinct (map ev_id (pg_events t @ es))"
    using acc ins by simp
  have quiet: "quiet env 0 (5 + ?n) \<longleftrightarrow> pe_fault env 0 = No_Fault \<and> pe_fault env 1 = No_Fault \<and>
      pe_fault env 2 = No_Fault \<and> quiet env 3 (3 + ?n) \<and>
      pe_fault env (3 + ?n) = No_Fault \<and> pe_fault env (4 + ?n) = No_Fault"
  proof -
    have "quiet env 0 ((3 + ?n) + 2) \<longleftrightarrow> quiet env 0 (3 + ?n) \<and> quiet env (3 + ?n) ((3 + ?n) + 2)"
      by (rule quiet_append) simp
    then show ?thesis
      using quiet_append [of 0 3 env ?n] by (simp add: quiet_step eval_nat_numeral)
  qed
  show ?thesis
  proof (cases ?early)
    case False
    with append_events_early [OF ne a app ins] have "r \<noteq> None \<and> t' = t \<and> (es' = es \<or> es' = es1)" by blast
    moreover have "\<not> batch_accepted env es t"
      using False quiet r1 by (auto simp: batch_accepted_def list_all_iff)
    ultimately show ?thesis using inv ok by (auto simp: list_all2_refl)
  next
    case True
    with ok obtain new where new: "rows1 = pg_events t @ new"
      "list_all2 (\<lambda>e n. n = stored_event env (ev_seq n) e) es1 new"
      "counts_from ?cv (map ev_version new)" "\<forall>n \<in> set new. ev_aggregate_id n = a"
      and rows1: "rows_ok rows1" and content: "list_all2 same_content es es1" by auto
    have "?cv < ev_version n" if "n \<in> set new" for n
      using counts_from_bounds [OF new(3)] that by simp
    with new(4) have sel: "filter (\<lambda>r. ev_aggregate_id r = a \<and> ?cv < ev_version r) rows1 = new"
      unfolding new(1) by (intro select_new_rows) auto
    have "distinct (map ev_id new)" using rows1 by (simp add: rows_ok_def new(1))
    note seqs = set_sequence_new [OF new(2) this]
    let ?es2 = "map (set_sequence new) es1" and ?t1 = "t\<lparr>pg_events := rows1\<rparr>"
    have res: "es' = ?es2" "(r, t') = commit_tx env (4 + ?n) t ?t1"
      using app True ne by (auto simp: pg_append_events_def locked_version_def Let_def a ins sel split: prod.splits)
    have "list_all2 same_content es es'"
      using list_all2_trans [OF same_content_trans content seqs(2)] by (simp add: res(1))
    moreover have "pg_inv ?t1" using inv rows1 by (simp add: pg_inv_def)
    moreover have "batch_stored env a es' t ?t1"
      unfolding batch_stored_def
      using new(1,3) seqs(1) max_version_length [OF inv, of a] rows_of_all [OF new(4)]
      by (intro exI [of _ new]) (auto simp: res(1) pg_stream_def fun_eq_iff)
    moreover have "batch_accepted env es t \<longleftrightarrow> pe_fault env (4 + ?n) = No_Fault"
      using True quiet r1 by (auto simp: batch_accepted_def list_all_iff)
    ultimately show ?thesis
      using res(2) inv by (cases "pe_fault env (4 + ?n)") (auto simp: commit_tx_def)
  qed
qed

lemma quiet_numeral [simp]:
  "quiet env 0 5 \<longleftrightarrow> pe_fault env 0 = No_Fault \<and> pe_fault env 1 = No_Fault \<and> pe_fault env 2 = No_Fault \<and>
     pe_fault env 3 = No_Fault \<and> pe_fault env 4 = No_Fault"
  by (simp add: quiet_step eval_nat_numeral)

section \<open>Appending one event\<close>

definition event_accepted :: "pg_config \<Rightarrow> pg_env \<Rightarrow> event \<Rightarrow> pg_tables \<Rightarrow> bool" where
  "event_accepted cfg env e t \<longleftrightarrow>
     ev_aggregate_id e \<noteq> '''' \<and> ev_aggregate_type e \<noteq> '''' \<and> ev_type e \<noteq> '''' \<and>
     (pc_optimistic_locking cfg \<longrightarrow> versions_fit (int (length (pg_stream t (ev_aggregate_id e)))) [e]) \<and>
     pe_locking_refused env = None \<and> quiet env 0 5 \<and> too_long e = None \<and>
     ev_id e \<notin> ev_id ` set (pg_events t)"

lemma pg_append_event_exact:
  assumes inv: "pg_inv t" and app: "pg_append_event cfg env None now e t = (r, t', e')"
  shows "pg_inv t' \<and> same_content e e' \<and>
    (if event_accepted cfg env e t then r = None \<and> batch_stored env (ev_aggregate_id e) [e'] t t'
     else r \<noteq> None \<and> (t' = t \<or> (\<exists>x. pe_fault env 4 = Lost_Reply x) \<and>
       batch_stored env (ev_aggregate_id e) [e'] t t'))"
proof -
  let ?a = "ev_aggregate_id e"
  let ?cv = "max_version ?a t"
  let ?e1 = "numbered now (?cv + 1) e"
  let ?early = "?a \<noteq> '''' \<and> ev_aggregate_type e \<noteq> '''' \<and> ev_type e \<noteq> '''' \<and> pe_fault env 0 = No_Fault \<and>
    pe_fault env 1 = No_Fault \<and> pe_locking_refused env = None \<and>
    \<not> (pc_optimistic_locking cfg \<and> ev_version e > 0 \<and> ev_version e \<noteq> ?cv + 1)"
  have cv: "int (length (pg_stream t ?a)) = ?cv" using max_version_length [OF inv] by simp
  have rows: "rows_ok (pg_events t)" and v: "ev_version ?e1 = int (length (rows_of ?a (pg_events t))) + 1"
    using inv cv by (simp_all add: pg_inv_def pg_stream_def)
  show ?thesis
  proof (cases ?early)
    case False
    then have "r \<noteq> None \<and> t' = t \<and> e' = e"
      using app by (auto simp: pg_append_event_def locked_version_def split: option.splits if_splits)
    moreover have "\<not> event_accepted cfg env e t"
      using False cv by (auto simp: event_accepted_def)
    ultimately show ?thesis using inv by simp
  next
    case early: True
    show ?thesis
    proof (cases "insert_event env 2 ?e1 (pg_events t)")
      case (Inl cx)
      with early app have "r \<noteq> None \<and> t' = t \<and> e' = ?e1"
        by (cases cx) (auto simp: pg_append_event_def locked_version_def Let_def)
      moreover have "\<not> event_accepted cfg env e t"
        using Inl violation_next [OF rows, of ?e1] v
        by (auto simp: event_accepted_def insert_event_def split: option.splits)
      ultimately show ?thesis using inv by simp
    next
      case (Inr rows1)
      then obtain sq where r1: "rows1 = pg_events t @ [stored_event env sq ?e1]" "pe_fault env 2 = No_Fault"
        "event_violation (pg_events t) ?e1 = None"
        by (auto simp: insert_event_ok)
      have ok1: "rows_ok rows1" using rows_ok_insert [OF rows Inr] v by simp
      let ?e2 = "?e1\<lparr>ev_seq := sq\<rparr>" and ?t1 = "t\<lparr>pg_events := rows1\<rparr>"
      have acc: "event_accepted cfg env e t \<longleftrightarrow> pe_fault env 3 = No_Fault \<and> pe_fault env 4 = No_Fault"
        using early r1 violation_next [OF rows, of ?e1] v cv by (auto simp: event_accepted_def)
      show ?thesis
      proof (cases "pe_fault env 3 = No_Fault")
        case False
        then have "r \<noteq> None \<and> t' = t \<and> e' = ?e1"
          using early Inr app by (cases "pe_fault env 3") (auto simp: pg_append_event_def locked_version_def Let_def)
        with acc False inv show ?thesis by simp
      next
        case True
        have res: "(r, t') = commit_tx env 4 t ?t1" "e' = ?e2"
          using early Inr True app r1(1)
          by (auto simp: pg_append_event_def locked_version_def Let_def split: prod.splits)
        have "batch_stored env ?a [?e2] t ?t1"
          unfolding batch_stored_def
          using cv r1(1) by (intro exI [of _ "[stored_event env sq ?e1]"]) (auto simp: pg_stream_def fun_eq_iff)
        moreover have "pg_inv ?t1" using inv ok1 by (simp add: pg_inv_def)
        moreover have "same_content e ?e2" by (simp add: same_content_def numbered_def)
        ultimately show ?thesis
          using res acc True inv by (cases "pe_fault env 4") (auto simp: commit_tx_def)
      qed
    qed
  qed
qed

section \<open>Reading finds the stream\<close>

definition pg_ops :: "pg_env \<Rightarrow> pg_tables event_store_ops" where
  "pg_ops env = \<lparr>es_append_events = pg_append_events env, es_get_events = pg_get_events env,
     es_get_by_aggregate = pg_get_by_aggregate env, es_aggregate_version = pg_aggregate_version env,
     es_create_snapshot = pg_create_snapshot env, es_get_snapshot = pg_get_snapshot env\<rparr>"

lemma pg_ops_simps [simp]:
  "es_append_events (pg_ops env) = pg_append_events env"
  "es_get_events (pg_ops env) = pg_get_events env"
  "es_get_by_aggregate (pg_ops env) = pg_get_by_aggregate env"
  "es_aggregate_version (pg_ops env) = pg_aggregate_version env"
  "es_create_snapshot (pg_ops env) = pg_create_snapshot env"
  "es_get_snapshot (pg_ops env) = pg_get_snapshot env"
  by (simp_all add: pg_ops_def)

text \<open>An environment in which no message is lost.\<close>

definition calm :: "pg_env \<Rightarrow> pg_env" where
  "calm env = env\<lparr>pe_fault := \<lambda>_. No_Fault\<rparr>"

lemma calm_simps [simp]:
  "pe_fault (calm env) k = No_Fault" "pe_locking_refused (calm env) = pe_locking_refused env"
  "row_matches (calm env) = row_matches env" "quiet (calm env) i j"
  "stored_event (calm env) = stored_event env" "pe_violation (calm env) = pe_violation env"
proof -
  have [simp]: "pe_micro (calm env) = pe_micro env" "pe_jsonb (calm env) = pe_jsonb env" by (simp_all add: calm_def)
  show "row_matches (calm env) = row_matches env"
    by (simp add: row_matches_def fun_eq_iff cong: option.case_cong)
  show "stored_event (calm env) = stored_event env" by (simp add: stored_event_def fun_eq_iff)
qed (simp_all add: calm_def quiet_def list_all_iff)

text \<open>The rows are in the order of their sequence numbers already.\<close>

lemma sort_rows: "rows_ok rows \<Longrightarrow> sort_key ev_seq (filter P rows) = filter P rows"
proof -
  assume "rows_ok rows"
  then have "sorted_wrt (\<lambda>e f. ev_seq e < ev_seq f) rows" by (simp add: rows_ok_def sorted_wrt_map)
  then have "sorted_wrt (\<lambda>e f. ev_seq e < ev_seq f) (filter P rows)" by (rule sorted_wrt_filter)
  then have "sorted (map ev_seq (filter P rows))"
    unfolding sorted_map by (rule sorted_wrt_mono_rel [rotated]) simp
  then show ?thesis by (rule sort_key_id_if_sorted)
qed

lemma limit_offset_none [simp]: "limit_offset None None xs = Inr xs"
  by (simp add: limit_offset_def)

lemma pg_get_events_plain:
  "pg_inv t \<Longrightarrow> pe_fault env 0 = No_Fault \<Longrightarrow> pe_fault env 1 = No_Fault \<Longrightarrow> f_limit f = None \<Longrightarrow> f_offset f = None \<Longrightarrow>
     pg_get_events env None f t = Inr (filter (row_matches env f) (pg_events t))"
  by (simp add: pg_get_events_def pg_inv_def sort_rows)

lemma row_matches_versions:
  "row_matches env (no_filter\<lparr>f_aggregate_id := Some a, f_from_version := Some v\<rparr>) =
     (\<lambda>e. ev_aggregate_id e = a \<and> v \<le> ev_version e)"
  "row_matches env (no_filter\<lparr>f_aggregate_id := Some a, f_from_version := Some v, f_to_version := Some w\<rparr>) =
     (\<lambda>e. ev_aggregate_id e = a \<and> v \<le> ev_version e \<and> ev_version e \<le> w)"
  by (auto simp: row_matches_def no_filter_def fun_eq_iff)

lemma no_filter_simps [simp]:
  "f_limit no_filter = None" "f_offset no_filter = None"
  by (simp_all add: no_filter_def)

interpretation pg: event_log "pg_ops (calm env)" pg_inv pg_stream pg_snap for env
proof
  fix t a
  assume inv: "pg_inv t"
  then show "counts_from 0 (map ev_version (pg_stream t a))"
    by (simp add: pg_inv_def rows_ok_def pg_stream_def)
  show "ev_aggregate_id e = a" if "e \<in> set (pg_stream t a)" for e
    using that by (simp add: pg_stream_def rows_of_def)
  show "es_get_by_aggregate (pg_ops (calm env)) None a v t = Inr (filter (\<lambda>e. v \<le> ev_version e) (pg_stream t a))" for v
    using inv by (simp add: pg_get_by_aggregate_def pg_get_events_plain row_matches_versions pg_stream_def rows_of_def)
  show "es_get_events (pg_ops (calm env)) None
        (no_filter\<lparr>f_aggregate_id := Some a, f_from_version := Some v, f_to_version := Some w\<rparr>) t =
      Inr (filter (\<lambda>e. v \<le> ev_version e \<and> ev_version e \<le> w) (pg_stream t a))" for v w
    using inv by (simp add: pg_get_events_plain row_matches_versions pg_stream_def rows_of_def)
  show "es_aggregate_version (pg_ops (calm env)) None a t = Inr (int (length (pg_stream t a)))"
    using inv by (simp add: pg_aggregate_version_def max_version_length)
  show "es_get_snapshot (pg_ops (calm env)) None a t = Inr (pg_snap t a)"
    by (simp add: pg_get_snapshot_def pg_snap_def)
qed

section \<open>Snapshots\<close>

lemma find_upsert:
  assumes "distinct (map sn_aggregate_id rows)"
  shows "find (\<lambda>s. sn_aggregate_id s = a) (upsert_snapshot sn rows) =
      (if a = sn_aggregate_id sn then Some sn else find (\<lambda>s. sn_aggregate_id s = a) rows)"
    and "distinct (map sn_aggregate_id (upsert_snapshot sn rows))"
proof -
  have ids: "map sn_aggregate_id (map (\<lambda>r. if sn_aggregate_id r = sn_aggregate_id sn then sn else r) rows) =
      map sn_aggregate_id rows"
    by (induction rows) auto
  have "find (\<lambda>s. sn_aggregate_id s = a) (map (\<lambda>r. if sn_aggregate_id r = sn_aggregate_id sn then sn else r) rows) =
      (if a = sn_aggregate_id sn \<and> a \<in> sn_aggregate_id ` set rows then Some sn
       else find (\<lambda>s. sn_aggregate_id s = a) rows)"
    by (induction rows) auto
  moreover have "find (\<lambda>s. sn_aggregate_id s = a) (rows @ [sn]) =
      (case find (\<lambda>s. sn_aggregate_id s = a) rows of Some x \<Rightarrow> Some x
       | None \<Rightarrow> if sn_aggregate_id sn = a then Some sn else None)"
    by (induction rows) auto
  moreover have "find (\<lambda>s. sn_aggregate_id s = a) rows = None \<longleftrightarrow> a \<notin> sn_aggregate_id ` set rows"
    by (auto simp: find_None_iff)
  ultimately show "find (\<lambda>s. sn_aggregate_id s = a) (upsert_snapshot sn rows) =
      (if a = sn_aggregate_id sn then Some sn else find (\<lambda>s. sn_aggregate_id s = a) rows)"
    by (cases "a = sn_aggregate_id sn") (auto simp: upsert_snapshot_def split: option.split)
  show "distinct (map sn_aggregate_id (upsert_snapshot sn rows))"
    using assms ids by (auto simp: upsert_snapshot_def simp del: map_map)
qed

text \<open>A snapshot replaces the older one of its aggregate and touches nothing else.\<close>

lemma pg_create_snapshot_effect:
  assumes "pg_inv t" "pg_create_snapshot env ctx now a ty v d t = (r, t')"
  shows "pg_inv t' \<and> pg_events t' = pg_events t \<and>
    (pg_snap t' = (pg_snap t)(a \<mapsto> \<lparr>sn_aggregate_id = a, sn_aggregate_type = ty, sn_version = v,
       sn_data = pe_jsonb env d, sn_created_at = now\<rparr>) \<or> r \<noteq> None \<and> t' = t)"
proof -
  let ?sn = "\<lparr>sn_aggregate_id = a, sn_aggregate_type = ty, sn_version = v, sn_data = pe_jsonb env d,
    sn_created_at = now\<rparr>"
  let ?t = "t\<lparr>pg_snapshots := upsert_snapshot ?sn (pg_snapshots t)\<rparr>"
  have "distinct (map sn_aggregate_id (pg_snapshots t))" using assms(1) by (simp add: pg_inv_def)
  note up = find_upsert [OF this, where sn = ?sn]
  have "pg_inv ?t" using assms(1) up(2) by (simp add: pg_inv_def)
  moreover have "pg_snap ?t = (pg_snap t)(a \<mapsto> ?sn)" by (auto simp: pg_snap_def up(1))
  moreover have "t' = t \<and> r \<noteq> None \<or> t' = ?t"
    using assms(2)
    by (cases "pe_fault env 0") (auto simp: pg_create_snapshot_def Let_def split: option.splits if_splits)
  ultimately show ?thesis using assms(1) by auto
qed

section \<open>All that connections can do\<close>

inductive pg_step :: "pg_config \<Rightarrow> pg_tables \<Rightarrow> pg_tables \<Rightarrow> bool" for cfg where
  one: "pg_append_event cfg env ctx now e t = (r, t', e') \<Longrightarrow> pg_step cfg t t'"
| batch: "pg_append_events env ctx clock es t = (r, t', es') \<Longrightarrow> pg_step cfg t t'"
| snapshot: "pg_create_snapshot env ctx now a ty v d t = (r, t') \<Longrightarrow> pg_step cfg t t'"

lemma batch_stored_extends: "batch_stored env a es t t' \<Longrightarrow> \<exists>new. pg_events t' = pg_events t @ new"
  by (auto simp: batch_stored_def)

lemma pg_append_event_frame:
  assumes "pg_inv t" "pg_append_event cfg env ctx now e t = (r, t', e')"
  shows "pg_inv t' \<and> (\<exists>new. pg_events t' = pg_events t @ new)"
proof (cases ctx)
  case None
  from pg_append_event_exact [OF assms(1) assms(2) [unfolded None]] show ?thesis
    by (auto split: if_splits dest: batch_stored_extends)
next
  case (Some x)
  with assms show ?thesis by (auto simp: pg_append_event_def)
qed

lemma pg_append_events_frame:
  assumes "pg_inv t" "pg_append_events env ctx now es t = (r, t', es')"
  shows "pg_inv t' \<and> (\<exists>new. pg_events t' = pg_events t @ new)"
proof (cases "ctx = None \<and> es \<noteq> [] \<and> (\<forall>e \<in> set es. ev_aggregate_id e = ev_aggregate_id (hd es))")
  case True
  with assms(2) have app: "pg_append_events env None now es t = (r, t', es')" by simp
  from True have "es \<noteq> []" "\<forall>e \<in> set es. ev_aggregate_id e = ev_aggregate_id (hd es)" by blast+
  from pg_append_events_effect [OF assms(1) this app] show ?thesis
    by (auto split: if_splits dest: batch_stored_extends)
next
  case False
  then consider "ctx \<noteq> None" | "ctx = None" "es = []"
    | "ctx = None" "es \<noteq> []" "list_ex (\<lambda>e. ev_aggregate_id e \<noteq> ev_aggregate_id (hd es)) es"
    by (auto simp: list_ex_iff)
  then have "t' = t"
  proof cases
    case 1
    with assms(2) show ?thesis by (auto simp: pg_append_events_def)
  next
    case 2
    with assms(2) show ?thesis by (simp add: pg_append_events_def)
  next
    case 3
    with assms(2) show ?thesis by (simp add: pg_append_events_def)
  qed
  with assms(1) show ?thesis by simp
qed

lemma pg_step_keeps:
  assumes "pg_step cfg t t'" "pg_inv t"
  shows "pg_inv t' \<and> (\<exists>new. pg_events t' = pg_events t @ new)"
  using assms(1)
proof (cases rule: pg_step.cases)
  case one
  then show ?thesis using pg_append_event_frame [OF assms(2)] by blast
next
  case batch
  then show ?thesis using pg_append_events_frame [OF assms(2)] by blast
next
  case snapshot
  then show ?thesis using pg_create_snapshot_effect [OF assms(2)] by force
qed

lemma pg_steps_keep:
  assumes "(pg_step cfg)\<^sup>*\<^sup>* t t'" "pg_inv t"
  shows "pg_inv t' \<and> (\<exists>new. pg_events t' = pg_events t @ new)"
  using assms
proof (induction rule: rtranclp_induct)
  case base
  then show ?case by simp
next
  case (step u v)
  with pg_step_keeps [OF step.hyps(2)] show ?case by fastforce
qed

section \<open>Properties\<close>

lemma batch_stored_read:
  assumes "pg_inv t" "pg_inv t'" "batch_stored env a es t t'"
  shows "pg_get_by_aggregate (calm env) None a (int (length (pg_stream t a)) + 1) t' =
    Inr (map (\<lambda>e. stored_event env (ev_seq e) e) es)"
proof -
  from assms(3) obtain new where "pg_stream t' a = pg_stream t a @ new"
    "list_all2 (\<lambda>e n. n = stored_event env (ev_seq e) e) es new" by (auto simp: batch_stored_def)
  moreover from this(2) have "new = map (\<lambda>e. stored_event env (ev_seq e) e) es"
    by (induction rule: list_all2_induct) simp_all
  ultimately show ?thesis
    using pg.read_from [OF assms(2), of env a "int (length (pg_stream t a)) + 1"] by simp
qed

text \<open>C4: what \<open>AppendEvents\<close> of the PostgreSQL store does, for every answer of the server.  A batch of
  one aggregate is accepted just when the server takes the locking query, no message is lost, every
  column fits and the ids are new; then the stream of the aggregate, and no other, grows by the events
  as they come back to the caller, numbered on from the current version, and a reader who asks for the
  versions from there on gets them.  The versions the caller expects play no part, and the optimistic
  locking of the configuration is not asked.  A batch that fails leaves the tables as they were, unless
  only the reply to the commit was lost.\<close>

theorem pg_append_events_exact:
  assumes inv: "pg_inv t" and ne: "es \<noteq> []" and all: "\<forall>e \<in> set es. ev_aggregate_id e = a"
    and app: "pg_append_events env None now es t = (r, t', es')"
  shows "list_all2 same_content es es' \<and>
    (if batch_accepted env es t
     then r = None \<and> batch_stored env a es' t t' \<and>
       pg_get_by_aggregate (calm env) None a (int (length (pg_stream t a)) + 1) t' =
         Inr (map (\<lambda>e. stored_event env (ev_seq e) e) es')
     else r \<noteq> None \<and> (t' = t \<or> (\<exists>x. pe_fault env (4 + length es) = Lost_Reply x) \<and> batch_stored env a es' t t'))"
  using pg_append_events_effect [OF assms] batch_stored_read [OF inv, of t' env a es'] by (auto split: if_splits)

definition example_pg_env :: pg_env where
  "example_pg_env = \<lparr>pe_fault = \<lambda>_. No_Fault, pe_locking_refused = None, pe_skip = \<lambda>_. 0,
     pe_violation = id, pe_jsonb = id, pe_micro = id\<rparr>"

lemma example_pg_env_simps [simp]:
  "pe_fault example_pg_env k = No_Fault" "pe_locking_refused example_pg_env = None"
  "pe_skip example_pg_env k = 0" "pe_jsonb example_pg_env = id" "pe_micro example_pg_env = id"
  "calm example_pg_env = example_pg_env" "quiet example_pg_env i j"
  by (simp_all add: example_pg_env_def calm_def quiet_def list_all_iff)

lemma pg_append_events_exact_witness:
  "\<exists>r t' es'. pg_append_events example_pg_env None (\<lambda>_. 7) [example_event ''w'' 9] pg_create_tables = (r, t', es') \<and>
     r = None \<and> pg_get_by_aggregate example_pg_env None ''w'' 1 t' =
       Inr (map (\<lambda>e. stored_event example_pg_env (ev_seq e) e) es')"
proof -
  obtain r t' es' where app: "pg_append_events example_pg_env None (\<lambda>_. 7) [example_event ''w'' 9] pg_create_tables = (r, t', es')"
    using prod_cases3 by blast
  moreover have "batch_accepted example_pg_env [example_event ''w'' 9] pg_create_tables"
    by (simp add: batch_accepted_def pg_create_tables_def example_event_def too_long_def)
  moreover have "pg_stream pg_create_tables ''w'' = []" by (simp add: pg_stream_def pg_create_tables_def)
  moreover have "\<forall>e \<in> set [example_event ''w'' 9]. ev_aggregate_id e = ''w''" by (simp add: example_event_def)
  ultimately show ?thesis using pg_append_events_exact [OF pg_inv_create _ _ app, of "''w''"] by auto
qed



section \<open>The two stores answer alike\<close>

lemma row_matches_memory:
  "row_matches env f = (\<lambda>e. matches_filter e (f\<lparr>f_from_seq := map_option (\<lambda>n. n - 1) (f_from_seq f),
     f_from_time := map_option (pe_micro env) (f_from_time f), f_to_time := map_option (pe_micro env) (f_to_time f)\<rparr>))"
  by (rule ext) (simp add: row_matches_def matches_filter_def split: option.split)

lemma limit_offset_page:
  assumes "\<forall>n. limit = Some n \<longrightarrow> 0 < n" "\<forall>n. offset = Some n \<longrightarrow> 0 \<le> n"
  shows "limit_offset limit offset xs = Inr (page offset limit xs)"
  using assms by (cases limit; cases offset) (auto simp: limit_offset_def page_def Let_def nat_le_iff not_le)



section \<open>Notifications\<close>

lemma notified_row:
  assumes "pg_inv t" "r \<in> set (pg_events t)"
  shows "notified_event (calm env) (notification_of r) t = Some r"
proof -
  let ?f = "no_filter\<lparr>f_aggregate_id := Some (ev_aggregate_id r), f_from_seq := Some (ev_seq r),
    f_to_seq := Some (ev_seq r)\<rparr>"
  have m: "row_matches env ?f e \<longleftrightarrow> ev_aggregate_id e = ev_aggregate_id r \<and> ev_seq e = ev_seq r" for e
    by (auto simp: row_matches_def no_filter_def)
  have "sorted_wrt (<) (map ev_seq (pg_events t))" using assms(1) by (simp add: pg_inv_def rows_ok_def)
  then have inj: "e = r" if "e \<in> set (pg_events t)" "ev_seq e = ev_seq r" for e
    using that assms(2) strict_sorted_iff [of "map ev_seq (pg_events t)"] by (auto simp: distinct_map dest: inj_onD)
  obtain e es where es: "filter (row_matches env ?f) (pg_events t) = e # es"
    using assms(2) m by (cases "filter (row_matches env ?f) (pg_events t)") (auto simp: filter_empty_conv)
  then have "e \<in> set (filter (row_matches env ?f) (pg_events t))" by simp
  then have "e = r" using inj m by simp
  with es pg_get_events_plain [OF assms(1), of "calm env" ?f] show ?thesis
    by (simp add: notified_event_def notification_of_def)
qed

text \<open>
  A subscriber that gets the notification of every row it is told of, each read in tables that hold
  the row, receives exactly the matching rows, once each and in the order of the notifications.
\<close>

lemma pg_deliver_exact:
  assumes "list_all2 (\<lambda>r (env', t, n). \<exists>env. env' = calm env \<and> pg_inv t \<and> r \<in> set (pg_events t) \<and>
      n = Some (notification_of r)) rows ns"
  shows "pg_deliver f ns = filter (\<lambda>r. pg_matches_filter r f) rows"
  using assms
proof (induction rule: list_all2_induct)
  case Nil
  then show ?case by simp
next
  case (Cons r rs n ns)
  then show ?case using notified_row by (cases n) auto
qed

end
