(* ===== verification/Aggregates.thy ===== *)
theory Aggregates
  imports Event_Model
begin

text \<open>
  The aggregates of \<open>pkg/eventstore/aggregates.go\<close> (payment and wallet) and what they share
  (\<open>BaseAggregate\<close> in \<open>aggregate.go\<close>): command methods that check, build an event, queue it
  and apply it; \<open>ApplyEvent\<close>; snapshots.

  A command gets the clock readings and identifiers it uses in a record \<open>op_env\<close>: the time put
  into the event data, the correlation id, and the arguments of \<open>new_event\<close>.
\<close>

record base_aggregate =
  agg_id :: string
  agg_type :: string
  agg_version :: int
  agg_uncommitted :: "event list"

record op_env =
  oe_at :: time
  oe_correlation :: uuid
  oe_event_id :: uuid
  oe_t1 :: time
  oe_t2 :: time

text \<open>\<open>AddUncommittedEvent\<close> writes the version into the caller's event, which is returned too.\<close>

definition add_uncommitted_event ::
  "event \<Rightarrow> 'b base_aggregate_scheme \<Rightarrow> event \<times> 'b base_aggregate_scheme" where
  "add_uncommitted_event e b =
     (let e' = e\<lparr>ev_version := agg_version b + 1\<rparr>
      in (e', b\<lparr>agg_uncommitted := agg_uncommitted b @ [e'], agg_version := agg_version b + 1\<rparr>))"

definition mark_events_as_committed :: "'b base_aggregate_scheme \<Rightarrow> 'b base_aggregate_scheme" where
  "mark_events_as_committed b = b\<lparr>agg_uncommitted := []\<rparr>"

section \<open>The wallet\<close>

record wallet_aggregate = base_aggregate +
  wa_user_id :: string
  wa_currency :: string
  wa_balance :: float64
  wa_created_at :: time
  wa_updated_at :: time

text \<open>The data of \<open>BalanceAdded\<close> and \<open>BalanceDeducted\<close>: they differ in the key of the time.\<close>

record balance_data =
  bd_wallet_id :: string
  bd_user_id :: string
  bd_amount :: float64
  bd_currency :: string
  bd_description :: string
  bd_previous_balance :: float64
  bd_new_balance :: float64
  bd_at :: time

definition encode_balance_data :: "string \<Rightarrow> balance_data \<Rightarrow> json go_result" where
  "encode_balance_data at_key d = j_struct
     [(''wallet_id'', j_str (bd_wallet_id d)), (''user_id'', j_str (bd_user_id d)),
      (''amount'', j_float (bd_amount d)), (''currency'', j_str (bd_currency d)),
      (''description'', j_str (bd_description d)),
      (''previous_balance'', j_float (bd_previous_balance d)),
      (''new_balance'', j_float (bd_new_balance d)), (at_key, j_time (bd_at d))]"

definition decode_balance_data :: "string \<Rightarrow> json \<Rightarrow> balance_data go_result" where
  "decode_balance_data at_key j =
     rbind (d_struct j) (\<lambda>kvs.
     rbind (d_str (j_field kvs ''wallet_id'')) (\<lambda>wallet_id.
     rbind (d_str (j_field kvs ''user_id'')) (\<lambda>user_id.
     rbind (d_float (j_field kvs ''amount'')) (\<lambda>amount.
     rbind (d_str (j_field kvs ''currency'')) (\<lambda>currency.
     rbind (d_str (j_field kvs ''description'')) (\<lambda>description.
     rbind (d_float (j_field kvs ''previous_balance'')) (\<lambda>previous_balance.
     rbind (d_float (j_field kvs ''new_balance'')) (\<lambda>new_balance.
     rbind (d_time (j_field kvs at_key)) (\<lambda>at_time.
     Inr \<lparr>bd_wallet_id = wallet_id, bd_user_id = user_id, bd_amount = amount,
          bd_currency = currency, bd_description = description,
          bd_previous_balance = previous_balance, bd_new_balance = new_balance, bd_at = at_time\<rparr>)))))))))"

definition new_wallet_aggregate :: "string \<Rightarrow> string \<Rightarrow> string \<Rightarrow> time \<Rightarrow> time \<Rightarrow> wallet_aggregate" where
  "new_wallet_aggregate i user_id currency t1 t2 = \<lparr>agg_id = i, agg_type = ''wallet'',
     agg_version = 0, agg_uncommitted = [], wa_user_id = user_id, wa_currency = currency,
     wa_balance = f0, wa_created_at = t1, wa_updated_at = t2\<rparr>"

definition wallet_apply_event :: "event \<Rightarrow> wallet_aggregate \<Rightarrow> go_error option \<times> wallet_aggregate" where
  "wallet_apply_event e w =
     (if ev_type e = ''BalanceAdded'' then
        (case decode_balance_data ''added_at'' (ev_data e) of
           Inl x \<Rightarrow> (Some x, w)
         | Inr d \<Rightarrow> (None, w\<lparr>wa_balance := bd_new_balance d, wa_updated_at := bd_at d,
                           agg_version := agg_version w + 1\<rparr>))
      else if ev_type e = ''BalanceDeducted'' then
        (case decode_balance_data ''deducted_at'' (ev_data e) of
           Inl x \<Rightarrow> (Some x, w)
         | Inr d \<Rightarrow> (None, w\<lparr>wa_balance := bd_new_balance d, wa_updated_at := bd_at d,
                           agg_version := agg_version w + 1\<rparr>))
      else (None, w\<lparr>agg_version := agg_version w + 1\<rparr>))"

definition add_balance ::
  "op_env \<Rightarrow> float64 \<Rightarrow> string \<Rightarrow> wallet_aggregate \<Rightarrow> go_error option \<times> wallet_aggregate" where
  "add_balance env amount description w =
     (if fle amount f0 then (Some ''amount must be positive'', w)
      else
        let event_data = \<lparr>bd_wallet_id = agg_id w, bd_user_id = wa_user_id w, bd_amount = amount,
              bd_currency = wa_currency w, bd_description = description,
              bd_previous_balance = wa_balance w, bd_new_balance = fadd (wa_balance w) amount,
              bd_at = oe_at env\<rparr>
        in case new_event (agg_id w) ''wallet'' ''BalanceAdded''
                  (encode_balance_data ''added_at'' event_data) (wa_user_id w) (oe_correlation env)
                  (oe_event_id env) (oe_t1 env) (oe_t2 env) of
             Inl x \<Rightarrow> (Some (''failed to create BalanceAdded event: '' @ x), w)
           | Inr e \<Rightarrow> (case add_uncommitted_event e w of (e', w') \<Rightarrow> wallet_apply_event e' w'))"

definition deduct_balance ::
  "op_env \<Rightarrow> float64 \<Rightarrow> string \<Rightarrow> wallet_aggregate \<Rightarrow> go_error option \<times> wallet_aggregate" where
  "deduct_balance env amount description w =
     (if fle amount f0 then (Some ''amount must be positive'', w)
      else if flt (wa_balance w) amount
      then (Some (''insufficient balance: current='' @ show_f2 (wa_balance w) @ '', required='' @
              show_f2 amount), w)
      else
        let event_data = \<lparr>bd_wallet_id = agg_id w, bd_user_id = wa_user_id w, bd_amount = amount,
              bd_currency = wa_currency w, bd_description = description,
              bd_previous_balance = wa_balance w, bd_new_balance = fsub (wa_balance w) amount,
              bd_at = oe_at env\<rparr>
        in case new_event (agg_id w) ''wallet'' ''BalanceDeducted''
                  (encode_balance_data ''deducted_at'' event_data) (wa_user_id w) (oe_correlation env)
                  (oe_event_id env) (oe_t1 env) (oe_t2 env) of
             Inl x \<Rightarrow> (Some (''failed to create BalanceDeducted event: '' @ x), w)
           | Inr e \<Rightarrow> (case add_uncommitted_event e w of (e', w') \<Rightarrow> wallet_apply_event e' w'))"

definition wallet_create_snapshot :: "wallet_aggregate \<Rightarrow> json go_result" where
  "wallet_create_snapshot w = j_struct
     [(''id'', j_str (agg_id w)), (''user_id'', j_str (wa_user_id w)),
      (''currency'', j_str (wa_currency w)), (''balance'', j_float (wa_balance w)),
      (''created_at'', j_time (wa_created_at w)), (''updated_at'', j_time (wa_updated_at w)),
      (''version'', j_int (agg_version w))]"

definition wallet_load_snapshot :: "json \<Rightarrow> wallet_aggregate \<Rightarrow> go_error option \<times> wallet_aggregate" where
  "wallet_load_snapshot j w =
     (case
        rbind (d_struct j) (\<lambda>kvs.
        rbind (d_str (j_field kvs ''id'')) (\<lambda>i.
        rbind (d_str (j_field kvs ''user_id'')) (\<lambda>user_id.
        rbind (d_str (j_field kvs ''currency'')) (\<lambda>currency.
        rbind (d_float (j_field kvs ''balance'')) (\<lambda>balance.
        rbind (d_time (j_field kvs ''created_at'')) (\<lambda>created_at.
        rbind (d_time (j_field kvs ''updated_at'')) (\<lambda>updated_at.
        rbind (d_int (j_field kvs ''version'')) (\<lambda>version.
        Inr (w\<lparr>agg_id := i, wa_user_id := user_id, wa_currency := currency, wa_balance := balance,
          wa_created_at := created_at, wa_updated_at := updated_at, agg_version := version\<rparr>)))))))))
      of Inl x \<Rightarrow> (Some (''failed to unmarshal wallet snapshot: '' @ x), w)
       | Inr w' \<Rightarrow> (None, w'))"

section \<open>The payment\<close>

record payment_aggregate = base_aggregate +
  pa_user_id :: string
  pa_amount :: float64
  pa_currency :: string
  pa_payment_method :: string
  pa_status :: string
  pa_gateway_tx_id :: string
  pa_created_at :: time
  pa_completed_at :: "time option"

record payment_initiated_data =
  pi_payment_id :: string
  pi_user_id :: string
  pi_amount :: float64
  pi_currency :: string
  pi_payment_method :: string
  pi_initiated_at :: time

record payment_completed_data =
  pc_payment_id :: string
  pc_user_id :: string
  pc_amount :: float64
  pc_currency :: string
  pc_gateway_tx_id :: string
  pc_gateway_transaction_id :: string
  pc_processing_time_ms :: int
  pc_completed_at :: time

record payment_failed_data =
  pf_payment_id :: string
  pf_user_id :: string
  pf_amount :: float64
  pf_currency :: string
  pf_failure_reason :: string
  pf_failed_at :: time

definition encode_payment_initiated :: "payment_initiated_data \<Rightarrow> json go_result" where
  "encode_payment_initiated d = j_struct
     [(''payment_id'', j_str (pi_payment_id d)), (''user_id'', j_str (pi_user_id d)),
      (''amount'', j_float (pi_amount d)), (''currency'', j_str (pi_currency d)),
      (''payment_method'', j_str (pi_payment_method d)), (''initiated_at'', j_time (pi_initiated_at d))]"

definition decode_payment_initiated :: "json \<Rightarrow> payment_initiated_data go_result" where
  "decode_payment_initiated j =
     rbind (d_struct j) (\<lambda>kvs.
     rbind (d_str (j_field kvs ''payment_id'')) (\<lambda>payment_id.
     rbind (d_str (j_field kvs ''user_id'')) (\<lambda>user_id.
     rbind (d_float (j_field kvs ''amount'')) (\<lambda>amount.
     rbind (d_str (j_field kvs ''currency'')) (\<lambda>currency.
     rbind (d_str (j_field kvs ''payment_method'')) (\<lambda>payment_method.
     rbind (d_time (j_field kvs ''initiated_at'')) (\<lambda>initiated_at.
     Inr \<lparr>pi_payment_id = payment_id, pi_user_id = user_id, pi_amount = amount,
          pi_currency = currency, pi_payment_method = payment_method,
          pi_initiated_at = initiated_at\<rparr>)))))))"

definition encode_payment_completed :: "payment_completed_data \<Rightarrow> json go_result" where
  "encode_payment_completed d = j_struct
     [(''payment_id'', j_str (pc_payment_id d)), (''user_id'', j_str (pc_user_id d)),
      (''amount'', j_float (pc_amount d)), (''currency'', j_str (pc_currency d)),
      (''gateway_tx_id'', j_str (pc_gateway_tx_id d)),
      (''gateway_transaction_id'', j_str (pc_gateway_transaction_id d)),
      (''processing_time_ms'', j_int (pc_processing_time_ms d)),
      (''completed_at'', j_time (pc_completed_at d))]"

definition decode_payment_completed :: "json \<Rightarrow> payment_completed_data go_result" where
  "decode_payment_completed j =
     rbind (d_struct j) (\<lambda>kvs.
     rbind (d_str (j_field kvs ''payment_id'')) (\<lambda>payment_id.
     rbind (d_str (j_field kvs ''user_id'')) (\<lambda>user_id.
     rbind (d_float (j_field kvs ''amount'')) (\<lambda>amount.
     rbind (d_str (j_field kvs ''currency'')) (\<lambda>currency.
     rbind (d_str (j_field kvs ''gateway_tx_id'')) (\<lambda>gateway_tx_id.
     rbind (d_str (j_field kvs ''gateway_transaction_id'')) (\<lambda>gateway_transaction_id.
     rbind (d_int (j_field kvs ''processing_time_ms'')) (\<lambda>processing_time_ms.
     rbind (d_time (j_field kvs ''completed_at'')) (\<lambda>completed_at.
     Inr \<lparr>pc_payment_id = payment_id, pc_user_id = user_id, pc_amount = amount,
          pc_currency = currency, pc_gateway_tx_id = gateway_tx_id,
          pc_gateway_transaction_id = gateway_transaction_id,
          pc_processing_time_ms = processing_time_ms, pc_completed_at = completed_at\<rparr>)))))))))"

definition encode_payment_failed :: "payment_failed_data \<Rightarrow> json go_result" where
  "encode_payment_failed d = j_struct
     [(''payment_id'', j_str (pf_payment_id d)), (''user_id'', j_str (pf_user_id d)),
      (''amount'', j_float (pf_amount d)), (''currency'', j_str (pf_currency d)),
      (''failure_reason'', j_str (pf_failure_reason d)), (''failed_at'', j_time (pf_failed_at d))]"

definition decode_payment_failed :: "json \<Rightarrow> payment_failed_data go_result" where
  "decode_payment_failed j =
     rbind (d_struct j) (\<lambda>kvs.
     rbind (d_str (j_field kvs ''payment_id'')) (\<lambda>payment_id.
     rbind (d_str (j_field kvs ''user_id'')) (\<lambda>user_id.
     rbind (d_float (j_field kvs ''amount'')) (\<lambda>amount.
     rbind (d_str (j_field kvs ''currency'')) (\<lambda>currency.
     rbind (d_str (j_field kvs ''failure_reason'')) (\<lambda>failure_reason.
     rbind (d_time (j_field kvs ''failed_at'')) (\<lambda>failed_at.
     Inr \<lparr>pf_payment_id = payment_id, pf_user_id = user_id, pf_amount = amount,
          pf_currency = currency, pf_failure_reason = failure_reason, pf_failed_at = failed_at\<rparr>)))))))"

definition new_payment_aggregate ::
  "string \<Rightarrow> string \<Rightarrow> float64 \<Rightarrow> string \<Rightarrow> string \<Rightarrow> time \<Rightarrow> payment_aggregate" where
  "new_payment_aggregate i user_id amount currency payment_method t = \<lparr>agg_id = i,
     agg_type = ''payment'', agg_version = 0, agg_uncommitted = [], pa_user_id = user_id,
     pa_amount = amount, pa_currency = currency, pa_payment_method = payment_method,
     pa_status = ''pending'', pa_gateway_tx_id = '''', pa_created_at = t, pa_completed_at = None\<rparr>"

definition payment_apply_event :: "event \<Rightarrow> payment_aggregate \<Rightarrow> go_error option \<times> payment_aggregate" where
  "payment_apply_event e p =
     (if ev_type e = ''PaymentInitiated'' then
        (case decode_payment_initiated (ev_data e) of
           Inl x \<Rightarrow> (Some x, p)
         | Inr d \<Rightarrow> (None, p\<lparr>agg_id := pi_payment_id d, pa_user_id := pi_user_id d,
             pa_amount := pi_amount d, pa_currency := pi_currency d,
             pa_payment_method := pi_payment_method d, pa_status := ''initiated'',
             agg_version := agg_version p + 1\<rparr>))
      else if ev_type e = ''PaymentCompleted'' then
        (case decode_payment_completed (ev_data e) of
           Inl x \<Rightarrow> (Some x, p)
         | Inr d \<Rightarrow> (None, p\<lparr>pa_status := ''completed'', pa_gateway_tx_id := pc_gateway_tx_id d,
             pa_completed_at := Some (pc_completed_at d), agg_version := agg_version p + 1\<rparr>))
      else if ev_type e = ''PaymentFailed'' then
        (case decode_payment_failed (ev_data e) of
           Inl x \<Rightarrow> (Some x, p)
         | Inr d \<Rightarrow> (None, p\<lparr>pa_status := ''failed'', agg_version := agg_version p + 1\<rparr>))
      else (None, p\<lparr>agg_version := agg_version p + 1\<rparr>))"

definition initiate_payment :: "op_env \<Rightarrow> payment_aggregate \<Rightarrow> go_error option \<times> payment_aggregate" where
  "initiate_payment env p =
     (if pa_status p \<noteq> ''pending''
      then (Some (''cannot initiate payment with status: '' @ pa_status p), p)
      else case new_event (agg_id p) ''payment'' ''PaymentInitiated''
             (encode_payment_initiated \<lparr>pi_payment_id = agg_id p, pi_user_id = pa_user_id p,
                pi_amount = pa_amount p, pi_currency = pa_currency p,
                pi_payment_method = pa_payment_method p, pi_initiated_at = oe_at env\<rparr>)
             (pa_user_id p) (oe_correlation env) (oe_event_id env) (oe_t1 env) (oe_t2 env) of
        Inl x \<Rightarrow> (Some (''failed to create PaymentInitiated event: '' @ x), p)
      | Inr e \<Rightarrow> (case add_uncommitted_event e p of (e', p') \<Rightarrow> payment_apply_event e' p'))"

definition complete_payment ::
  "op_env \<Rightarrow> string \<Rightarrow> payment_aggregate \<Rightarrow> go_error option \<times> payment_aggregate" where
  "complete_payment env gateway_tx_id p =
     (if pa_status p \<noteq> ''processing''
      then (Some (''cannot complete payment with status: '' @ pa_status p), p)
      else case new_event (agg_id p) ''payment'' ''PaymentCompleted''
             (encode_payment_completed \<lparr>pc_payment_id = agg_id p, pc_user_id = pa_user_id p,
                pc_amount = pa_amount p, pc_currency = pa_currency p,
                pc_gateway_tx_id = gateway_tx_id, pc_gateway_transaction_id = '''',
                pc_processing_time_ms = 0, pc_completed_at = oe_at env\<rparr>)
             (pa_user_id p) (oe_correlation env) (oe_event_id env) (oe_t1 env) (oe_t2 env) of
        Inl x \<Rightarrow> (Some (''failed to create PaymentCompleted event: '' @ x), p)
      | Inr e \<Rightarrow> (case add_uncommitted_event e p of (e', p') \<Rightarrow> payment_apply_event e' p'))"

definition fail_payment ::
  "op_env \<Rightarrow> string \<Rightarrow> payment_aggregate \<Rightarrow> go_error option \<times> payment_aggregate" where
  "fail_payment env reason p =
     (if pa_status p = ''completed'' then (Some ''cannot fail completed payment'', p)
      else case new_event (agg_id p) ''payment'' ''PaymentFailed''
             (encode_payment_failed \<lparr>pf_payment_id = agg_id p, pf_user_id = pa_user_id p,
                pf_amount = pa_amount p, pf_currency = pa_currency p, pf_failure_reason = reason,
                pf_failed_at = oe_at env\<rparr>)
             (pa_user_id p) (oe_correlation env) (oe_event_id env) (oe_t1 env) (oe_t2 env) of
        Inl x \<Rightarrow> (Some (''failed to create PaymentFailed event: '' @ x), p)
      | Inr e \<Rightarrow> (case add_uncommitted_event e p of (e', p') \<Rightarrow> payment_apply_event e' p'))"

text \<open>Two fields of the payment snapshot are left out when empty.\<close>

definition payment_create_snapshot :: "payment_aggregate \<Rightarrow> json go_result" where
  "payment_create_snapshot p = j_struct
     ([(''id'', j_str (agg_id p)), (''user_id'', j_str (pa_user_id p)),
       (''amount'', j_float (pa_amount p)), (''currency'', j_str (pa_currency p)),
       (''payment_method'', j_str (pa_payment_method p)), (''status'', j_str (pa_status p))] @
      (if pa_gateway_tx_id p = '''' then [] else [(''gateway_tx_id'', j_str (pa_gateway_tx_id p))]) @
      [(''created_at'', j_time (pa_created_at p))] @
      (case pa_completed_at p of None \<Rightarrow> [] | Some t \<Rightarrow> [(''completed_at'', j_time t)]) @
      [(''version'', j_int (agg_version p))])"

definition payment_load_snapshot :: "json \<Rightarrow> payment_aggregate \<Rightarrow> go_error option \<times> payment_aggregate" where
  "payment_load_snapshot j p =
     (case
        rbind (d_struct j) (\<lambda>kvs.
        rbind (d_str (j_field kvs ''id'')) (\<lambda>i.
        rbind (d_str (j_field kvs ''user_id'')) (\<lambda>user_id.
        rbind (d_float (j_field kvs ''amount'')) (\<lambda>amount.
        rbind (d_str (j_field kvs ''currency'')) (\<lambda>currency.
        rbind (d_str (j_field kvs ''payment_method'')) (\<lambda>payment_method.
        rbind (d_str (j_field kvs ''status'')) (\<lambda>status.
        rbind (d_str (j_field kvs ''gateway_tx_id'')) (\<lambda>gateway_tx_id.
        rbind (d_time (j_field kvs ''created_at'')) (\<lambda>created_at.
        rbind (d_time_ptr (j_field kvs ''completed_at'')) (\<lambda>completed_at.
        rbind (d_int (j_field kvs ''version'')) (\<lambda>version.
        Inr (p\<lparr>agg_id := i, pa_user_id := user_id, pa_amount := amount, pa_currency := currency,
          pa_payment_method := payment_method, pa_status := status,
          pa_gateway_tx_id := gateway_tx_id, pa_created_at := created_at,
          pa_completed_at := completed_at, agg_version := version\<rparr>))))))))))))
      of Inl x \<Rightarrow> (Some (''failed to unmarshal payment snapshot: '' @ x), p)
       | Inr p' \<Rightarrow> (None, p'))"

section \<open>Encoding and decoding\<close>

lemmas encode_simps = j_struct_def rbind_eq_Inr j_float_ok

lemma balance_data_encodable:
  "(\<exists>j. encode_balance_data k d = Inr j) \<longleftrightarrow>
     finite64 (bd_amount d) \<and> finite64 (bd_previous_balance d) \<and> finite64 (bd_new_balance d)"
  by (auto simp: encode_balance_data_def encode_simps)

lemma balance_data_roundtrip:
  assumes "encode_balance_data k d = Inr j" and "k \<in> {''added_at'', ''deducted_at''}"
  shows "decode_balance_data k j = Inr d"
  using assms by (auto simp: encode_balance_data_def decode_balance_data_def encode_simps)

lemma payment_initiated_roundtrip:
  "encode_payment_initiated d = Inr j \<Longrightarrow> decode_payment_initiated j = Inr d"
  by (auto simp: encode_payment_initiated_def decode_payment_initiated_def encode_simps)

lemma payment_completed_roundtrip:
  "encode_payment_completed d = Inr j \<Longrightarrow> decode_payment_completed j = Inr d"
  by (auto simp: encode_payment_completed_def decode_payment_completed_def encode_simps)

lemma payment_failed_roundtrip:
  "encode_payment_failed d = Inr j \<Longrightarrow> decode_payment_failed j = Inr d"
  by (auto simp: encode_payment_failed_def decode_payment_failed_def encode_simps)

lemma wallet_snapshot_roundtrip:
  assumes "wallet_create_snapshot w = Inr j"
  shows "wallet_load_snapshot j v = (None, v\<lparr>agg_id := agg_id w, agg_version := agg_version w,
    wa_user_id := wa_user_id w, wa_currency := wa_currency w, wa_balance := wa_balance w,
    wa_created_at := wa_created_at w, wa_updated_at := wa_updated_at w\<rparr>)"
  using assms by (auto simp: wallet_create_snapshot_def wallet_load_snapshot_def encode_simps)

lemma payment_snapshot_roundtrip:
  assumes "payment_create_snapshot p = Inr j"
  shows "payment_load_snapshot j q = (None, q\<lparr>agg_id := agg_id p, agg_version := agg_version p,
    pa_user_id := pa_user_id p, pa_amount := pa_amount p, pa_currency := pa_currency p,
    pa_payment_method := pa_payment_method p, pa_status := pa_status p,
    pa_gateway_tx_id := pa_gateway_tx_id p, pa_created_at := pa_created_at p,
    pa_completed_at := pa_completed_at p\<rparr>)"
  using assms
  by (auto simp: payment_create_snapshot_def payment_load_snapshot_def encode_simps
      split: if_splits option.splits)

section \<open>What the wallet commands do\<close>

text \<open>The data a command puts into its event.\<close>

abbreviation command_data :: "op_env \<Rightarrow> float64 \<Rightarrow> string \<Rightarrow> float64 \<Rightarrow> wallet_aggregate \<Rightarrow> balance_data" where
  "command_data env amount desc b w \<equiv> \<lparr>bd_wallet_id = agg_id w, bd_user_id = wa_user_id w,
     bd_amount = amount, bd_currency = wa_currency w, bd_description = desc,
     bd_previous_balance = wa_balance w, bd_new_balance = b, bd_at = oe_at env\<rparr>"

text \<open>The event a command queues, and the wallet after it: its version has grown by two.\<close>

definition wallet_event :: "op_env \<Rightarrow> string \<Rightarrow> json \<Rightarrow> wallet_aggregate \<Rightarrow> event" where
  "wallet_event env ty j w = \<lparr>ev_id = oe_event_id env, ev_aggregate_id = agg_id w,
     ev_aggregate_type = ''wallet'', ev_type = ty, ev_version = agg_version w + 1, ev_seq = 0,
     ev_data = j, ev_metadata = JObj [(''source'', JStr ''payment-system''),
       (''timestamp'', JTime (oe_t1 env)), (''version'', JStr ''1.0'')],
     ev_created_at = oe_t2 env, ev_caused_by = wa_user_id w, ev_correlation_id = oe_correlation env\<rparr>"

definition queued :: "event \<Rightarrow> float64 \<Rightarrow> time \<Rightarrow> wallet_aggregate \<Rightarrow> wallet_aggregate" where
  "queued e b t w = w\<lparr>agg_uncommitted := agg_uncommitted w @ [e], wa_balance := b, wa_updated_at := t,
     agg_version := agg_version w + 1 + 1\<rparr>"

lemma add_balance_exec:
  assumes "\<not> fle amount f0" 
  shows "add_balance env amount desc w = (case encode_balance_data ''added_at'' (command_data env amount desc (fadd (wa_balance w) amount) w) of
      Inl x \<Rightarrow> (Some (''failed to create BalanceAdded event: '' @ x), w)
    | Inr j \<Rightarrow> (None, queued (wallet_event env ''BalanceAdded'' j w) (fadd (wa_balance w) amount) (oe_at env) w))"
proof (cases "encode_balance_data ''added_at'' (command_data env amount desc (fadd (wa_balance w) amount) w)")
  case (Inl x)
  with assms show ?thesis by (simp add: add_balance_def Let_def)
next
  case (Inr j)
  from balance_data_roundtrip [OF this]
  have "decode_balance_data ''added_at'' j = Inr (command_data env amount desc (fadd (wa_balance w) amount) w)" by simp
  with assms Inr show ?thesis
    by (simp add: add_balance_def add_uncommitted_event_def wallet_apply_event_def queued_def wallet_event_def
        Let_def)
qed

lemma deduct_balance_exec:
  assumes "\<not> fle amount f0" "\<not> flt (wa_balance w) amount"
  shows "deduct_balance env amount desc w = (case encode_balance_data ''deducted_at'' (command_data env amount desc (fsub (wa_balance w) amount) w) of
      Inl x \<Rightarrow> (Some (''failed to create BalanceDeducted event: '' @ x), w)
    | Inr j \<Rightarrow> (None, queued (wallet_event env ''BalanceDeducted'' j w) (fsub (wa_balance w) amount) (oe_at env) w))"
proof (cases "encode_balance_data ''deducted_at'' (command_data env amount desc (fsub (wa_balance w) amount) w)")
  case (Inl x)
  with assms show ?thesis by (simp add: deduct_balance_def Let_def)
next
  case (Inr j)
  from balance_data_roundtrip [OF this]
  have "decode_balance_data ''deducted_at'' j = Inr (command_data env amount desc (fsub (wa_balance w) amount) w)" by simp
  with assms Inr show ?thesis
    by (simp add: deduct_balance_def add_uncommitted_event_def wallet_apply_event_def queued_def wallet_event_def
        Let_def)
qed

lemma positive_amount: "\<not> fle amount f0 \<Longrightarrow> finite64 amount \<Longrightarrow> flt f0 amount"
  by (cases amount) (auto simp: fle_def f0_def finite64_def)

lemma enough_balance: "\<not> flt b amount \<Longrightarrow> finite64 amount \<Longrightarrow> finite64 b \<Longrightarrow> fle amount b"
  by (cases amount; cases b) (auto simp: fle_def finite64_def)

text \<open>A command that succeeds has queued one event, and applying that event is what it has done.\<close>

definition command_effect :: "event \<Rightarrow> float64 \<Rightarrow> time \<Rightarrow> wallet_aggregate \<Rightarrow> wallet_aggregate \<Rightarrow> bool" where
  "command_effect e b t w w' = (w' = queued e b t w \<and> ev_version e = agg_version w + 1 \<and>
     ev_aggregate_id e = agg_id w \<and> ev_seq e = 0 \<and>
     (\<forall>v. wallet_apply_event e v = (None, v\<lparr>wa_balance := b, wa_updated_at := t,
        agg_version := agg_version v + 1\<rparr>)))"

lemma add_balance_ok:
  assumes "add_balance env amount desc w = (None, w')"
  shows "(\<exists>e. command_effect e (fadd (wa_balance w) amount) (oe_at env) w w') \<and>
    finite64 (fadd (wa_balance w) amount) \<and> finite64 (wa_balance w) \<and> finite64 amount \<and> flt f0 amount"
proof -
  have pos: "\<not> fle amount f0" using assms by (auto simp: add_balance_def)
  from assms obtain j where j: "encode_balance_data ''added_at'' (command_data env amount desc (fadd (wa_balance w) amount) w) = Inr j"
    and w': "w' = queued (wallet_event env ''BalanceAdded'' j w) (fadd (wa_balance w) amount) (oe_at env) w"
    unfolding add_balance_exec [OF pos] by (auto split: sum.splits)
  have fin: "finite64 (fadd (wa_balance w) amount)" "finite64 (wa_balance w)" "finite64 amount"
    using balance_data_encodable [THEN iffD1, OF exI, OF j] by simp_all
  from balance_data_roundtrip [OF j]
  have "command_effect (wallet_event env ''BalanceAdded'' j w) (fadd (wa_balance w) amount) (oe_at env) w w'"
    by (simp add: command_effect_def w' wallet_event_def wallet_apply_event_def)
  with fin positive_amount [OF pos] show ?thesis by blast
qed

lemma deduct_balance_ok:
  assumes "deduct_balance env amount desc w = (None, w')"
  shows "(\<exists>e. command_effect e (fsub (wa_balance w) amount) (oe_at env) w w') \<and>
    finite64 (fsub (wa_balance w) amount) \<and> finite64 (wa_balance w) \<and> finite64 amount \<and>
    flt f0 amount \<and> fle amount (wa_balance w)"
proof -
  have pos: "\<not> fle amount f0" "\<not> flt (wa_balance w) amount"
    using assms by (auto simp: deduct_balance_def split: if_splits)
  from assms obtain j where j: "encode_balance_data ''deducted_at'' (command_data env amount desc (fsub (wa_balance w) amount) w) = Inr j"
    and w': "w' = queued (wallet_event env ''BalanceDeducted'' j w) (fsub (wa_balance w) amount) (oe_at env) w"
    unfolding deduct_balance_exec [OF pos] by (auto split: sum.splits)
  have fin: "finite64 (fsub (wa_balance w) amount)" "finite64 (wa_balance w)" "finite64 amount"
    using balance_data_encodable [THEN iffD1, OF exI, OF j] by simp_all
  from balance_data_roundtrip [OF j]
  have "command_effect (wallet_event env ''BalanceDeducted'' j w) (fsub (wa_balance w) amount) (oe_at env) w w'"
    by (simp add: command_effect_def w' wallet_event_def wallet_apply_event_def)
  with fin positive_amount [OF pos(1)] enough_balance [OF pos(2)] show ?thesis by blast
qed

lemma wallet_command_error:
  "add_balance env amount desc w = (Some x, w') \<Longrightarrow> w' = w"
  "deduct_balance env amount desc w = (Some x, w') \<Longrightarrow> w' = w"
proof -
  show "add_balance env amount desc w = (Some x, w') \<Longrightarrow> w' = w"
    by (cases "fle amount f0") (auto simp: add_balance_exec split: sum.splits, simp add: add_balance_def)
  show "deduct_balance env amount desc w = (Some x, w') \<Longrightarrow> w' = w"
    by (cases "fle amount f0"; cases "flt (wa_balance w) amount")
      (auto simp: deduct_balance_exec split: sum.splits, simp_all add: deduct_balance_def)
qed

section \<open>Sequences of wallet commands\<close>

datatype wallet_command = Add op_env float64 string | Deduct op_env float64 string

fun run_command :: "wallet_command \<Rightarrow> wallet_aggregate \<Rightarrow> go_error option \<times> wallet_aggregate" where
  "run_command (Add env amount desc) w = add_balance env amount desc w"
| "run_command (Deduct env amount desc) w = deduct_balance env amount desc w"

text \<open>A caller that goes on after a refused command: the wallet after all of them.\<close>

fun run_commands :: "wallet_command list \<Rightarrow> wallet_aggregate \<Rightarrow> wallet_aggregate" where
  "run_commands [] w = w"
| "run_commands (c # cs) w = run_commands cs (snd (run_command c w))"

text \<open>Applying events one after the other, up to the first error.\<close>

fun wallet_replay :: "event list \<Rightarrow> wallet_aggregate \<Rightarrow> go_error option \<times> wallet_aggregate" where
  "wallet_replay [] w = (None, w)"
| "wallet_replay (e # es) w =
     (case wallet_apply_event e w of (Some x, w') \<Rightarrow> (Some x, w') | (None, w') \<Rightarrow> wallet_replay es w')"

lemma run_command_cases:
  obtains x where "run_command c w = (Some x, w)"
  | e b t where "snd (run_command c w) = queued e b t w" "fst (run_command c w) = None"
      "command_effect e b t w (queued e b t w)"
proof (cases "run_command c w")
  case (Pair r w')
  show thesis
  proof (cases r)
    case (Some x)
    with Pair wallet_command_error have "w' = w" by (cases c) auto
    with Pair Some that(1) show thesis by blast
  next
    case None
    have "\<exists>e b t. command_effect e b t w w'"
    proof (cases c)
      case (Add env amount desc)
      with Pair None add_balance_ok [of env amount desc w w'] show ?thesis by auto
    next
      case (Deduct env amount desc)
      with Pair None deduct_balance_ok [of env amount desc w w'] show ?thesis by auto
    qed
    then obtain e b t where "command_effect e b t w w'" by blast
    moreover from this have "w' = queued e b t w" by (simp add: command_effect_def)
    ultimately show thesis using Pair None that(2) by auto
  qed
qed

lemma fadd_nonneg:
  assumes "nonneg64 a" "nonneg64 b" "finite64 (fadd a b)"
  shows "nonneg64 (fadd a b)"
proof -
  obtain x y where "a = FFin x" "b = FFin y" "0 \<le> x" "0 \<le> y"
    using assms by (auto simp: nonneg64_def split: float64.splits)
  with assms(3) round64_nonneg [of "x + y"] show ?thesis
    by (auto simp: nonneg64_def finite64_def)
qed

lemma fsub_nonneg:
  assumes "nonneg64 a" "finite64 b" "fle b a" "finite64 (fsub a b)"
  shows "nonneg64 (fsub a b)"
proof -
  obtain x y where "a = FFin x" "b = FFin y" "y \<le> x"
    using assms by (cases a; cases b) (auto simp: nonneg64_def finite64_def fle_def)
  with assms(4) round64_nonneg [of "x - y"] show ?thesis
    by (auto simp: nonneg64_def finite64_def fsub_def)
qed

lemma positive_nonneg: "flt f0 a \<Longrightarrow> finite64 a \<Longrightarrow> nonneg64 a"
  by (cases a) (auto simp: f0_def nonneg64_def finite64_def)

lemma run_command_nonneg:
  assumes "nonneg64 (wa_balance w)"
  shows "nonneg64 (wa_balance (snd (run_command c w)))"
proof (cases "run_command c w")
  case (Pair r w')
  show ?thesis
  proof (cases r)
    case (Some x)
    with Pair assms show ?thesis by (cases c) (auto dest!: wallet_command_error)
  next
    case None
    show ?thesis
    proof (cases c)
      case (Add env amount desc)
      with Pair None add_balance_ok [of env amount desc w w'] assms fadd_nonneg positive_nonneg
      show ?thesis by (auto simp: command_effect_def queued_def)
    next
      case (Deduct env amount desc)
      with Pair None deduct_balance_ok [of env amount desc w w'] assms fsub_nonneg
      show ?thesis by (auto simp: command_effect_def queued_def)
    qed
  qed
qed

text \<open>What a sequence of commands has queued, and what these events do to a wallet.\<close>

lemma run_commands_effect:
  "\<exists>es. agg_uncommitted (run_commands cs w) = agg_uncommitted w @ es \<and>
     agg_version (run_commands cs w) = agg_version w + 2 * int (length es) \<and>
     map ev_version es = map (\<lambda>i. agg_version w + 2 * int i + 1) [0..<length es] \<and>
     agg_id (run_commands cs w) = agg_id w \<and> (\<forall>e \<in> set es. ev_aggregate_id e = agg_id w) \<and>
     (\<forall>n us. wallet_replay es (w\<lparr>agg_uncommitted := us, agg_version := n\<rparr>) =
        (None, (run_commands cs w)\<lparr>agg_uncommitted := us, agg_version := n + int (length es)\<rparr>))"
proof (induction cs arbitrary: w)
  case Nil
  then show ?case by (intro exI [of _ "[]"]) simp
next
  case (Cons c cs)
  show ?case
  proof (cases rule: run_command_cases [of c w])
    case (1 x)
    with Cons.IH [of w] show ?thesis by simp
  next
    case (2 e b t)
    let ?w = "queued e b t w"
    from Cons.IH [of ?w] obtain es where es:
      "agg_uncommitted (run_commands cs ?w) = agg_uncommitted ?w @ es"
      "agg_version (run_commands cs ?w) = agg_version ?w + 2 * int (length es)"
      "map ev_version es = map (\<lambda>i. agg_version ?w + 2 * int i + 1) [0..<length es]"
      "agg_id (run_commands cs ?w) = agg_id ?w" "\<forall>e \<in> set es. ev_aggregate_id e = agg_id ?w"
      "\<And>n us. wallet_replay es (?w\<lparr>agg_uncommitted := us, agg_version := n\<rparr>) =
        (None, (run_commands cs ?w)\<lparr>agg_uncommitted := us, agg_version := n + int (length es)\<rparr>)"
      by blast
    have e: "ev_version e = agg_version w + 1" "ev_aggregate_id e = agg_id w"
      "\<And>v. wallet_apply_event e v = (None, v\<lparr>wa_balance := b, wa_updated_at := t,
        agg_version := agg_version v + 1\<rparr>)"
      using 2(3) by (simp_all add: command_effect_def)
    have upt: "[0..<length (e # es)] = 0 # map Suc [0..<length es]"
      by (simp add: upt_conv_Cons map_Suc_upt del: upt_Suc)
    have "map ev_version (e # es) = map (\<lambda>i. agg_version w + 2 * int i + 1) [0..<length (e # es)]"
      unfolding upt using es(3) e(1) by (simp add: queued_def algebra_simps)
    moreover have "wallet_replay (e # es) (w\<lparr>agg_uncommitted := us, agg_version := n\<rparr>) =
        (None, (run_commands cs ?w)\<lparr>agg_uncommitted := us, agg_version := n + int (length (e # es))\<rparr>)"
      for n us
    proof -
      have step: "wallet_apply_event e (w\<lparr>agg_uncommitted := us, agg_version := n\<rparr>) =
          (None, ?w\<lparr>agg_uncommitted := us, agg_version := n + 1\<rparr>)"
        using e(3) by (simp add: queued_def)
      have n: "n + 1 + int (length es) = n + int (length (e # es))" by simp
      show ?thesis
        by (simp only: wallet_replay.simps step prod.case option.case es(6) n)
    qed
    ultimately show ?thesis
      using es(1,2,4,5) e(2) unfolding run_commands.simps 2(1)
      by (intro exI [of _ "e # es"]) (simp add: queued_def)
  qed
qed

section \<open>Properties\<close>

text \<open>C10: no sequence of deposits and withdrawals, refused ones and the ones with NaN or infinite
  amounts included, takes a wallet's balance below zero or out of the finite numbers.\<close>

theorem wallet_balance_nonneg:
  "nonneg64 (wa_balance w) \<Longrightarrow> nonneg64 (wa_balance (run_commands cs w))"
  by (induction cs arbitrary: w) (simp_all add: run_command_nonneg)

definition example_env :: op_env where
  "example_env = \<lparr>oe_at = 3, oe_correlation = ''c'', oe_event_id = ''e'', oe_t1 = 4, oe_t2 = 5\<rparr>"

lemma wallet_balance_nonneg_witness:
  "nonneg64 (wa_balance (run_commands [Deduct example_env (FFin 3) ''x'', Add example_env FNaN ''y'']
     (new_wallet_aggregate ''w'' ''u'' ''USD'' 1 1)))"
  by (rule wallet_balance_nonneg) (simp add: new_wallet_aggregate_def nonneg64_def f0_def)

text \<open>C26: the events a wallet has queued reproduce it: replaying them on the wallet the commands
  started from gives the same state, the version apart: every command counts it twice, the replay
  once, so that after \<open>n\<close> accepted commands the wallet claims \<open>n\<close> versions too many and the
  event of the \<open>i\<close>-th carries \<open>2 i + 1\<close>, counting from 0.\<close>

theorem wallet_event_sourced:
  assumes "agg_uncommitted w = []" and "w' = run_commands cs w" and "es = agg_uncommitted w'"
  shows "wallet_replay es w =
      (None, w'\<lparr>agg_uncommitted := [], agg_version := agg_version w + int (length es)\<rparr>) \<and>
    agg_version w' = agg_version w + 2 * int (length es) \<and>
    map ev_version es = map (\<lambda>i. agg_version w + 2 * int i + 1) [0..<length es]"
proof -
  from run_commands_effect [of cs w] assms
  have eff: "\<And>n us. wallet_replay es (w\<lparr>agg_uncommitted := us, agg_version := n\<rparr>) =
      (None, w'\<lparr>agg_uncommitted := us, agg_version := n + int (length es)\<rparr>)"
    "agg_version w' = agg_version w + 2 * int (length es)"
    "map ev_version es = map (\<lambda>i. agg_version w + 2 * int i + 1) [0..<length es]"
    by simp_all
  have "w\<lparr>agg_uncommitted := [], agg_version := agg_version w\<rparr> = w"
    using assms(1) by simp
  with eff(1) [where n = "agg_version w" and us = "[]"] eff(2,3) show ?thesis by simp
qed

lemma wallet_event_sourced_witness:
  "fst (wallet_replay (agg_uncommitted (run_commands [Add example_env (FFin 3) ''x'', Deduct example_env (FFin 1) ''y'']
     (new_wallet_aggregate ''w'' ''u'' ''USD'' 1 1))) (new_wallet_aggregate ''w'' ''u'' ''USD'' 1 1)) = None"
  using wallet_event_sourced [OF _ refl refl, of "new_wallet_aggregate ''w'' ''u'' ''USD'' 1 1"
      "[Add example_env (FFin 3) ''x'', Deduct example_env (FFin 1) ''y'']"]
  by (simp add: new_wallet_aggregate_def)

text \<open>The commands of a payment, and a caller that goes on after a refused one.\<close>

datatype payment_command = Initiate op_env | Complete op_env string | Fail op_env string

fun run_payment_command :: "payment_command \<Rightarrow> payment_aggregate \<Rightarrow> go_error option \<times> payment_aggregate" where
  "run_payment_command (Initiate env) p = initiate_payment env p"
| "run_payment_command (Complete env tx) p = complete_payment env tx p"
| "run_payment_command (Fail env reason) p = fail_payment env reason p"

definition run_payment_commands :: "payment_command list \<Rightarrow> payment_aggregate \<Rightarrow> payment_aggregate" where
  "run_payment_commands cs p = fold (\<lambda>c p. snd (run_payment_command c p)) cs p"

lemma payment_apply_status:
  "ev_type e \<noteq> ''PaymentCompleted'' \<Longrightarrow>
     pa_status (snd (payment_apply_event e p)) \<in> {pa_status p, ''initiated'', ''failed''}"
  by (auto simp: payment_apply_event_def split: sum.split)

lemma new_event_type: "new_event a ty et d c co i t1 t2 = Inr e \<Longrightarrow> ev_type e = et"
  by (cases d) auto

lemma run_payment_command_status:
  assumes "pa_status p \<in> {''pending'', ''initiated'', ''failed''}"
  shows "pa_status (snd (run_payment_command c p)) \<in> {''pending'', ''initiated'', ''failed''}"
proof -
  have queue: "pa_status (snd (case r of Inl x \<Rightarrow> (Some (t @ x), p)
      | Inr e \<Rightarrow> (case add_uncommitted_event e p of (e', p') \<Rightarrow> payment_apply_event e' p')))
      \<in> {pa_status p, ''initiated'', ''failed''}"
    if "\<And>e. r = Inr e \<Longrightarrow> ev_type e \<noteq> ''PaymentCompleted''" for r and t :: string
  proof (cases r)
    case (Inl x)
    then show ?thesis by simp
  next
    case (Inr e)
    let ?e = "e\<lparr>ev_version := agg_version p + 1\<rparr>"
    from that [OF Inr] have "ev_type ?e \<noteq> ''PaymentCompleted''" by simp
    from payment_apply_status [OF this, of "p\<lparr>agg_uncommitted := agg_uncommitted p @ [?e],
        agg_version := agg_version p + 1\<rparr>"] Inr
    show ?thesis by (simp add: add_uncommitted_event_def Let_def)
  qed
  show ?thesis
  proof (cases c)
    case (Initiate env)
    show ?thesis
    proof (cases "pa_status p = ''pending''")
      case True
      then have no: "\<not> pa_status p \<noteq> ''pending''" by simp
      have "pa_status (snd (initiate_payment env p)) \<in>
          {pa_status p, ''initiated'', ''failed''}"
        unfolding initiate_payment_def if_not_P [OF no] by (rule queue) (auto dest: new_event_type)
      with True Initiate show ?thesis by auto
    next
      case False
      with assms Initiate show ?thesis by (simp add: initiate_payment_def)
    qed
  next
    case (Complete env tx)
    then show ?thesis using assms by (auto simp: complete_payment_def)
  next
    case (Fail env reason)
    have no: "pa_status p \<noteq> ''completed''" using assms by auto
    have "pa_status (snd (fail_payment env reason p)) \<in>
        {pa_status p, ''initiated'', ''failed''}"
      unfolding fail_payment_def if_not_P [OF no] by (rule queue) (auto dest: new_event_type)
    with assms Fail show ?thesis by auto
  qed
qed

text \<open>No sequence of its commands completes a payment: \<open>CompletePayment\<close> asks for the status
  \<open>processing\<close>, which nothing sets, so it is refused whatever was done before.\<close>

theorem payment_never_completes:
  "fst (complete_payment env tx (run_payment_commands cs (new_payment_aggregate i u amount cur pm t))) =
     Some (''cannot complete payment with status: '' @
       pa_status (run_payment_commands cs (new_payment_aggregate i u amount cur pm t)))"
proof -
  have status: "pa_status (fold (\<lambda>c p. snd (run_payment_command c p)) cs p) \<in>
      {''pending'', ''initiated'', ''failed''}"
    if "pa_status p \<in> {''pending'', ''initiated'', ''failed''}" for p
    using that
  proof (induction cs arbitrary: p)
    case Nil
    then show ?case by simp
  next
    case (Cons c cs)
    then show ?case by (simp only: fold_Cons o_apply run_payment_command_status)
  qed
  have "pa_status (new_payment_aggregate i u amount cur pm t) \<in> {''pending'', ''initiated'', ''failed''}"
    by (simp add: new_payment_aggregate_def)
  from status [OF this, folded run_payment_commands_def] show ?thesis
    by (auto simp: complete_payment_def)
qed

text \<open>C33: on whole amounts up to \<open>2^53\<close> the commands compute exactly: a deposit of \<open>a\<close> is accepted and
  adds \<open>a\<close>; a withdrawal of \<open>a\<close> is accepted just when the balance suffices, and subtracts \<open>a\<close>.\<close>

theorem wallet_integer_arithmetic:
  assumes "wa_balance w = FFin (of_int b)" "0 \<le> b" "0 < a" "a \<le> 2 ^ 53" "b + a \<le> 2 ^ 53"
  shows "fst (add_balance env (FFin (of_int a)) desc w) = None \<and>
    wa_balance (snd (add_balance env (FFin (of_int a)) desc w)) = FFin (of_int (b + a)) \<and>
    (fst (deduct_balance env (FFin (of_int a)) desc w) = None \<longleftrightarrow> a \<le> b) \<and>
    wa_balance (snd (deduct_balance env (FFin (of_int a)) desc w)) = FFin (of_int (if a \<le> b then b - a else b))"
proof -
  have pos: "\<not> fle (FFin (of_int a)) f0" using assms(3) by (simp add: fle_def f0_def)
  have sum: "fadd (FFin (of_int b)) (FFin (of_int a)) = FFin (of_int (b + a))"
    using round64_int [of "b + a"] assms(2,3,5) by simp
  have diff: "fsub (FFin (of_int b)) (FFin (of_int a)) = FFin (of_int (b - a))"
    using round64_int [of "b - a"] assms(2-5) by (simp add: fsub_def)
  have enc: "\<exists>j. encode_balance_data k (command_data env (FFin x) desc (FFin y) w) = Inr j" for k x y
    unfolding balance_data_encodable using assms(1) by (simp add: finite64_def)
  have add: "fst (add_balance env (FFin (of_int a)) desc w) = None \<and>
      wa_balance (snd (add_balance env (FFin (of_int a)) desc w)) = FFin (of_int (b + a))"
    using enc [of "''added_at''" "of_int a" "of_int (b + a)"]
    unfolding add_balance_exec [OF pos] assms(1) sum by (auto simp: queued_def)
  show ?thesis
  proof (cases "a \<le> b")
    case True
    then have enough: "\<not> flt (wa_balance w) (FFin (of_int a))" using assms(1) by simp
    have "fst (deduct_balance env (FFin (of_int a)) desc w) = None \<and>
        wa_balance (snd (deduct_balance env (FFin (of_int a)) desc w)) = FFin (of_int (b - a))"
      using enc [of "''deducted_at''" "of_int a" "of_int (b - a)"]
      unfolding deduct_balance_exec [OF pos enough] assms(1) diff by (auto simp: queued_def)
    with add True show ?thesis by simp
  next
    case False
    then have "flt (wa_balance w) (FFin (of_int a))" using assms(1) by simp
    with pos add False assms(1) show ?thesis by (simp add: deduct_balance_def)
  qed
qed

lemma wallet_integer_arithmetic_witness:
  "wa_balance (snd (add_balance example_env (FFin (of_int 3)) ''x'' (new_wallet_aggregate ''w'' ''u'' ''USD'' 1 1))) =
     FFin (of_int (0 + 3))"
  by (rule wallet_integer_arithmetic [THEN conjunct2, THEN conjunct1])
    (simp_all add: new_wallet_aggregate_def f0_def)

text \<open>Such a deposit queues one event.\<close>

lemma deposit_event:
  assumes "wa_balance w = FFin (of_int b)" "0 \<le> b" "0 < a" "b + a \<le> 2 ^ 53"
  shows "\<exists>j. add_balance env (FFin (of_int a)) desc w =
    (None, queued (wallet_event env ''BalanceAdded'' j w) (FFin (of_int (b + a))) (oe_at env) w)"
proof -
  have pos: "\<not> fle (FFin (of_int a)) f0" using assms(3) by (simp add: fle_def f0_def)
  have sum: "fadd (FFin (of_int b)) (FFin (of_int a)) = FFin (of_int (b + a))"
    using round64_int [of "b + a"] assms(2-4) by simp
  have "\<exists>j. encode_balance_data k (command_data env (FFin x) desc (FFin y) w) = Inr j" for k x y
    unfolding balance_data_encodable using assms(1) by (simp add: finite64_def)
  then obtain j where "encode_balance_data ''added_at''
      (command_data env (FFin (of_int a)) desc (FFin (of_int (b + a))) w) = Inr j"
    by blast
  then show ?thesis unfolding add_balance_exec [OF pos] assms(1) sum by auto
qed

lemma deposit_queues:
  assumes "wa_balance w = FFin (of_int b)" "0 \<le> b" "0 < a" "b + a \<le> 2 ^ 53"
  shows "\<exists>e. add_balance env (FFin (of_int a)) desc w =
    (None, queued e (FFin (of_int (b + a))) (oe_at env) w)"
  using deposit_event [OF assms] by blast

end
