(* ===== verification/Memory_Subscriptions.thy ===== *)
theory Memory_Subscriptions
  imports Memory_Store
begin

text \<open>
  Subscriptions of the in-memory store (\<open>Subscribe\<close>, \<open>Close\<close> in
  \<open>pkg/eventstore/memory_store.go\<close>) and everything that runs beside the callers: the goroutine
  that replays the existing events, the goroutine that cleans up when the context ends, and the
  consumers.  One state holds the store, the goroutines and the contexts that have ended; a
  transition is one critical section of the mutex or one channel operation.

  \<open>sys_received\<close> and \<open>sys_start\<close> are history: what the consumer of a channel has taken out
  of it, and how long the log was when the channel was made.
\<close>

definition mem_close :: "mem_store \<Rightarrow> mem_store" where
  "mem_close m =
     (if ms_closed m then m
      else m\<lparr>ms_closed := True, ms_subscribers := [],
        ms_chans := fold (\<lambda>i cs. cs[i := (cs ! i)\<lparr>ch_closed := True\<rparr>]) (ms_subscribers m) (ms_chans m)\<rparr>)"

text \<open>\<open>Subscribe\<close> returns the new channel; what it starts is \<open>subscribe_tasks\<close>.\<close>

definition mem_subscribe :: "ctx_err \<Rightarrow> event_filter \<Rightarrow> mem_store \<Rightarrow> nat go_result \<times> mem_store" where
  "mem_subscribe ctx f m =
     (case ctx of Some x \<Rightarrow> (Inl x, m)
      | None \<Rightarrow>
         if ms_closed m then (Inl closed_error, m)
         else (Inr (length (ms_chans m)),
               m\<lparr>ms_chans := ms_chans m @ [\<lparr>ch_buf = [], ch_closed = False\<rparr>],
                 ms_event_subscribers := ms_event_subscribers m @
                   [\<lparr>sub_channel = length (ms_chans m), sub_filter = f\<rparr>]\<rparr>))"

text \<open>A goroutine, with its channel, its filter and the context it watches.\<close>

datatype task =
    Replay_Start nat event_filter nat
  | Replay nat event_filter nat "event list"
  | Cleanup nat nat

definition subscribe_tasks :: "nat \<Rightarrow> event_filter \<Rightarrow> nat \<Rightarrow> task list" where
  "subscribe_tasks ch f c =
     (if f_from_seq f = None then [Replay_Start ch f c] else []) @ [Cleanup ch c]"

text \<open>The clean-up: the subscriber with this channel, if it is still there, goes and its channel is closed.\<close>

definition mem_unsubscribe :: "nat \<Rightarrow> mem_store \<Rightarrow> mem_store" where
  "mem_unsubscribe ch m =
     (if list_ex (\<lambda>s. sub_channel s = ch) (ms_event_subscribers m)
      then m\<lparr>ms_event_subscribers := filter (\<lambda>s. sub_channel s \<noteq> ch) (ms_event_subscribers m),
             ms_chans := (ms_chans m)[ch := (ms_chans m ! ch)\<lparr>ch_closed := True\<rparr>]\<rparr>
      else m)"

record system =
  sys_store :: mem_store
  sys_tasks :: "task list"
  sys_done :: "nat list"
  sys_received :: "nat \<Rightarrow> event list"
  sys_start :: "nat \<Rightarrow> nat"

definition initial_system :: system where
  "initial_system = \<lparr>sys_store = new_memory_event_store, sys_tasks = [], sys_done = [],
     sys_received = (\<lambda>_. []), sys_start = (\<lambda>_. 0)\<rparr>"

text \<open>
  One turn of the replay loop: the possible continuations of the \<open>select\<close>.  A send on the closed
  channel is a panic, whichever other case is ready beside it.
\<close>

inductive replay_turn :: "nat \<Rightarrow> event_filter \<Rightarrow> nat \<Rightarrow> event \<Rightarrow> event list \<Rightarrow> system \<Rightarrow>
    mem_store \<times> task list \<Rightarrow> bool"
  for ch f c e es s where
  skip: "\<not> matches_filter e f \<Longrightarrow> replay_turn ch f c e es s (sys_store s, [Replay ch f c es])"
| send: "matches_filter e f \<Longrightarrow> chan = ms_chans (sys_store s) ! ch \<Longrightarrow> \<not> ch_closed chan \<Longrightarrow>
    length (ch_buf chan) < chan_cap \<Longrightarrow>
    replay_turn ch f c e es s
      ((sys_store s)\<lparr>ms_chans := (ms_chans (sys_store s))[ch := chan\<lparr>ch_buf := ch_buf chan @ [e]\<rparr>]\<rparr>,
       [Replay ch f c es])"
| send_panic: "matches_filter e f \<Longrightarrow> ch_closed (ms_chans (sys_store s) ! ch) \<Longrightarrow>
    replay_turn ch f c e es s ((sys_store s)\<lparr>ms_panicked := True\<rparr>, [])"
| done_ctx: "matches_filter e f \<Longrightarrow> c \<in> set (sys_done s) \<Longrightarrow> replay_turn ch f c e es s (sys_store s, [])"
| full: "matches_filter e f \<Longrightarrow> \<not> ch_closed (ms_chans (sys_store s) ! ch) \<Longrightarrow>
    \<not> length (ch_buf (ms_chans (sys_store s) ! ch)) < chan_cap \<Longrightarrow> c \<notin> set (sys_done s) \<Longrightarrow>
    replay_turn ch f c e es s (sys_store s, [Replay ch f c es])"

inductive sys_step :: "system \<Rightarrow> system \<Rightarrow> bool" where
  append_events: "\<not> ms_panicked (sys_store s) \<Longrightarrow>
    mem_append_events ctx now es (sys_store s) = (r, m, es') \<Longrightarrow>
    sys_step s (s\<lparr>sys_store := m\<rparr>)"
| append_event: "\<not> ms_panicked (sys_store s) \<Longrightarrow>
    mem_append_event ctx t e (sys_store s) = (r, m, e') \<Longrightarrow>
    sys_step s (s\<lparr>sys_store := m\<rparr>)"
| create_snapshot: "\<not> ms_panicked (sys_store s) \<Longrightarrow>
    mem_create_snapshot ctx t a ty v d (sys_store s) = (r, m) \<Longrightarrow>
    sys_step s (s\<lparr>sys_store := m\<rparr>)"
| close: "\<not> ms_panicked (sys_store s) \<Longrightarrow>
    sys_step s (s\<lparr>sys_store := mem_close (sys_store s)\<rparr>)"
| subscribe: "\<not> ms_panicked (sys_store s) \<Longrightarrow>
    mem_subscribe None f (sys_store s) = (Inr ch, m) \<Longrightarrow>
    sys_step s (s\<lparr>sys_store := m, sys_tasks := sys_tasks s @ subscribe_tasks ch f c,
      sys_start := (sys_start s)(ch := length (ms_events (sys_store s)))\<rparr>)"
| cancel: "\<not> ms_panicked (sys_store s) \<Longrightarrow> sys_step s (s\<lparr>sys_done := c # sys_done s\<rparr>)"
| replay_start: "\<not> ms_panicked (sys_store s) \<Longrightarrow> sys_tasks s = ts1 @ Replay_Start ch f c # ts2 \<Longrightarrow>
    sys_step s (s\<lparr>sys_tasks := ts1 @ Replay ch f c (ms_events (sys_store s)) # ts2\<rparr>)"
| replay_turn: "\<not> ms_panicked (sys_store s) \<Longrightarrow> sys_tasks s = ts1 @ Replay ch f c (e # es) # ts2 \<Longrightarrow>
    replay_turn ch f c e es s (m, ts) \<Longrightarrow>
    sys_step s (s\<lparr>sys_store := m, sys_tasks := ts1 @ ts @ ts2\<rparr>)"
| replay_end: "\<not> ms_panicked (sys_store s) \<Longrightarrow> sys_tasks s = ts1 @ Replay ch f c [] # ts2 \<Longrightarrow>
    sys_step s (s\<lparr>sys_tasks := ts1 @ ts2\<rparr>)"
| cleanup: "\<not> ms_panicked (sys_store s) \<Longrightarrow> sys_tasks s = ts1 @ Cleanup ch c # ts2 \<Longrightarrow>
    c \<in> set (sys_done s) \<Longrightarrow>
    sys_step s (s\<lparr>sys_store := mem_unsubscribe ch (sys_store s), sys_tasks := ts1 @ ts2\<rparr>)"
| receive: "\<not> ms_panicked (sys_store s) \<Longrightarrow> ch < length (ms_chans (sys_store s)) \<Longrightarrow>
    ms_chans (sys_store s) ! ch = chan \<Longrightarrow> ch_buf chan = e # buf \<Longrightarrow>
    sys_step s (s\<lparr>sys_store := (sys_store s)\<lparr>ms_chans := (ms_chans (sys_store s))[ch := chan\<lparr>ch_buf := buf\<rparr>]\<rparr>,
      sys_received := (sys_received s)(ch := sys_received s ch @ [e])\<rparr>)"

inductive sys_reachable :: "system \<Rightarrow> bool" where
  init: "sys_reachable initial_system"
| step: "sys_reachable s \<Longrightarrow> sys_step s s' \<Longrightarrow> sys_reachable s'"

section \<open>Invariants of the system\<close>

fun task_ok :: "mem_store \<Rightarrow> task \<Rightarrow> bool" where
  "task_ok m (Cleanup ch c) = True"
| "task_ok m (Replay_Start ch f c) = (ch < length (ms_chans m) \<and> f_from_seq f = None \<and>
     (\<forall>s \<in> set (ms_event_subscribers m). sub_channel s = ch \<longrightarrow> sub_filter s = f))"
| "task_ok m (Replay ch f c es) = (ch < length (ms_chans m) \<and> f_from_seq f = None \<and>
     (\<forall>s \<in> set (ms_event_subscribers m). sub_channel s = ch \<longrightarrow> sub_filter s = f))"

text \<open>What a subscriber that asked for no replay has been sent, and has still in its channel.\<close>

definition delivered :: "system \<Rightarrow> nat \<Rightarrow> event list" where
  "delivered s ch = sys_received s ch @ ch_buf (ms_chans (sys_store s) ! ch)"

definition delivery_ok :: "system \<Rightarrow> bool" where
  "delivery_ok s = ((\<forall>i \<ge> length (ms_chans (sys_store s)). sys_received s i = []) \<and>
     (\<forall>sub \<in> set (ms_event_subscribers (sys_store s)). f_from_seq (sub_filter sub) \<noteq> None \<longrightarrow>
        sys_start s (sub_channel sub) \<le> length (ms_events (sys_store s)) \<and>
        delivered s (sub_channel sub) =
          filter (\<lambda>e. matches_filter e (sub_filter sub))
            (drop (sys_start s (sub_channel sub)) (ms_events (sys_store s)))))"

definition sys_inv :: "system \<Rightarrow> bool" where
  "sys_inv s = (ms_panicked (sys_store s) \<or>
     mem_inv (sys_store s) \<and> (\<forall>t \<in> set (sys_tasks s). task_ok (sys_store s) t) \<and> delivery_ok s)"

lemma delivery_ok_tasks [simp]: "delivery_ok (s\<lparr>sys_tasks := ts\<rparr>) = delivery_ok s"
  by (simp add: delivery_ok_def delivered_def)

lemma sys_inv_init: "sys_inv initial_system"
  by (simp add: sys_inv_def initial_system_def mem_inv_new delivery_ok_def)
    (simp add: new_memory_event_store_def)

lemma task_ok_mono:
  assumes "task_ok m t" and "length (ms_chans m) \<le> length (ms_chans m')"
    and "set (ms_event_subscribers m') \<subseteq> set (ms_event_subscribers m)"
  shows "task_ok m' t"
  using assms by (cases t) auto

text \<open>A change of the store that delivers new events the way \<open>append_delivery\<close> says.\<close>

lemma sys_inv_deliver:
  assumes "sys_inv s" "\<not> ms_panicked (sys_store s)" "mem_inv m"
    and "ms_events m = ms_events (sys_store s) @ new"
    and "length (ms_chans m) = length (ms_chans (sys_store s))"
    and "set (ms_event_subscribers m) \<subseteq> set (ms_event_subscribers (sys_store s))"
    and "\<forall>sub \<in> set (ms_event_subscribers m).
        ch_buf (ms_chans m ! sub_channel sub) = ch_buf (ms_chans (sys_store s) ! sub_channel sub) @
          filter (\<lambda>e. matches_filter e (sub_filter sub)) new"
  shows "sys_inv (s\<lparr>sys_store := m\<rparr>)"
proof -
  have "\<forall>t \<in> set (sys_tasks s). task_ok m t"
    using assms(1,2,5,6) task_ok_mono by (fastforce simp: sys_inv_def)
  moreover have "delivery_ok (s\<lparr>sys_store := m\<rparr>)"
    using assms(1,2,4-7) by (fastforce simp: sys_inv_def delivery_ok_def delivered_def)
  ultimately show ?thesis
    using assms(3) by (simp add: sys_inv_def)
qed

lemma sys_inv_append_events:
  assumes "sys_inv s" "\<not> ms_panicked (sys_store s)"
    and "mem_append_events ctx now es (sys_store s) = (r, m, es')"
  shows "sys_inv (s\<lparr>sys_store := m\<rparr>)"
proof -
  have "mem_inv (sys_store s)" using assms by (simp add: sys_inv_def)
  from append_delivery [OF this assms(3)] mem_inv_append_events [OF this assms(3)]
  show ?thesis using sys_inv_deliver [OF assms(1,2)] by metis
qed

lemma sys_inv_unsubscribe:
  assumes inv: "sys_inv s" and np: "\<not> ms_panicked (sys_store s)"
  shows "sys_inv (s\<lparr>sys_store := mem_unsubscribe ch (sys_store s)\<rparr>)"
proof -
  let ?m = "sys_store s" and ?m' = "mem_unsubscribe ch (sys_store s)"
  have m: "mem_inv ?m" using inv np by (simp add: sys_inv_def)
  have "subs_ok ?m'"
    using m by (auto simp: mem_inv_def subs_ok_def mem_unsubscribe_def distinct_map_filter list_ex_iff
        dest!: set_update_subset_insert [THEN subsetD])
  moreover have "index_ok ?m' \<and> versions_ok ?m' \<and> seq_ok ?m' \<and> \<not> ms_panicked ?m'"
    using m by (simp add: mem_inv_def mem_unsubscribe_def index_ok_def versions_ok_def seq_ok_def
        stream_of_def current_version_def)
  ultimately have "mem_inv ?m'" by (simp add: mem_inv_def)
  moreover have "set (ms_event_subscribers ?m') \<subseteq> set (ms_event_subscribers ?m)"
    "length (ms_chans ?m') = length (ms_chans ?m)" "ms_events ?m' = ms_events ?m @ []"
    "\<forall>sub \<in> set (ms_event_subscribers ?m').
        ch_buf (ms_chans ?m' ! sub_channel sub) = ch_buf (ms_chans ?m ! sub_channel sub) @
          filter (\<lambda>e. matches_filter e (sub_filter sub)) []"
    using m by (auto simp: mem_unsubscribe_def)
  ultimately show ?thesis using sys_inv_deliver [OF inv np] by blast
qed

lemma sys_inv_tasks:
  "sys_inv s \<Longrightarrow> (\<And>t. \<not> ms_panicked (sys_store s) \<Longrightarrow> t \<in> set ts \<Longrightarrow> task_ok (sys_store s) t) \<Longrightarrow>
     sys_inv (s\<lparr>sys_tasks := ts\<rparr>)"
  by (auto simp: sys_inv_def delivery_ok_def delivered_def)

lemma sys_inv_snapshots:
  "sys_inv s \<Longrightarrow> \<not> ms_panicked (sys_store s) \<Longrightarrow>
     mem_create_snapshot ctx t a ty v d (sys_store s) = (r, m) \<Longrightarrow> sys_inv (s\<lparr>sys_store := m\<rparr>)"
  using sys_inv_deliver [of s m "[]"]
  by (auto simp: mem_create_snapshot_def sys_inv_def [of s] split: option.splits)

lemma sys_inv_close:
  "sys_inv s \<Longrightarrow> \<not> ms_panicked (sys_store s) \<Longrightarrow> sys_inv (s\<lparr>sys_store := mem_close (sys_store s)\<rparr>)"
  using sys_inv_deliver [of s "mem_close (sys_store s)" "[]"]
  by (auto simp: mem_close_def sys_inv_def [of s] mem_inv_def subs_ok_def index_ok_def versions_ok_def
      seq_ok_def stream_of_def current_version_def)

lemma sys_inv_subscribe:
  assumes inv: "sys_inv s" and np: "\<not> ms_panicked (sys_store s)"
    and sub: "mem_subscribe None f (sys_store s) = (Inr ch, m)"
  shows "sys_inv (s\<lparr>sys_store := m, sys_tasks := sys_tasks s @ subscribe_tasks ch f c,
      sys_start := (sys_start s)(ch := length (ms_events (sys_store s)))\<rparr>)"
proof -
  let ?m = "sys_store s"
  have m: "mem_inv ?m" and t: "\<forall>t \<in> set (sys_tasks s). task_ok ?m t" and d: "delivery_ok s"
    using inv np by (simp_all add: sys_inv_def)
  have ch: "ch = length (ms_chans ?m)"
    and m': "m = ?m\<lparr>ms_chans := ms_chans ?m @ [\<lparr>ch_buf = [], ch_closed = False\<rparr>],
      ms_event_subscribers := ms_event_subscribers ?m @ [\<lparr>sub_channel = ch, sub_filter = f\<rparr>]\<rparr>"
    using sub by (auto simp: mem_subscribe_def split: if_splits)
  have old: "sub_channel sub < ch" if "sub \<in> set (ms_event_subscribers ?m)" for sub
    using m that by (simp add: mem_inv_def subs_ok_def ch)
  have "subs_ok m"
    using m old by (auto simp: mem_inv_def subs_ok_def m' ch nth_append chan_cap_def less_Suc_eq)
  then have "mem_inv m"
    using m by (simp add: mem_inv_def m' index_ok_def versions_ok_def seq_ok_def stream_of_def
        current_version_def)
  moreover have "task_ok m t" if "t \<in> set (sys_tasks s)" for t
    using t that by (cases t) (auto simp: m' ch)
  moreover have "task_ok m t" if "t \<in> set (subscribe_tasks ch f c)" for t
    using that old by (fastforce simp: subscribe_tasks_def m' ch split: if_splits)
  moreover have "delivery_ok (s\<lparr>sys_store := m, sys_tasks := sys_tasks s @ subscribe_tasks ch f c,
      sys_start := (sys_start s)(ch := length (ms_events ?m))\<rparr>)"
    using d by (auto simp: delivery_ok_def delivered_def m' nth_append ch dest: old [unfolded ch])
  ultimately show ?thesis by (auto simp: sys_inv_def)
qed

text \<open>The store's channels change at one place only, by a buffer that stays within its bound.\<close>

lemma mem_inv_set_buf:
  assumes "mem_inv m" "length buf \<le> chan_cap"
  shows "mem_inv (m\<lparr>ms_chans := (ms_chans m)[ch := (ms_chans m ! ch)\<lparr>ch_buf := buf\<rparr>]\<rparr>)"
proof -
  have "ch_closed ((ms_chans m)[ch := (ms_chans m ! ch)\<lparr>ch_buf := buf\<rparr>] ! i) = ch_closed (ms_chans m ! i)"
    for i by (cases "ch < length (ms_chans m)") (auto simp: nth_list_update list_update_beyond)
  then have "subs_ok (m\<lparr>ms_chans := (ms_chans m)[ch := (ms_chans m ! ch)\<lparr>ch_buf := buf\<rparr>]\<rparr>)"
    using assms by (auto simp: mem_inv_def subs_ok_def dest!: set_update_subset_insert [THEN subsetD])
  with assms show ?thesis
    by (simp add: mem_inv_def index_ok_def versions_ok_def seq_ok_def stream_of_def current_version_def)
qed

lemma sys_inv_receive:
  assumes inv: "sys_inv s" and np: "\<not> ms_panicked (sys_store s)" and ch: "ch < length (ms_chans (sys_store s))"
    and chan: "ms_chans (sys_store s) ! ch = chan" "ch_buf chan = e # buf"
  shows "sys_inv (s\<lparr>sys_store := (sys_store s)\<lparr>ms_chans := (ms_chans (sys_store s))[ch := chan\<lparr>ch_buf := buf\<rparr>]\<rparr>,
      sys_received := (sys_received s)(ch := sys_received s ch @ [e])\<rparr>)"
    (is "sys_inv ?s'")
proof -
  let ?m = "sys_store s"
  have m: "mem_inv ?m" and t: "\<forall>t \<in> set (sys_tasks s). task_ok ?m t" and d: "delivery_ok s"
    using inv np by (simp_all add: sys_inv_def)
  have "chan \<in> set (ms_chans ?m)" using ch chan(1) by auto
  with m chan(2) have "length buf \<le> chan_cap"
    by (fastforce simp: mem_inv_def subs_ok_def)
  from mem_inv_set_buf [OF m this, of ch] have "mem_inv (sys_store ?s')" using chan(1) by simp
  moreover have "task_ok (sys_store ?s') t" if "t \<in> set (sys_tasks s)" for t
    using t that by (cases t) auto
  moreover have "delivered ?s' i = delivered s i" for i
    using chan ch by (auto simp: delivered_def nth_list_update)
  then have "delivery_ok ?s'"
    using d ch by (auto simp: delivery_ok_def)
  ultimately show ?thesis by (simp add: sys_inv_def)
qed

lemma sys_inv_replay_turn:
  assumes inv: "sys_inv s" and np: "\<not> ms_panicked (sys_store s)"
    and tasks: "sys_tasks s = ts1 @ Replay ch f c (e # es) # ts2"
    and turn: "replay_turn ch f c e es s (m, ts)"
  shows "sys_inv (s\<lparr>sys_store := m, sys_tasks := ts1 @ ts @ ts2\<rparr>)"
proof -
  let ?m = "sys_store s"
  have m: "mem_inv ?m" and t: "\<forall>t \<in> set (sys_tasks s). task_ok ?m t" and d: "delivery_ok s"
    using inv np by (simp_all add: sys_inv_def)
  have me: "task_ok ?m (Replay ch f c es)" using t tasks by auto
  have other: "sub_channel sub \<noteq> ch" if "sub \<in> set (ms_event_subscribers ?m)" "f_from_seq (sub_filter sub) \<noteq> None"
    for sub using me that by auto
  have rest: "task_ok ?m t" if "t \<in> set (ts1 @ Replay ch f c es # ts2)" for t
    using t that me unfolding tasks by auto
  from turn show ?thesis
  proof cases
    case (send chan)
    then have "mem_inv m" using mem_inv_set_buf [OF m, of "ch_buf chan @ [e]" ch] by simp
    moreover have "task_ok m t" if "t \<in> set (ts1 @ ts @ ts2)" for t
      using rest [of t] that send by (cases t) auto
    moreover have "delivery_ok (s\<lparr>sys_store := m, sys_tasks := ts1 @ ts @ ts2\<rparr>)"
      using d other send by (fastforce simp: delivery_ok_def delivered_def)
    ultimately show ?thesis by (simp add: sys_inv_def)
  next
    case send_panic
    then show ?thesis by (simp add: sys_inv_def)
  qed (use m rest d in \<open>auto simp: sys_inv_def delivery_ok_def delivered_def\<close>)
qed

theorem sys_inv_step:
  assumes "sys_step s s'" "sys_inv s"
  shows "sys_inv s'"
  using assms
proof cases
  case (append_event ctx t e r m e')
  from append_event(3) show ?thesis
  proof (cases rule: append_event_cases)
    case 1
    with assms(2) append_event show ?thesis by simp
  next
    case 2
    with sys_inv_append_events assms(2) append_event show ?thesis by blast
  qed
next
  case (replay_start ts1 ch f c ts2)
  then show ?thesis using assms(2) by (auto intro!: sys_inv_tasks simp: sys_inv_def)
next
  case (cleanup ts1 ch c ts2)
  have "sys_inv (s\<lparr>sys_store := mem_unsubscribe ch (sys_store s)\<rparr>)"
    by (rule sys_inv_unsubscribe [OF assms(2) cleanup(2)])
  from sys_inv_tasks [OF this, of "ts1 @ ts2"] this cleanup show ?thesis
    by (auto simp: sys_inv_def)
next
  case (replay_end ts1 ch f c ts2)
  then show ?thesis using assms(2) by (auto intro!: sys_inv_tasks simp: sys_inv_def)
next
  case (cancel c)
  then show ?thesis using assms(2) by (auto simp: sys_inv_def delivery_ok_def delivered_def)
qed (auto intro: sys_inv_append_events sys_inv_snapshots sys_inv_close sys_inv_subscribe
      sys_inv_receive sys_inv_replay_turn assms(2))

lemma sys_inv_reachable: "sys_reachable s \<Longrightarrow> sys_inv s"
  by (induction rule: sys_reachable.induct) (auto intro: sys_inv_init sys_inv_step)

section \<open>Properties\<close>

text \<open>C9: whatever the interleaving of appends, subscriptions, cancelled contexts, goroutines and
  consumers, as long as the process runs the store satisfies its invariant: indexes, versions and
  sequence numbers agree with the log, the channels of the registered subscribers are open, distinct
  and within their capacity.\<close>

theorem reachable_store_invariant:
  "sys_reachable s \<Longrightarrow> \<not> ms_panicked (sys_store s) \<Longrightarrow> mem_inv (sys_store s)"
  using sys_inv_reachable [of s] by (simp add: sys_inv_def)

lemma reachable_store_invariant_witness: "mem_inv (sys_store initial_system)"
  by (rule reachable_store_invariant)
    (simp_all add: sys_reachable.init, simp add: initial_system_def new_memory_event_store_def)

text \<open>C12: a subscriber that gave a sequence number (and so asked for no replay), as long as it is
  registered, has been sent exactly the events appended since it subscribed that match its filter,
  each once, in order: those its consumer has received and those still in its channel.\<close>

theorem subscriber_gets_all:
  assumes "sys_reachable s" "\<not> ms_panicked (sys_store s)"
    and "sub \<in> set (ms_event_subscribers (sys_store s))" "f_from_seq (sub_filter sub) \<noteq> None"
  shows "sys_received s (sub_channel sub) @ ch_buf (ms_chans (sys_store s) ! sub_channel sub) =
    filter (\<lambda>e. matches_filter e (sub_filter sub))
      (drop (sys_start s (sub_channel sub)) (ms_events (sys_store s)))"
  using sys_inv_reachable [OF assms(1)] assms(2-4)
  by (simp add: sys_inv_def delivery_ok_def delivered_def)

text \<open>The steps below are taken on concrete states; \<open>subscribed f\<close> is the first subscription.\<close>

definition subscribed :: "event_filter \<Rightarrow> system" where
  "subscribed f = initial_system\<lparr>sys_store := snd (mem_subscribe None f new_memory_event_store),
     sys_tasks := subscribe_tasks 0 f 0\<rparr>"

lemma subscribed_reachable: "sys_reachable (subscribed f)"
proof -
  have "mem_subscribe None f (sys_store initial_system) =
      (Inr 0, snd (mem_subscribe None f new_memory_event_store))"
    by (simp add: initial_system_def mem_subscribe_def new_memory_event_store_def)
  from sys_step.subscribe [OF _ this, of 0]
  have "sys_step initial_system (subscribed f)"
    by (simp add: initial_system_def subscribed_def new_memory_event_store_def fun_upd_def)
  then show ?thesis by (rule sys_reachable.step [OF sys_reachable.init])
qed

lemma subscribed_simps:
  "ms_chans (sys_store (subscribed f)) = [\<lparr>ch_buf = [], ch_closed = False\<rparr>]"
  "ms_event_subscribers (sys_store (subscribed f)) = [\<lparr>sub_channel = 0, sub_filter = f\<rparr>]"
  "ms_subscribers (sys_store (subscribed f)) = []" "ms_events (sys_store (subscribed f)) = []"
  "ms_panicked (sys_store (subscribed f)) = False" "ms_closed (sys_store (subscribed f)) = False"
  "ms_seq (sys_store (subscribed f)) = 0" "ms_versions (sys_store (subscribed f)) = Map.empty"
  "sys_tasks (subscribed f) = subscribe_tasks 0 f 0" "sys_done (subscribed f) = []"
  "sys_received (subscribed f) = (\<lambda>_. [])" "sys_start (subscribed f) = (\<lambda>_. 0)"
  by (simp_all add: subscribed_def initial_system_def mem_subscribe_def new_memory_event_store_def)

lemma subscriber_gets_all_witness:
  "sys_received (subscribed (no_filter\<lparr>f_from_seq := Some 0\<rparr>)) 0 @
     ch_buf (ms_chans (sys_store (subscribed (no_filter\<lparr>f_from_seq := Some 0\<rparr>))) ! 0) = []"
  using subscriber_gets_all [OF subscribed_reachable, of "no_filter\<lparr>f_from_seq := Some 0\<rparr>"
      "\<lparr>sub_channel = 0, sub_filter = no_filter\<lparr>f_from_seq := Some 0\<rparr>\<rparr>"]
  by (simp add: subscribed_simps)

text \<open>The state after one event has been appended to \<open>subscribed no_filter\<close>.\<close>

definition appended_event :: event where
  "appended_event = stamp 7 1 1 (example_event ''w'' 0)"

definition after_append :: system where
  "after_append = (subscribed no_filter)\<lparr>sys_store :=
     fst (snd (mem_append_events None (\<lambda>_. 7) [example_event ''w'' 0] (sys_store (subscribed no_filter))))\<rparr>"

lemma after_append_reachable: "sys_reachable after_append"
proof -
  obtain r m es' where
    "mem_append_events None (\<lambda>_. 7) [example_event ''w'' 0] (sys_store (subscribed no_filter)) = (r, m, es')"
    by (cases "mem_append_events None (\<lambda>_. 7) [example_event ''w'' 0] (sys_store (subscribed no_filter))")
      auto
  with sys_step.append_events [OF _ this] subscribed_reachable show ?thesis
    by (auto simp: after_append_def subscribed_simps intro: sys_reachable.step)
qed

lemma matches_no_filter [simp]: "matches_filter e no_filter"
  by (simp add: matches_filter_def no_filter_def)

lemma after_append_simps:
  "ms_events (sys_store after_append) = [appended_event]"
  "ms_chans (sys_store after_append) = [\<lparr>ch_buf = [appended_event], ch_closed = False\<rparr>]"
  "ms_event_subscribers (sys_store after_append) = [\<lparr>sub_channel = 0, sub_filter = no_filter\<rparr>]"
  "ms_panicked (sys_store after_append) = False"
  "sys_tasks after_append = [Replay_Start 0 no_filter 0, Cleanup 0 0]" "sys_done after_append = []"
  "sys_received after_append = (\<lambda>_. [])"
proof -
  have sub: "subscribe_tasks 0 no_filter 0 = [Replay_Start 0 no_filter 0, Cleanup 0 0]"
    by (simp add: subscribe_tasks_def no_filter_def)
  have own: "ev_version (example_event ''w'' 0) = 0" "ev_aggregate_id (example_event ''w'' 0) = ''w''"
    by (simp_all add: example_event_def)
  show "ms_events (sys_store after_append) = [appended_event]"
    "ms_chans (sys_store after_append) = [\<lparr>ch_buf = [appended_event], ch_closed = False\<rparr>]"
    "ms_event_subscribers (sys_store after_append) = [\<lparr>sub_channel = 0, sub_filter = no_filter\<rparr>]"
    "ms_panicked (sys_store after_append) = False"
    "sys_tasks after_append = [Replay_Start 0 no_filter 0, Cleanup 0 0]" "sys_done after_append = []"
    "sys_received after_append = (\<lambda>_. [])"
    by (simp_all add: after_append_def subscribed_simps mem_append_events_def own Let_def
        current_version_def store_event_def notify_subscribers_def add_event_def send_or_close_def
        chan_cap_def appended_event_def sub)
qed

text \<open>An event appended between \<open>Subscribe\<close> and the moment the replay goroutine copies the log
  is sent twice, once by the append and once by the replay.\<close>

theorem replay_duplicates:
  "\<exists>s. sys_reachable s \<and> ms_events (sys_store s) = [appended_event] \<and>
     ch_buf (ms_chans (sys_store s) ! 0) = [appended_event, appended_event]"
proof -
  let ?s1 = "after_append\<lparr>sys_tasks := [Replay 0 no_filter 0 [appended_event], Cleanup 0 0]\<rparr>"
  have 1: "sys_step after_append ?s1"
    using sys_step.replay_start [of after_append "[]" 0 no_filter 0 "[Cleanup 0 0]"]
    by (simp add: after_append_simps)
  let ?m = "(sys_store ?s1)\<lparr>ms_chans := [\<lparr>ch_buf = [appended_event, appended_event], ch_closed = False\<rparr>]\<rparr>"
  have "replay_turn 0 no_filter 0 appended_event [] ?s1 (?m, [Replay 0 no_filter 0 []])"
    using replay_turn.send [of appended_event no_filter "\<lparr>ch_buf = [appended_event], ch_closed = False\<rparr>" ?s1 0 0 "[]"]
    by (simp add: after_append_simps chan_cap_def)
  from sys_step.replay_turn [where ?ts1.0 = "[]", OF _ _ this]
  have "sys_step ?s1 (?s1\<lparr>sys_store := ?m, sys_tasks := [Replay 0 no_filter 0 [], Cleanup 0 0]\<rparr>)"
    by (simp add: after_append_simps)
  with 1 after_append_reachable have
    "sys_reachable (?s1\<lparr>sys_store := ?m, sys_tasks := [Replay 0 no_filter 0 [], Cleanup 0 0]\<rparr>)"
    by (blast intro: sys_reachable.step)
  then show ?thesis by (intro exI conjI) (assumption, simp_all add: after_append_simps)
qed

text \<open>The replay goroutine sends without the mutex on a channel that the clean-up of the same
  subscription closes, so ending the context while the replay runs can panic.  This is the only
  operation that can: the ones of C4 keep the channels they send on open.\<close>

theorem replay_panics:
  "\<exists>s. sys_reachable s \<and> ms_panicked (sys_store s)"
proof -
  let ?s1 = "after_append\<lparr>sys_tasks := [Replay 0 no_filter 0 [appended_event], Cleanup 0 0]\<rparr>"
  let ?s2 = "?s1\<lparr>sys_done := [0]\<rparr>"
  let ?s3 = "?s2\<lparr>sys_store := mem_unsubscribe 0 (sys_store ?s2), sys_tasks := [Replay 0 no_filter 0 [appended_event]]\<rparr>"
  have 1: "sys_step after_append ?s1"
    using sys_step.replay_start [of after_append "[]" 0 no_filter 0 "[Cleanup 0 0]"]
    by (simp add: after_append_simps)
  have 2: "sys_step ?s1 ?s2"
    using sys_step.cancel [of ?s1 0] by (simp add: after_append_simps)
  have 3: "sys_step ?s2 ?s3"
    using sys_step.cleanup [of ?s2 "[Replay 0 no_filter 0 [appended_event]]" 0 0 "[]"]
    by (simp add: after_append_simps)
  have closed: "ch_closed (ms_chans (sys_store ?s3) ! 0)" "\<not> ms_panicked (sys_store ?s3)"
    by (simp_all add: mem_unsubscribe_def after_append_simps)
  from sys_step.replay_turn [where ?ts1.0 = "[]", OF closed(2) _ replay_turn.send_panic [OF _ closed(1)]]
  have "sys_step ?s3 (?s3\<lparr>sys_store := (sys_store ?s3)\<lparr>ms_panicked := True\<rparr>, sys_tasks := []\<rparr>)"
    by simp
  with 1 2 3 after_append_reachable
  have "sys_reachable (?s3\<lparr>sys_store := (sys_store ?s3)\<lparr>ms_panicked := True\<rparr>, sys_tasks := []\<rparr>)"
    by (blast intro: sys_reachable.step)
  then show ?thesis by (intro exI conjI) (assumption, simp)
qed

end
