(* ===== verification/Aggregate_Repository.thy ===== *)
theory Aggregate_Repository
  imports Aggregates Memory_Subscriptions
begin

text \<open>
  \<open>AggregateRepository\<close> and \<open>EventRouter\<close> of \<open>pkg/eventstore/aggregate.go\<close>: saving and
  loading of aggregates through an event store.  The repository is written against two Go
  interfaces, so its definitions take two records of operations: the event store (\<open>ES\<close>) and the
  aggregate (\<open>AO\<close>).  Its laws are stated for every store that keeps the contract
  \<open>event_store\<close>, and used on the in-memory one.
\<close>

section \<open>The Aggregate interface\<close>

text \<open>
  \<open>ag_put_uncommitted\<close> is no method: the store and the repository write into the events the
  aggregate has queued, through the shared pointers, and this puts the written events back.
\<close>

record 'a aggregate_ops =
  ag_id :: "'a \<Rightarrow> string"
  ag_type :: "'a \<Rightarrow> string"
  ag_version :: "'a \<Rightarrow> int"
  ag_set_version :: "int \<Rightarrow> 'a \<Rightarrow> 'a"
  ag_apply :: "event \<Rightarrow> 'a \<Rightarrow> go_error option \<times> 'a"
  ag_uncommitted :: "'a \<Rightarrow> event list"
  ag_put_uncommitted :: "event list \<Rightarrow> 'a \<Rightarrow> 'a"
  ag_mark_committed :: "'a \<Rightarrow> 'a"
  ag_create_snapshot :: "'a \<Rightarrow> json go_result"
  ag_load_snapshot :: "json \<Rightarrow> 'a \<Rightarrow> go_error option \<times> 'a"

definition wallet_ops :: "wallet_aggregate aggregate_ops" where
  "wallet_ops = \<lparr>ag_id = agg_id, ag_type = (\<lambda>_. ''wallet''), ag_version = agg_version,
     ag_set_version = (\<lambda>v w. w\<lparr>agg_version := v\<rparr>), ag_apply = wallet_apply_event,
     ag_uncommitted = agg_uncommitted, ag_put_uncommitted = (\<lambda>es w. w\<lparr>agg_uncommitted := es\<rparr>),
     ag_mark_committed = mark_events_as_committed, ag_create_snapshot = wallet_create_snapshot,
     ag_load_snapshot = wallet_load_snapshot\<rparr>"

definition payment_ops :: "payment_aggregate aggregate_ops" where
  "payment_ops = \<lparr>ag_id = agg_id, ag_type = (\<lambda>_. ''payment''), ag_version = agg_version,
     ag_set_version = (\<lambda>v p. p\<lparr>agg_version := v\<rparr>), ag_apply = payment_apply_event,
     ag_uncommitted = agg_uncommitted, ag_put_uncommitted = (\<lambda>es p. p\<lparr>agg_uncommitted := es\<rparr>),
     ag_mark_committed = mark_events_as_committed, ag_create_snapshot = payment_create_snapshot,
     ag_load_snapshot = payment_load_snapshot\<rparr>"

section \<open>The repository\<close>

definition should_create_snapshot :: "'a aggregate_ops \<Rightarrow> int \<Rightarrow> 'a \<Rightarrow> bool" where
  "should_create_snapshot AO freq a = (if freq \<le> 0 then False else ag_version AO a mod freq = 0)"

definition repo_create_snapshot ::
  "'s event_store_ops \<Rightarrow> 'a aggregate_ops \<Rightarrow> ctx_err \<Rightarrow> time \<Rightarrow> 'a \<Rightarrow> 's \<Rightarrow> go_error option \<times> 's" where
  "repo_create_snapshot ES AO ctx now a s =
     (case ag_create_snapshot AO a of
        Inl x \<Rightarrow> (Some (''failed to create snapshot data: '' @ x), s)
      | Inr d \<Rightarrow> es_create_snapshot ES ctx now (ag_id AO a) (ag_type AO a) (ag_version AO a) d s)"

text \<open>
  What \<open>Save\<close> meets: the context at the append and at the snapshot, the clock at both, and the two
  arguments it writes into the events.
\<close>

record save_env =
  se_ctx_append :: ctx_err
  se_ctx_snapshot :: ctx_err
  se_now :: "nat \<Rightarrow> time"
  se_now_snapshot :: time
  se_caused_by :: string
  se_correlation_id :: string

definition with_metadata :: "'a aggregate_ops \<Rightarrow> save_env \<Rightarrow> 'a \<Rightarrow> event \<Rightarrow> event" where
  "with_metadata AO env a e = e\<lparr>ev_aggregate_id := ag_id AO a, ev_aggregate_type := ag_type AO a,
     ev_caused_by := se_caused_by env, ev_correlation_id := se_correlation_id env\<rparr>"

text \<open>A failed snapshot only prints a warning.\<close>

definition repo_save ::
  "'s event_store_ops \<Rightarrow> 'a aggregate_ops \<Rightarrow> int \<Rightarrow> save_env \<Rightarrow> 'a \<Rightarrow> 's \<Rightarrow> go_error option \<times> 'a \<times> 's" where
  "repo_save ES AO freq env a s =
     (if ag_uncommitted AO a = [] then (None, a, s)
      else
        let es = map (with_metadata AO env a) (ag_uncommitted AO a)
        in case es_append_events ES (se_ctx_append env) (se_now env) es s of
             (Some x, s', es') \<Rightarrow>
               (Some (''failed to save aggregate events: '' @ x), ag_put_uncommitted AO es' a, s')
           | (None, s', es') \<Rightarrow>
               let a' = ag_mark_committed AO (ag_put_uncommitted AO es' a)
               in if should_create_snapshot AO freq a'
                  then (None, a', snd (repo_create_snapshot ES AO (se_ctx_snapshot env)
                                         (se_now_snapshot env) a' s'))
                  else (None, a', s'))"

text \<open>The loop that applies the loaded events.\<close>

fun apply_events :: "'a aggregate_ops \<Rightarrow> event list \<Rightarrow> 'a \<Rightarrow> 'a go_result" where
  "apply_events AO [] a = Inr a"
| "apply_events AO (e # es) a =
     (case ag_apply AO e a of
        (Some x, _) \<Rightarrow> Inl (''failed to apply event '' @ ev_id e @ '' to aggregate: '' @ x)
      | (None, a') \<Rightarrow> apply_events AO es (ag_set_version AO (ev_version e) a'))"

text \<open>The snapshot part of both loads: the aggregate and the version to read on from.\<close>

definition start_from_snapshot ::
  "'a aggregate_ops \<Rightarrow> snapshot option \<Rightarrow> 'a \<Rightarrow> ('a \<times> int) go_result" where
  "start_from_snapshot AO sn a =
     (case sn of None \<Rightarrow> Inr (a, 0)
      | Some sn \<Rightarrow>
         (case ag_load_snapshot AO (sn_data sn) a of
            (Some x, _) \<Rightarrow> Inl (''failed to load from snapshot: '' @ x)
          | (None, a') \<Rightarrow> Inr (ag_set_version AO (sn_version sn) a', sn_version sn + 1)))"

definition repo_load ::
  "'s event_store_ops \<Rightarrow> 'a aggregate_ops \<Rightarrow> ctx_err \<Rightarrow> ctx_err \<Rightarrow> string \<Rightarrow> 'a \<Rightarrow> 's \<Rightarrow> 'a go_result" where
  "repo_load ES AO ctx1 ctx2 i factory s =
     (case es_get_snapshot ES ctx1 i s of
        Inl x \<Rightarrow> Inl (''failed to get snapshot: '' @ x)
      | Inr sn \<Rightarrow>
         rbind (start_from_snapshot AO sn factory) (\<lambda>(a, from_version).
           (case es_get_by_aggregate ES ctx2 i from_version s of
              Inl x \<Rightarrow> Inl (''failed to get events for aggregate: '' @ x)
            | Inr es \<Rightarrow> apply_events AO es a)))"

definition repo_load_version ::
  "'s event_store_ops \<Rightarrow> 'a aggregate_ops \<Rightarrow> ctx_err \<Rightarrow> ctx_err \<Rightarrow> string \<Rightarrow> int \<Rightarrow> 'a \<Rightarrow> 's \<Rightarrow> 'a go_result" where
  "repo_load_version ES AO ctx1 ctx2 i version factory s =
     (case es_get_snapshot ES ctx1 i s of
        Inl x \<Rightarrow> Inl (''failed to get snapshot: '' @ x)
      | Inr sn \<Rightarrow>
         let sn' = (case sn of Some sn \<Rightarrow> if sn_version sn \<le> version then Some sn else None | None \<Rightarrow> None)
         in rbind (start_from_snapshot AO sn' factory) (\<lambda>(a, from_version).
           (case es_get_events ES ctx2 (no_filter\<lparr>f_aggregate_id := Some i,
                   f_from_version := Some from_version, f_to_version := Some version\<rparr>) s of
              Inl x \<Rightarrow> Inl (''failed to get events for aggregate: '' @ x)
            | Inr es \<Rightarrow> apply_events AO es a)))"

definition repo_exists :: "'s event_store_ops \<Rightarrow> ctx_err \<Rightarrow> string \<Rightarrow> 's \<Rightarrow> bool go_result" where
  "repo_exists ES ctx i s =
     (case es_aggregate_version ES ctx i s of
        Inl x \<Rightarrow> Inl (''failed to check aggregate existence: '' @ x)
      | Inr v \<Rightarrow> Inr (v > 0))"

definition repo_get_version :: "'s event_store_ops \<Rightarrow> ctx_err \<Rightarrow> string \<Rightarrow> 's \<Rightarrow> int go_result" where
  "repo_get_version ES ctx i s = es_aggregate_version ES ctx i s"

section \<open>The event router\<close>

text \<open>An applier works on the aggregate by pointer: it returns the changed aggregate.\<close>

type_synonym 'a appliers = "string \<rightharpoonup> (event \<Rightarrow> 'a \<Rightarrow> go_error option \<times> 'a)"

definition new_event_router :: "'a appliers" where
  "new_event_router = Map.empty"

definition register_applier ::
  "string \<Rightarrow> (event \<Rightarrow> 'a \<Rightarrow> go_error option \<times> 'a) \<Rightarrow> 'a appliers \<Rightarrow> 'a appliers" where
  "register_applier ty f r = r(ty \<mapsto> f)"

definition router_apply :: "'a appliers \<Rightarrow> event \<Rightarrow> 'a \<Rightarrow> go_error option \<times> 'a" where
  "router_apply r e a =
     (case r (ev_type e) of
        None \<Rightarrow> (Some (''no applier registered for event type: '' @ ev_type e), a)
      | Some f \<Rightarrow> f e a)"

lemma with_metadata_simps [simp]:
  "ev_aggregate_id (with_metadata AO env a e) = ag_id AO a"
  "ev_version (with_metadata AO env a e) = ev_version e"
  "ev_type (with_metadata AO env a e) = ev_type e" "ev_data (with_metadata AO env a e) = ev_data e"
  by (simp_all add: with_metadata_def)

lemma versions_fit_metadata [simp]:
  "versions_fit v (map (with_metadata AO env a) es) = versions_fit v es"
  by (induction es arbitrary: v) simp_all

section \<open>The contract of an aggregate\<close>

text \<open>
  \<open>state a\<close> is what \<open>a\<close> stands for, without its version and its queue.  Applying an event
  depends on the state only, and a snapshot restores it.
\<close>

locale aggregate =
  fixes AO :: "'a aggregate_ops" and state :: "'a \<Rightarrow> 'd"
  assumes version_set [simp]: "ag_version AO (ag_set_version AO v a) = v"
    and state_set [simp]: "state (ag_set_version AO v a) = state a"
    and apply_cong: "state a = state b \<Longrightarrow> ag_apply AO e a = (r, a') \<Longrightarrow> ag_apply AO e b = (r', b') \<Longrightarrow>
      r' = r \<and> state b' = state a'"
    and snapshot_restores: "ag_create_snapshot AO a = Inr d \<Longrightarrow>
      \<exists>b'. ag_load_snapshot AO d b = (None, b') \<and> state b' = state a"
    and uncommitted_put [simp]: "ag_uncommitted AO (ag_put_uncommitted AO es a) = es"
    and uncommitted_mark [simp]: "ag_uncommitted AO (ag_mark_committed AO a) = []"
    and state_queue [simp]: "state (ag_put_uncommitted AO es a) = state a"
      "state (ag_mark_committed AO a) = state a"
    and version_queue [simp]: "ag_version AO (ag_put_uncommitted AO es a) = ag_version AO a"
      "ag_version AO (ag_mark_committed AO a) = ag_version AO a"
    and id_queue [simp]: "ag_id AO (ag_put_uncommitted AO es a) = ag_id AO a"
      "ag_id AO (ag_mark_committed AO a) = ag_id AO a"
begin

lemma apply_events_append:
  "apply_events AO (es @ fs) a = rbind (apply_events AO es a) (apply_events AO fs)"
  by (induction es arbitrary: a) (auto split: prod.split option.split)

lemma apply_events_cong:
  "state a = state b \<Longrightarrow> apply_events AO es a = Inr a' \<Longrightarrow>
     \<exists>b'. apply_events AO es b = Inr b' \<and> state b' = state a'"
proof (induction es arbitrary: a b)
  case Nil
  then show ?case by simp
next
  case (Cons e es)
  obtain r1 a1 where a1: "ag_apply AO e a = (r1, a1)" by fastforce
  obtain r2 b1 where b1: "ag_apply AO e b = (r2, b1)" by fastforce
  have st: "r2 = r1" "state b1 = state a1" using apply_cong [OF Cons.prems(1) a1 b1] by simp_all
  have r1: "r1 = None" using Cons.prems(2) a1 by (cases r1) auto
  have "state (ag_set_version AO (ev_version e) a1) = state (ag_set_version AO (ev_version e) b1)"
    using st by simp
  from Cons.IH [OF this] Cons.prems(2) a1 b1 st r1 show ?case by auto
qed

lemma apply_events_version:
  "apply_events AO es a = Inr a' \<Longrightarrow> es \<noteq> [] \<Longrightarrow> ag_version AO a' = ev_version (last es)"
proof (induction es arbitrary: a)
  case Nil
  then show ?case by simp
next
  case (Cons e es)
  then show ?case by (cases es) (auto split: prod.splits option.splits)
qed

end

section \<open>Loading is replaying\<close>

text \<open>What loading needs: a log to read, aggregates with their contract.\<close>

locale aggregate_loader = event_log ES inv stream snap + aggregate AO state
  for ES :: "'s event_store_ops" and inv stream snap
    and AO :: "'a aggregate_ops" and state :: "'a \<Rightarrow> 'd"
begin

text \<open>
  A snapshot that stands for a prefix of the stream: its version counts the events of the prefix,
  its data restore what replaying them gives.
\<close>

definition snapshot_sound :: "'s \<Rightarrow> 'a \<Rightarrow> string \<Rightarrow> bool" where
  "snapshot_sound s factory i = (case snap s i of None \<Rightarrow> True
     | Some sn \<Rightarrow> 0 \<le> sn_version sn \<and> sn_version sn \<le> int (length (stream s i)) \<and>
        (\<exists>a b. apply_events AO (take (nat (sn_version sn)) (stream s i)) factory = Inr a \<and>
           ag_load_snapshot AO (sn_data sn) factory = (None, b) \<and> state b = state a))"

lemma load_is_replay:
  assumes "inv s" "snapshot_sound s factory i" "apply_events AO (stream s i) factory = Inr a"
    and "ag_version AO factory = 0"
  shows "\<exists>b. repo_load ES AO None None i factory s = Inr b \<and> state b = state a \<and>
     ag_version AO b = int (length (stream s i))"
proof (cases "snap s i")
  case None
  have "ag_version AO a = int (length (stream s i))"
  proof (cases "stream s i = []")
    case True
    with assms show ?thesis by simp
  next
    case False
    with apply_events_version [OF assms(3)] counts_from_last [OF stream_versions [OF assms(1)], of i]
    show ?thesis by (simp add: last_map)
  qed
  then show ?thesis
    using assms(3) by (simp add: repo_load_def get_snapshot [OF assms(1)] None start_from_snapshot_def
        read_from [OF assms(1)])
next
  case (Some sn)
  let ?n = "nat (sn_version sn)"
  from assms(2) Some obtain p b where sn: "0 \<le> sn_version sn" "sn_version sn \<le> int (length (stream s i))"
    and p: "apply_events AO (take ?n (stream s i)) factory = Inr p"
    and b: "ag_load_snapshot AO (sn_data sn) factory = (None, b)" "state b = state p"
    by (auto simp: snapshot_sound_def)
  have "apply_events AO (drop ?n (stream s i)) p = Inr a"
    using assms(3) p apply_events_append [of "take ?n (stream s i)" "drop ?n (stream s i)" factory] by simp
  moreover have "state p = state (ag_set_version AO (sn_version sn) b)" using b(2) by simp
  ultimately obtain c where c: "apply_events AO (drop ?n (stream s i)) (ag_set_version AO (sn_version sn) b) = Inr c"
    "state c = state a"
    using apply_events_cong by blast
  have "ag_version AO c = int (length (stream s i))"
  proof (cases "drop ?n (stream s i) = []")
    case True
    with c(1) have "c = ag_set_version AO (sn_version sn) b" by simp
    with True sn show ?thesis by simp
  next
    case False
    then have "stream s i \<noteq> []" by auto
    with False apply_events_version [OF c(1)] counts_from_last [OF stream_versions [OF assms(1)], of i]
    show ?thesis by (simp add: last_map)
  qed
  with c show ?thesis
    using sn(1) by (simp add: repo_load_def get_snapshot [OF assms(1)] Some start_from_snapshot_def b(1)
        read_from [OF assms(1)])
qed

lemma last_version:
  "inv s \<Longrightarrow> 0 < n \<Longrightarrow> n \<le> length (stream s i) \<Longrightarrow>
     ev_version (last (take n (stream s i))) = int n"
  using stream_nth_version [of s "n - 1" i] last_conv_nth [of "take n (stream s i)"]
  by (fastforce simp: min_def)

text \<open>Loading a version replays as many events.\<close>

lemma load_version_is_replay:
  assumes inv: "inv s" and sound: "snapshot_sound s factory i"
    and a: "apply_events AO (take n (stream s i)) factory = Inr a"
    and n: "n \<le> length (stream s i)" and zero: "ag_version AO factory = 0"
  shows "\<exists>b. repo_load_version ES AO None None i (int n) factory s = Inr b \<and> state b = state a \<and>
     ag_version AO b = int n"
proof -
  consider (plain) "(case snap s i of Some sn \<Rightarrow> if sn_version sn \<le> int n then Some sn else None | None \<Rightarrow> None) = None"
    | (snapshot) sn where "snap s i = Some sn" "sn_version sn \<le> int n"
  proof (cases "snap s i")
    case None
    then show thesis by (intro that(1)) simp
  next
    case (Some sn)
    then show thesis by (cases "sn_version sn \<le> int n") (use that in auto)
  qed
  then show ?thesis
  proof cases
    case plain
    have "ag_version AO a = int n"
    proof (cases "n = 0")
      case True
      with a zero show ?thesis by simp
    next
      case False
      then have "take n (stream s i) \<noteq> []" using n by auto
      with False apply_events_version [OF a] last_version [OF inv _ n] show ?thesis by simp
    qed
    with a show ?thesis
      by (simp add: repo_load_version_def get_snapshot [OF inv] plain start_from_snapshot_def
          read_range [OF inv])
  next
    case (snapshot sn)
    let ?k = "nat (sn_version sn)"
    from sound snapshot obtain p b where sn: "0 \<le> sn_version sn"
      and p: "apply_events AO (take ?k (stream s i)) factory = Inr p"
      and b: "ag_load_snapshot AO (sn_data sn) factory = (None, b)" "state b = state p"
      by (auto simp: snapshot_sound_def)
    have "take ?k (take n (stream s i)) = take ?k (stream s i)"
      using snapshot(2) by (simp add: min_def nat_le_iff)
    then have "apply_events AO (take n (stream s i)) factory =
        rbind (apply_events AO (take ?k (stream s i)) factory)
          (apply_events AO (drop ?k (take n (stream s i))))"
      using apply_events_append [of "take ?k (take n (stream s i))" "drop ?k (take n (stream s i))" factory]
      by (metis append_take_drop_id)
    with a p have "apply_events AO (drop ?k (take n (stream s i))) p = Inr a" by simp
    moreover have "state p = state (ag_set_version AO (sn_version sn) b)" using b(2) by simp
    ultimately obtain c where c:
      "apply_events AO (drop ?k (take n (stream s i))) (ag_set_version AO (sn_version sn) b) = Inr c"
      "state c = state a"
      using apply_events_cong by blast
    have "ag_version AO c = int n"
    proof (cases "drop ?k (take n (stream s i)) = []")
      case True
      with c(1) have "c = ag_set_version AO (sn_version sn) b" by simp
      with True sn snapshot(2) n show ?thesis by simp
    next
      case False
      then have "?k < length (take n (stream s i))" by (simp only: drop_eq_Nil not_le)
      then have "last (drop ?k (take n (stream s i))) = last (take n (stream s i))" by (rule last_drop)
      moreover have "0 < n" using False by (cases n) auto
      ultimately show ?thesis
        using apply_events_version [OF c(1) False] last_version [OF inv _ n] by simp
    qed
    with c show ?thesis
      using sn snapshot by (simp add: repo_load_version_def get_snapshot [OF inv] start_from_snapshot_def b(1)
          read_range [OF inv])
  qed
qed

end

text \<open>The repository's client view: a store with its contract, aggregates with theirs.\<close>

locale aggregate_repository = event_store ES inv usable stream snap + aggregate_loader ES inv stream snap AO state
  for ES :: "'s event_store_ops" and inv usable stream snap
    and AO :: "'a aggregate_ops" and state :: "'a \<Rightarrow> 'd"
begin

lemma repo_create_snapshot_frame:
  assumes "inv s" "repo_create_snapshot ES AO ctx now a s = (r, s')"
  shows "inv s' \<and> usable s' = usable s \<and> stream s' = stream s"
proof (cases "ag_create_snapshot AO a")
  case (Inl x)
  with assms show ?thesis by (simp add: repo_create_snapshot_def)
next
  case (Inr d)
  with assms(2) have e: "es_create_snapshot ES ctx now (ag_id AO a) (ag_type AO a) (ag_version AO a) d s = (r, s')"
    by (simp add: repo_create_snapshot_def)
  show ?thesis
  proof (cases r)
    case None
    from create_snapshot_ok [OF assms(1) e [unfolded None]] show ?thesis by simp
  next
    case (Some x)
    from create_snapshot_error [OF assms(1) e [unfolded Some]] show ?thesis by simp
  qed
qed

text \<open>
  A save that reports success has appended exactly the queued events to the stream of the aggregate;
  one that fails has appended nothing.  It succeeds just when the versions of the queued events are
  the next ones.
\<close>

lemma save_ok:
  assumes inv: "inv s" and save: "repo_save ES AO freq env a s = (None, a', s')"
    and ne: "ag_uncommitted AO a \<noteq> []" and i: "i = ag_id AO a"
  shows "inv s' \<and> usable s' = usable s \<and>
      (\<exists>es'. list_all2 same_content (map (with_metadata AO env a) (ag_uncommitted AO a)) es' \<and>
        stream s' = (stream s)(i := stream s i @ es')) \<and> ag_uncommitted AO a' = [] \<and>
      ag_version AO a' = ag_version AO a \<and> state a' = state a \<and> ag_id AO a' = ag_id AO a \<and>
      versions_fit (int (length (stream s i))) (ag_uncommitted AO a)"
proof -
  let ?es = "map (with_metadata AO env a) (ag_uncommitted AO a)"
  obtain r s1 es' where app: "es_append_events ES (se_ctx_append env) (se_now env) ?es s = (r, s1, es')"
    using prod_cases3 by blast
  have r: "r = None" using save ne app by (cases r) (auto simp: repo_save_def Let_def)
  have hd: "i = ev_aggregate_id (hd ?es)" and ne': "?es \<noteq> []" using ne i by (simp_all add: hd_map)
  from append_inv [OF inv app] have s1: "inv s1" "usable s1 = usable s" "list_all2 same_content ?es es'"
    by simp_all
  from append_ok [OF inv app [unfolded r] ne' hd]
  have str: "stream s1 = (stream s)(i := stream s i @ es')"
    "versions_fit (int (length (stream s i))) (ag_uncommitted AO a)" by simp_all
  have a': "a' = ag_mark_committed AO (ag_put_uncommitted AO es' a)"
    using save ne app r by (auto simp: repo_save_def Let_def split: if_splits)
  have "inv s' \<and> usable s' = usable s1 \<and> stream s' = stream s1"
  proof (cases "should_create_snapshot AO freq a'")
    case True
    obtain r2 s2 where "repo_create_snapshot ES AO (se_ctx_snapshot env) (se_now_snapshot env) a' s1 = (r2, s2)"
      by fastforce
    with True save ne app r a' repo_create_snapshot_frame [OF s1(1) this] show ?thesis
      by (simp add: repo_save_def Let_def)
  next
    case False
    with save ne app r a' s1 show ?thesis by (simp add: repo_save_def Let_def)
  qed
  with s1 str a' show ?thesis by auto
qed

lemma save_error:
  assumes inv: "inv s" and save: "repo_save ES AO freq env a s = (Some x, a', s')"
  shows "inv s' \<and> usable s' = usable s \<and> stream s' = stream s \<and> snap s' = snap s"
proof -
  let ?es = "map (with_metadata AO env a) (ag_uncommitted AO a)"
  have ne: "ag_uncommitted AO a \<noteq> []" using save by (auto simp: repo_save_def)
  obtain r s1 es' where app: "es_append_events ES (se_ctx_append env) (se_now env) ?es s = (r, s1, es')"
    using prod_cases3 by blast
  have "\<exists>y. r = Some y" and "s' = s1"
    using save ne app by (cases r; auto simp: repo_save_def Let_def split: if_splits)+
  with append_inv [OF inv app] append_error [OF inv] app show ?thesis by auto
qed

lemma save_accepts:
  assumes "inv s" "usable s" "se_ctx_append env = None"
    and "versions_fit (int (length (stream s (ag_id AO a)))) (ag_uncommitted AO a)"
  shows "fst (repo_save ES AO freq env a s) = None"
proof (cases "ag_uncommitted AO a = []")
  case True
  then show ?thesis by (simp add: repo_save_def)
next
  case False
  let ?es = "map (with_metadata AO env a) (ag_uncommitted AO a)"
  have "fst (es_append_events ES None (se_now env) ?es s) = None"
    by (rule append_accepts [OF assms(1,2)]) (use False assms(4) in simp_all)
  then show ?thesis
    using False assms(3) by (auto simp: repo_save_def Let_def split: prod.split option.split)
qed

end

section \<open>The aggregates keep the contract\<close>

text \<open>What a wallet and a payment stand for.\<close>

definition wallet_state :: "wallet_aggregate \<Rightarrow> string \<times> string \<times> string \<times> float64 \<times> time \<times> time" where
  "wallet_state w = (agg_id w, wa_user_id w, wa_currency w, wa_balance w, wa_created_at w, wa_updated_at w)"

definition payment_state ::
  "payment_aggregate \<Rightarrow> string \<times> string \<times> float64 \<times> string \<times> string \<times> string \<times> string \<times> time \<times> time option" where
  "payment_state p = (agg_id p, pa_user_id p, pa_amount p, pa_currency p, pa_payment_method p,
     pa_status p, pa_gateway_tx_id p, pa_created_at p, pa_completed_at p)"

interpretation wallet: aggregate wallet_ops wallet_state
proof
  fix w d v
  assume "ag_create_snapshot wallet_ops w = Inr d"
  then have "wallet_create_snapshot w = Inr d" by (simp add: wallet_ops_def)
  from wallet_snapshot_roundtrip [OF this, of v]
  show "\<exists>v'. ag_load_snapshot wallet_ops d v = (None, v') \<and> wallet_state v' = wallet_state w"
    by (simp add: wallet_ops_def wallet_state_def)
qed (auto simp: wallet_ops_def wallet_state_def wallet_apply_event_def mark_events_as_committed_def
    split: if_splits sum.splits)

interpretation payment: aggregate payment_ops payment_state
proof
  fix w d v
  assume "ag_create_snapshot payment_ops w = Inr d"
  then have "payment_create_snapshot w = Inr d" by (simp add: payment_ops_def)
  from payment_snapshot_roundtrip [OF this, of v]
  show "\<exists>v'. ag_load_snapshot payment_ops d v = (None, v') \<and> payment_state v' = payment_state w"
    by (simp add: payment_ops_def payment_state_def)
qed (auto simp: payment_ops_def payment_state_def payment_apply_event_def mark_events_as_committed_def
    split: if_splits sum.splits)

interpretation wallets: aggregate_repository memory_ops mem_inv mem_usable stream_of ms_snapshots
    wallet_ops wallet_state
  by unfold_locales

interpretation payments: aggregate_repository memory_ops mem_inv mem_usable stream_of ms_snapshots
    payment_ops payment_state
  by unfold_locales

lemma wallet_ops_simps [simp]:
  "ag_id wallet_ops = agg_id" "ag_version wallet_ops = agg_version"
  "ag_uncommitted wallet_ops = agg_uncommitted" "ag_apply wallet_ops = wallet_apply_event"
  "ag_set_version wallet_ops v w = w\<lparr>agg_version := v\<rparr>"
  "ag_load_snapshot wallet_ops = wallet_load_snapshot" "ag_type wallet_ops w = ''wallet''"
  by (simp_all add: wallet_ops_def)

section \<open>Replaying what a wallet has queued\<close>

text \<open>An event acts by its type and its data only.\<close>

lemma wallet_apply_same:
  "ev_type e = ev_type e' \<Longrightarrow> ev_data e = ev_data e' \<Longrightarrow> wallet_apply_event e w = wallet_apply_event e' w"
  by (simp add: wallet_apply_event_def)

lemma wallet_apply_state:
  assumes "wallet_state v = wallet_state w" "wallet_apply_event e v = (r, v')"
  shows "\<exists>w'. wallet_apply_event e w = (r, w') \<and> wallet_state v' = wallet_state w'"
  using wallet.apply_cong [of v w e r v'] assms by (cases "wallet_apply_event e w") auto

lemma apply_events_replay:
  assumes "wallet_replay es w = (None, w')" "wallet_state v = wallet_state w"
    and "list_all2 (\<lambda>e e'. ev_type e = ev_type e' \<and> ev_data e = ev_data e') es es'"
  shows "\<exists>v'. apply_events wallet_ops es' v = Inr v' \<and> wallet_state v' = wallet_state w'"
  using assms
proof (induction es arbitrary: w v es')
  case Nil
  then show ?case by simp
next
  case (Cons e es)
  from Cons.prems(3) obtain e' fs where es': "es' = e' # fs" "ev_type e = ev_type e'" "ev_data e = ev_data e'"
    "list_all2 (\<lambda>e e'. ev_type e = ev_type e' \<and> ev_data e = ev_data e') es fs"
    by (auto simp: list_all2_Cons1)
  from Cons.prems(1) obtain w1 where w1: "wallet_apply_event e w = (None, w1)" "wallet_replay es w1 = (None, w')"
    by (auto split: prod.splits option.splits)
  from wallet_apply_state [OF Cons.prems(2) [symmetric] w1(1)] obtain v1
    where v1: "wallet_apply_event e v = (None, v1)" "wallet_state w1 = wallet_state v1" by blast
  have "wallet_state (v1\<lparr>agg_version := ev_version e'\<rparr>) = wallet_state w1"
    using v1(2) by (simp add: wallet_state_def)
  from Cons.IH [OF w1(2) this es'(4)] show ?case
    using v1(1) es'(1) wallet_apply_same [OF es'(2,3)] by simp
qed

lemma same_content_metadata:
  assumes "list_all2 same_content (map (with_metadata AO env a) es) es'"
  shows "list_all2 (\<lambda>e e'. ev_type e = ev_type e' \<and> ev_data e = ev_data e') es es'"
  unfolding list_all2_conv_all_nth
proof (intro conjI allI impI)
  show "length es = length es'" using assms by (simp add: list_all2_conv_all_nth)
  fix i
  assume "i < length es"
  with assms have "same_content (with_metadata AO env a (es ! i)) (es' ! i)"
    by (simp add: list_all2_conv_all_nth)
  from same_content_data(4,5) [OF this]
  show "ev_type (es ! i) = ev_type (es' ! i)" "ev_data (es ! i) = ev_data (es' ! i)" by simp_all
qed

text \<open>The versions of queued events fit the stream only if there is one event at most.\<close>

lemma queued_versions_fit:
  assumes "map ev_version es = map (\<lambda>i. v + 2 * int i + 1) [0..<length es]" "0 \<le> v"
  shows "versions_fit n es \<longleftrightarrow> (case length es of 0 \<Rightarrow> True | Suc 0 \<Rightarrow> v = n | _ \<Rightarrow> False)"
proof -
  have nth: "i < length es \<Longrightarrow> ev_version (es ! i) = v + 2 * int i + 1" for i
    using arg_cong [OF assms(1), of "\<lambda>xs. xs ! i"] by simp
  show ?thesis
  proof (cases es)
    case (Cons e fs)
    with nth [of 0] have e: "ev_version e = v + 1" by simp
    show ?thesis
    proof (cases fs)
      case Nil
      with Cons e assms(2) show ?thesis by simp
    next
      case (Cons f gs)
      with nth [of 1] \<open>es = e # fs\<close> have "ev_version f = v + 3" by simp
      with Cons \<open>es = e # fs\<close> e assms(2) show ?thesis by simp
    qed
  qed simp
qed

lemma run_commands_queue:
  assumes "agg_uncommitted w = []"
  shows "map ev_version (agg_uncommitted (run_commands cs w)) =
      map (\<lambda>i. agg_version w + 2 * int i + 1) [0..<length (agg_uncommitted (run_commands cs w))]"
    "agg_version (run_commands cs w) = agg_version w + 2 * int (length (agg_uncommitted (run_commands cs w)))"
    "agg_id (run_commands cs w) = agg_id w"
  using run_commands_effect [of cs w] assms by auto

section \<open>Properties\<close>



text \<open>C11: saved work is found again.  A wallet that agrees with what its stream replays to is
  changed by commands and saved without an error; loading it afterwards gives the wallet as it was
  saved, at the version of the stream, whatever factory value the reader starts from.\<close>

theorem wallet_save_load:
  assumes inv: "mem_inv m" and nosnap: "ms_snapshots m i = None"
    and old: "apply_events wallet_ops (stream_of m i) factory = Inr w0" "agg_version factory = 0"
    and w: "agg_id w = i" "wallet_state w = wallet_state w0" "agg_uncommitted w = []"
    and w': "w' = run_commands cs w"
    and save: "repo_save memory_ops wallet_ops 0 env w' m = (None, w'', m')"
  shows "\<exists>b. repo_load memory_ops wallet_ops None None i factory m' = Inr b \<and>
    wallet_state b = wallet_state w' \<and> agg_version b = int (length (stream_of m' i))"
proof -
  have load: ?thesis if "mem_inv m'" "ms_snapshots m' i = None"
    "apply_events wallet_ops (stream_of m' i) factory = Inr v" "wallet_state v = wallet_state w'" for v
    using wallets.load_is_replay [OF that(1) _ that(3)] that(2,4) old(2)
    by (simp add: wallets.snapshot_sound_def)
  show ?thesis
  proof (cases "agg_uncommitted w' = []")
    case True
    from run_commands_effect [of cs w] w(3) w' True obtain us n where
      "wallet_replay [] (w\<lparr>agg_uncommitted := us, agg_version := n\<rparr>) =
         (None, w'\<lparr>agg_uncommitted := us, agg_version := n + 0\<rparr>)" by auto
    then have "wallet_state (w\<lparr>agg_uncommitted := us, agg_version := n\<rparr>) =
        wallet_state (w'\<lparr>agg_uncommitted := us, agg_version := n + 0\<rparr>)" by simp
    then have "wallet_state w = wallet_state w'" by (simp add: wallet_state_def)
    with True save inv nosnap old w(2) show ?thesis
      by (intro load [of w0]) (simp_all add: repo_save_def)
  next
    case False
    have ne: "ag_uncommitted wallet_ops w' \<noteq> []" using False by simp
    have id': "agg_id w' = i" using run_commands_queue(3) [OF w(3)] w(1) w' by simp
    from wallets.save_ok [OF inv save ne refl] id' obtain es' where
      inv': "mem_inv m'" and content: "list_all2 same_content (map (with_metadata wallet_ops env w') (agg_uncommitted w')) es'"
      and str: "stream_of m' = (stream_of m)(i := stream_of m i @ es')" by auto
    obtain r2 m2 es2 where app: "mem_append_events (se_ctx_append env) (se_now env)
        (map (with_metadata wallet_ops env w') (agg_uncommitted w')) m = (r2, m2, es2)"
      using prod_cases3 by blast
    have "m' = m2" using save ne app
      by (cases r2) (auto simp: repo_save_def Let_def should_create_snapshot_def)
    with mem_append_frame(1) [OF app] nosnap have snap': "ms_snapshots m' i = None" by simp
    from run_commands_effect [of cs w] w(3) w' have
      "wallet_replay (agg_uncommitted w') (w\<lparr>agg_uncommitted := [], agg_version := 0\<rparr>) =
        (None, w'\<lparr>agg_uncommitted := [], agg_version := 0 + int (length (agg_uncommitted w'))\<rparr>)" by simp
    from apply_events_replay [OF this, of w0 es'] same_content_metadata [OF content] w(2)
    obtain v where v: "apply_events wallet_ops es' w0 = Inr v" "wallet_state v = wallet_state w'"
      by (auto simp: wallet_state_def)
    have "apply_events wallet_ops (stream_of m' i) factory = Inr v"
      using old(1) v(1) by (simp add: str wallet.apply_events_append)
    with v(2) inv' snap' show ?thesis by (intro load)
  qed
qed

lemma wallet_save_load_witness:
  "\<exists>w'' m' b. repo_save memory_ops wallet_ops 0 \<lparr>se_ctx_append = None, se_ctx_snapshot = None, se_now = (\<lambda>_. 7),
       se_now_snapshot = 8, se_caused_by = ''u'', se_correlation_id = ''c''\<rparr>
     (run_commands [] (new_wallet_aggregate ''w'' ''u'' ''USD'' 1 1)) new_memory_event_store = (None, w'', m') \<and>
     repo_load memory_ops wallet_ops None None ''w'' (new_wallet_aggregate ''w'' ''u'' ''USD'' 1 1) m' = Inr b \<and>
     wa_balance b = FFin 0"
proof -
  let ?env = "\<lparr>se_ctx_append = None, se_ctx_snapshot = None, se_now = (\<lambda>_. 7),
       se_now_snapshot = 8, se_caused_by = ''u'', se_correlation_id = ''c''\<rparr>"
  let ?w = "new_wallet_aggregate ''w'' ''u'' ''USD'' 1 1"
  have s: "repo_save memory_ops wallet_ops 0 ?env (run_commands [] ?w) new_memory_event_store =
      (None, run_commands [] ?w, new_memory_event_store)"
    by (simp add: repo_save_def new_wallet_aggregate_def)
  from wallet_save_load [OF mem_inv_new _ _ _ _ _ _ refl s, of "''w''" ?w ?w]
  obtain b where "repo_load memory_ops wallet_ops None None ''w'' ?w new_memory_event_store = Inr b"
    "wallet_state b = wallet_state ?w"
    by (auto simp: new_wallet_aggregate_def)
  with s show ?thesis by (auto simp: wallet_state_def new_wallet_aggregate_def f0_def)
qed

text \<open>After a save that stored an event, the wallet in memory is ahead of its stream, so without
  loading it again nothing more can be saved: every later accepted command leads to a conflict.\<close>

theorem wallet_stale_after_save:
  assumes inv: "mem_inv m"
    and w: "agg_uncommitted w = []" "agg_version w = int (length (stream_of m (agg_id w)))"
    and w': "w' = run_commands cs w" "agg_uncommitted w' \<noteq> []"
    and save: "repo_save memory_ops wallet_ops freq env w' m = (None, w1, m1)"
    and w2: "w2 = run_commands cs' w1" "agg_uncommitted w2 \<noteq> []"
  shows "fst (repo_save memory_ops wallet_ops freq env' w2 m1) \<noteq> None"
proof
  assume ok: "fst (repo_save memory_ops wallet_ops freq env' w2 m1) = None"
  then obtain w3 m3 where save2: "repo_save memory_ops wallet_ops freq env' w2 m1 = (None, w3, m3)"
    by (cases "repo_save memory_ops wallet_ops freq env' w2 m1") auto
  note q = run_commands_queue [OF w(1), of cs, folded w'(1)]
  from wallets.save_ok [OF inv save _ refl] w'(2) q(3) obtain es' where
    inv1: "mem_inv m1" and es': "length es' = length (agg_uncommitted w')"
    and str: "stream_of m1 (agg_id w) = stream_of m (agg_id w) @ es'"
    and w1: "agg_uncommitted w1 = []" "agg_version w1 = agg_version w'" "agg_id w1 = agg_id w"
    by (auto dest: list_all2_lengthD)
  note q2 = run_commands_queue [OF w1(1), of cs', folded w2(1)]
  from wallets.save_ok [OF inv1 save2 _ refl] w2(2) q2(3) w1(3)
  have "versions_fit (int (length (stream_of m1 (agg_id w)))) (agg_uncommitted w2)" by simp
  with queued_versions_fit [OF q2(1), of "int (length (stream_of m1 (agg_id w)))"] w1(2) q(2) w(2) w2(2)
  show False using str es' w'(2) by (auto split: nat.splits)
qed

text \<open>A wallet's first deposit, saved: the history the examples below start from.\<close>

definition example_save_env :: save_env where
  "example_save_env = \<lparr>se_ctx_append = None, se_ctx_snapshot = None, se_now = (\<lambda>_. 7),
     se_now_snapshot = 8, se_caused_by = ''u'', se_correlation_id = ''c''\<rparr>"

definition example_wallet :: wallet_aggregate where
  "example_wallet = new_wallet_aggregate ''w'' ''u'' ''USD'' 1 1"

definition example_deposit :: wallet_command where
  "example_deposit = Add example_env (FFin (of_int 3)) ''x''"

lemma example_wallet_simps [simp]:
  "agg_uncommitted example_wallet = []" "agg_version example_wallet = 0" "agg_id example_wallet = ''w''"
  "wa_balance example_wallet = FFin (of_int 0)" "se_ctx_append example_save_env = None"
  "se_ctx_snapshot example_save_env = None"
  by (simp_all add: example_wallet_def new_wallet_aggregate_def f0_def example_save_env_def)

lemma example_deposit_queues:
  assumes "wa_balance w = FFin (of_int b)" "0 \<le> b" "b \<le> 10"
  obtains e where "run_commands [example_deposit] w = queued e (FFin (of_int (b + 3))) (oe_at example_env) w"
  using deposit_queues [of w b 3 example_env "''x''"] assms by (auto simp: example_deposit_def)

lemma queued_simps [simp]:
  "agg_uncommitted (queued e b t w) = agg_uncommitted w @ [e]" "wa_balance (queued e b t w) = b"
  "agg_id (queued e b t w) = agg_id w" "agg_version (queued e b t w) = agg_version w + 2"
  by (simp_all add: queued_def)

lemma example_saved:
  obtains w1 m1 where
    "repo_save memory_ops wallet_ops freq example_save_env (run_commands [example_deposit] example_wallet)
       new_memory_event_store = (None, w1, m1)"
    "agg_uncommitted w1 = []" "wa_balance w1 = FFin (of_int 3)" "agg_version w1 = 2" "agg_id w1 = ''w''"
    "mem_inv m1" "mem_usable m1" "length (stream_of m1 ''w'') = 1"
proof -
  let ?w = "run_commands [example_deposit] example_wallet"
  obtain e where w: "?w = queued e (FFin (of_int (0 + 3))) (oe_at example_env) example_wallet"
    by (rule example_deposit_queues [of example_wallet 0]) auto
  have "map ev_version (agg_uncommitted ?w) = map (\<lambda>i. 0 + 2 * int i + 1) [0..<length (agg_uncommitted ?w)]"
    using run_commands_queue(1) [of example_wallet "[example_deposit]"] by simp
  from queued_versions_fit [OF this, of 0] w
  have "versions_fit 0 (agg_uncommitted ?w)" by simp
  then have "fst (repo_save memory_ops wallet_ops freq example_save_env ?w new_memory_event_store) = None"
    by (intro wallets.save_accepts) (simp_all add: mem_inv_new mem_usable_def)
  then obtain w1 m1 where s: "repo_save memory_ops wallet_ops freq example_save_env ?w new_memory_event_store = (None, w1, m1)"
    by (cases "repo_save memory_ops wallet_ops freq example_save_env ?w new_memory_event_store") auto
  have ne: "ag_uncommitted wallet_ops ?w \<noteq> []" using w by simp
  from wallets.save_ok [OF mem_inv_new s ne refl] w
  have "agg_uncommitted w1 = []" "wa_balance w1 = FFin (of_int 3)" "agg_version w1 = 2" "agg_id w1 = ''w''"
    "mem_inv m1" "mem_usable m1" "length (stream_of m1 ''w'') = 1"
    by (auto simp: wallet_state_def mem_usable_def dest: list_all2_lengthD)
  with s that show thesis by blast
qed

lemma wallet_stale_after_save_witness:
  "\<exists>w1 m1. repo_save memory_ops wallet_ops 0 example_save_env (run_commands [example_deposit] example_wallet)
       new_memory_event_store = (None, w1, m1) \<and>
     fst (repo_save memory_ops wallet_ops 0 example_save_env (run_commands [example_deposit] w1) m1) \<noteq> None"
proof -
  obtain w1 m1 where s: "repo_save memory_ops wallet_ops 0 example_save_env
      (run_commands [example_deposit] example_wallet) new_memory_event_store = (None, w1, m1)"
    and w1: "agg_uncommitted w1 = []" "wa_balance w1 = FFin (of_int 3)"
    by (rule example_saved)
  obtain e where e: "run_commands [example_deposit] example_wallet =
      queued e (FFin (of_int (0 + 3))) (oe_at example_env) example_wallet"
    by (rule example_deposit_queues [of example_wallet 0]) auto
  obtain e' where e': "run_commands [example_deposit] w1 =
      queued e' (FFin (of_int (3 + 3))) (oe_at example_env) w1"
    by (rule example_deposit_queues [of w1 3]) (use w1 in auto)
  have "fst (repo_save memory_ops wallet_ops 0 example_save_env (run_commands [example_deposit] w1) m1) \<noteq> None"
    by (rule wallet_stale_after_save [OF mem_inv_new _ _ refl _ s refl]) (use e e' in simp_all)
  with s show ?thesis by blast
qed

section \<open>Snapshots\<close>

lemma wallet_create_snapshot_ok:
  "finite64 (wa_balance w) \<Longrightarrow> \<exists>d. wallet_create_snapshot w = Inr d"
  by (auto simp: wallet_create_snapshot_def encode_simps)

lemma snapshot_written:
  assumes inv: "mem_inv m" and w: "agg_uncommitted w = []" "agg_version w = int (length (stream_of m (agg_id w)))"
    and w': "w' = run_commands cs w" "length (agg_uncommitted w') = 1" "finite64 (wa_balance w')"
    and due: "freq > 0" "(agg_version w + 2) mod freq = 0"
    and live: "se_ctx_snapshot env = None"
    and save: "repo_save memory_ops wallet_ops freq env w' m = (None, w1, m1)"
  shows "\<exists>sn. ms_snapshots m1 (agg_id w) = Some sn \<and>
    sn_version sn = int (length (stream_of m1 (agg_id w))) + 1 \<and> wallet_create_snapshot w1 = Inr (sn_data sn)"
proof -
  note q = run_commands_queue [OF w(1), of cs, folded w'(1)]
  have ne: "ag_uncommitted wallet_ops w' \<noteq> []" using w'(2) by auto
  from wallets.save_ok [OF inv save ne refl] q(3) w'(2)
  have len: "length (stream_of m1 (agg_id w)) = length (stream_of m (agg_id w)) + 1"
    by (auto dest: list_all2_lengthD)
  obtain r s1 es' where app: "mem_append_events (se_ctx_append env) (se_now env)
      (map (with_metadata wallet_ops env w') (agg_uncommitted w')) m = (r, s1, es')"
    using prod_cases3 by blast
  have r: "r = None" using save ne app by (cases r) (auto simp: repo_save_def Let_def)
  let ?a = "ag_mark_committed wallet_ops (ag_put_uncommitted wallet_ops es' w')"
  have a: "agg_id ?a = agg_id w" "agg_version ?a = agg_version w + 2" "wa_balance ?a = wa_balance w'"
    using q w'(2) by (simp_all add: wallet_ops_def mark_events_as_committed_def)
  obtain d where d: "wallet_create_snapshot ?a = Inr d"
    using wallet_create_snapshot_ok [of ?a] a(3) w'(3) by auto
  have "should_create_snapshot wallet_ops freq ?a"
    using due a(2) by (simp add: should_create_snapshot_def)
  then have "m1 = snd (repo_create_snapshot memory_ops wallet_ops (se_ctx_snapshot env) (se_now_snapshot env) ?a s1)"
    and "w1 = ?a"
    using save ne app r by (auto simp: repo_save_def Let_def)
  moreover have "ag_create_snapshot wallet_ops ?a = Inr d" using d by (simp add: wallet_ops_def)
  ultimately have "ms_snapshots m1 (agg_id w) = Some \<lparr>sn_aggregate_id = agg_id w, sn_aggregate_type = ''wallet'',
      sn_version = agg_version w + 2, sn_data = d, sn_created_at = se_now_snapshot env\<rparr>"
    using live a(1,2) by (simp add: repo_create_snapshot_def mem_create_snapshot_def)
  with len w(2) d \<open>w1 = ?a\<close> show ?thesis by simp
qed

text \<open>The snapshot \<open>Save\<close> writes claims one version more than the stream has: for a wallet
  loaded at the current version and one accepted command, when the frequency makes a snapshot due.\<close>

theorem snapshot_claims_too_much:
  assumes inv: "mem_inv m" and w: "agg_uncommitted w = []" "agg_version w = int (length (stream_of m (agg_id w)))"
    and w': "w' = run_commands cs w" "length (agg_uncommitted w') = 1" "finite64 (wa_balance w')"
    and due: "freq > 0" "(agg_version w + 2) mod freq = 0"
    and live: "se_ctx_snapshot env = None"
    and save: "repo_save memory_ops wallet_ops freq env w' m = (None, w1, m1)"
  shows "\<exists>sn. ms_snapshots m1 (agg_id w) = Some sn \<and>
    sn_version sn = int (length (stream_of m1 (agg_id w))) + 1"
  using snapshot_written [OF assms] by blast

lemma snapshot_claims_too_much_witness:
  "\<exists>w1 m1 sn. repo_save memory_ops wallet_ops 2 example_save_env (run_commands [example_deposit] example_wallet)
       new_memory_event_store = (None, w1, m1) \<and> ms_snapshots m1 ''w'' = Some sn \<and>
     sn_version sn = 2 \<and> length (stream_of m1 ''w'') = 1"
proof -
  obtain w1 m1 where s: "repo_save memory_ops wallet_ops 2 example_save_env
      (run_commands [example_deposit] example_wallet) new_memory_event_store = (None, w1, m1)"
    and len: "length (stream_of m1 ''w'') = 1"
    by (rule example_saved)
  obtain e where e: "run_commands [example_deposit] example_wallet =
      queued e (FFin (of_int (0 + 3))) (oe_at example_env) example_wallet"
    by (rule example_deposit_queues [of example_wallet 0]) auto
  from snapshot_claims_too_much [OF mem_inv_new _ _ refl _ _ _ _ _ s] e len
  show ?thesis using s by (auto simp: finite64_def)
qed

text \<open>From then on the wallet is lost for writing.  While its snapshot claims more versions than
  its stream has, whoever loads it and has a command accepted cannot save, and the stream and the
  snapshot stay as they are, so nothing repairs it.\<close>

theorem snapshot_bricks_wallet:
  assumes inv: "mem_inv m" and sn: "ms_snapshots m i = Some sn" "sn_version sn > int (length (stream_of m i))"
    and load: "repo_load memory_ops wallet_ops None None i factory m = Inr w"
    and factory: "agg_uncommitted factory = []" and i: "agg_id w = i"
    and w': "w' = run_commands cs w" "agg_uncommitted w' \<noteq> []"
    and save: "repo_save memory_ops wallet_ops freq env w' m = (r, w1, m1)"
  shows "r \<noteq> None \<and> stream_of m1 = stream_of m \<and> ms_snapshots m1 = ms_snapshots m"
proof -
  obtain a where a: "wallet_load_snapshot (sn_data sn) factory = (None, a)"
    and w: "apply_events wallet_ops (drop (nat (sn_version sn)) (stream_of m i)) (a\<lparr>agg_version := sn_version sn\<rparr>) = Inr w"
    using load sn mem.read_from [OF inv, of i "sn_version sn + 1"]
    by (auto simp: repo_load_def start_from_snapshot_def mem_get_snapshot_def split: prod.splits option.splits)
  have "agg_uncommitted a = []"
    using a factory by (auto simp: wallet_load_snapshot_def rbind_eq_Inr split: sum.splits)
  with w sn(2) have w0: "agg_uncommitted w = []" "agg_version w = sn_version sn" by auto
  note q = run_commands_queue [OF w0(1), of cs, folded w'(1)]
  have ne: "ag_uncommitted wallet_ops w' \<noteq> []" using w'(2) by simp
  have "r \<noteq> None"
  proof
    assume r: "r = None"
    from wallets.save_ok [OF inv save [unfolded r] ne refl] q(3) i
    have "versions_fit (int (length (stream_of m i))) (agg_uncommitted w')" by simp
    with queued_versions_fit [OF q(1), of "int (length (stream_of m i))"] w0(2) sn(2) w'(2)
    show False by (auto split: nat.splits)
  qed
  then obtain x where "r = Some x" by auto
  with wallets.save_error [OF inv] save show ?thesis by auto
qed

lemma snapshot_bricks_wallet_witness:
  "\<exists>w1 m1 w w2 m2 x. repo_save memory_ops wallet_ops 2 example_save_env (run_commands [example_deposit] example_wallet)
       new_memory_event_store = (None, w1, m1) \<and>
     repo_load memory_ops wallet_ops None None ''w'' example_wallet m1 = Inr w \<and>
     repo_save memory_ops wallet_ops 2 example_save_env (run_commands [example_deposit] w) m1 = (Some x, w2, m2)"
proof -
  obtain w1 m1 where s: "repo_save memory_ops wallet_ops 2 example_save_env
      (run_commands [example_deposit] example_wallet) new_memory_event_store = (None, w1, m1)"
    and m1: "mem_inv m1" "length (stream_of m1 ''w'') = 1"
    and w1: "wa_balance w1 = FFin (of_int 3)" "agg_id w1 = ''w''"
    by (rule example_saved)
  obtain e where e: "run_commands [example_deposit] example_wallet =
      queued e (FFin (of_int (0 + 3))) (oe_at example_env) example_wallet"
    by (rule example_deposit_queues [of example_wallet 0]) auto
  from snapshot_written [OF mem_inv_new _ _ refl _ _ _ _ _ s] e m1(2)
  obtain sn where sn: "ms_snapshots m1 ''w'' = Some sn" "sn_version sn = 2"
    "wallet_create_snapshot w1 = Inr (sn_data sn)"
    by (auto simp: finite64_def)
  let ?b = "example_wallet\<lparr>agg_id := agg_id w1, agg_version := agg_version w1,
    wa_user_id := wa_user_id w1, wa_currency := wa_currency w1, wa_balance := wa_balance w1,
    wa_created_at := wa_created_at w1, wa_updated_at := wa_updated_at w1\<rparr>"
  let ?w = "?b\<lparr>agg_version := 2\<rparr>"
  have load: "repo_load memory_ops wallet_ops None None ''w'' example_wallet m1 = Inr ?w"
    using sn wallet_snapshot_roundtrip [OF sn(3), of example_wallet] mem.read_from [OF m1(1), of "''w''" 3] m1(2)
    by (simp add: repo_load_def mem_get_snapshot_def start_from_snapshot_def)
  have bal: "wa_balance ?w = FFin (of_int 3)" using w1(1) by simp
  obtain e' where e': "run_commands [example_deposit] ?w = queued e' (FFin (of_int (3 + 3))) (oe_at example_env) ?w"
    by (rule example_deposit_queues [OF bal]) auto
  obtain r w2 m2 where save: "repo_save memory_ops wallet_ops 2 example_save_env
      (run_commands [example_deposit] ?w) m1 = (r, w2, m2)"
    using prod_cases3 by blast
  have "r \<noteq> None"
    using snapshot_bricks_wallet [OF m1(1) sn(1) _ load _ _ refl _ save] sn(2) m1(2) w1(2) e' by simp
  with s load save show ?thesis by auto
qed

end
