(* ===== verification/Payment_Saga.thy ===== *)
theory Payment_Saga
  imports Memory_Subscriptions
begin

text \<open>
  \<open>pkg/eventstore/payment_saga.go\<close>: the saga record and the orchestrator that writes saga events
  into the event store.  Every operation makes one event whose data is a map (so its keys are sorted)
  and appends it with \<open>AppendEvent\<close>; the event bus is never used.  The store is the argument
  \<open>append_ev\<close>, its \<open>AppendEvent\<close>.
\<close>

record payment_saga_step =
  ps_step_id :: uuid
  ps_step_name :: string
  ps_step_status :: string
  ps_step_data :: json
  ps_step_created_at :: time
  ps_step_completed_at :: "time option"

record payment_saga =
  ps_id :: uuid
  ps_saga_id :: uuid
  ps_payment_id :: string
  ps_user_id :: string
  ps_amount :: int
  ps_currency :: string
  ps_status :: string
  ps_steps :: "payment_saga_step list"
  ps_completed_steps :: "string list"
  ps_created_at :: time
  ps_updated_at :: time
  ps_completed_at :: "time option"
  ps_error_message :: string

text \<open>\<open>AppendEvent\<close> of a store, and the environment of one operation: the context, the time in the
  event data, and the arguments of \<open>new_event\<close> and of the append.\<close>

type_synonym 's append_op = "ctx_err \<Rightarrow> time \<Rightarrow> event \<Rightarrow> 's \<Rightarrow> go_error option \<times> 's \<times> event"

record saga_env =
  sg_ctx :: ctx_err
  sg_at :: time
  sg_event_id :: uuid
  sg_t1 :: time
  sg_t2 :: time
  sg_now :: time

definition start_payment_saga ::
  "'s append_op \<Rightarrow> saga_env \<Rightarrow> uuid \<Rightarrow> time \<Rightarrow> time \<Rightarrow> string \<Rightarrow> string \<Rightarrow> 's \<Rightarrow> payment_saga go_result \<times> 's" where
  "start_payment_saga append_ev env saga_id created updated payment_id user_id s =
     (let saga = \<lparr>ps_id = saga_id, ps_saga_id = nil_uuid, ps_payment_id = payment_id, ps_user_id = user_id,
            ps_amount = 0, ps_currency = '''', ps_status = ''started'', ps_steps = [],
            ps_completed_steps = [], ps_created_at = created, ps_updated_at = updated,
            ps_completed_at = None, ps_error_message = ''''\<rparr>
      in case new_event saga_id ''PaymentSaga'' ''SagaStarted''
             (j_struct [(''payment_id'', j_str payment_id), (''saga_id'', j_str saga_id),
                (''status'', j_str ''started''), (''user_id'', j_str user_id)])
             user_id (''saga-'' @ saga_id) (sg_event_id env) (sg_t1 env) (sg_t2 env) of
           Inl x \<Rightarrow> (Inl (''failed to create saga started event: '' @ x), s)
         | Inr e \<Rightarrow>
             (case append_ev (sg_ctx env) (sg_now env) e s of
                (Some x, s', _) \<Rightarrow> (Inl (''failed to store saga started event: '' @ x), s')
              | (None, s', _) \<Rightarrow> (Inr saga, s')))"

text \<open>The six operations that only record what happened: the event type, the data, the error text.\<close>

definition saga_event ::
  "'s append_op \<Rightarrow> saga_env \<Rightarrow> uuid \<Rightarrow> string \<Rightarrow> string \<Rightarrow> (string \<times> json go_result) list \<Rightarrow> 's \<Rightarrow>
     go_error option \<times> 's" where
  "saga_event append_ev env saga_id event_type what data s =
     (case new_event saga_id ''PaymentSaga'' event_type (j_struct data) '''' (''saga-'' @ saga_id)
             (sg_event_id env) (sg_t1 env) (sg_t2 env) of
        Inl x \<Rightarrow> (Some (''failed to create '' @ what @ '' event: '' @ x), s)
      | Inr e \<Rightarrow> (case append_ev (sg_ctx env) (sg_now env) e s of (r, s', _) \<Rightarrow> (r, s')))"

text \<open>The step data are the caller's map, encoded by \<open>json.Marshal\<close>, which can fail.\<close>

definition saga_add_step ::
  "'s append_op \<Rightarrow> saga_env \<Rightarrow> uuid \<Rightarrow> uuid \<Rightarrow> string \<Rightarrow> json go_result \<Rightarrow> 's \<Rightarrow> go_error option \<times> 's" where
  "saga_add_step append_ev env saga_id step_id step_name step_data =
     saga_event append_ev env saga_id ''StepAdded'' ''step added''
       [(''created_at'', j_time (sg_at env)), (''saga_id'', j_str saga_id),
        (''status'', j_str ''pending''), (''step_data'', step_data), (''step_id'', j_str step_id),
        (''step_name'', j_str step_name)]"

definition saga_complete_step :: "'s append_op \<Rightarrow> saga_env \<Rightarrow> uuid \<Rightarrow> uuid \<Rightarrow> 's \<Rightarrow> go_error option \<times> 's" where
  "saga_complete_step append_ev env saga_id step_id =
     saga_event append_ev env saga_id ''StepCompleted'' ''step completed''
       [(''completed_at'', j_time (sg_at env)), (''saga_id'', j_str saga_id),
        (''status'', j_str ''completed''), (''step_id'', j_str step_id)]"

definition saga_fail_step ::
  "'s append_op \<Rightarrow> saga_env \<Rightarrow> uuid \<Rightarrow> uuid \<Rightarrow> string \<Rightarrow> 's \<Rightarrow> go_error option \<times> 's" where
  "saga_fail_step append_ev env saga_id step_id error_msg =
     saga_event append_ev env saga_id ''StepFailed'' ''step failed''
       [(''error'', j_str error_msg), (''failed_at'', j_time (sg_at env)), (''saga_id'', j_str saga_id),
        (''status'', j_str ''failed''), (''step_id'', j_str step_id)]"

definition saga_compensate_step :: "'s append_op \<Rightarrow> saga_env \<Rightarrow> uuid \<Rightarrow> uuid \<Rightarrow> 's \<Rightarrow> go_error option \<times> 's" where
  "saga_compensate_step append_ev env saga_id step_id =
     saga_event append_ev env saga_id ''StepCompensated'' ''step compensated''
       [(''compensated_at'', j_time (sg_at env)), (''saga_id'', j_str saga_id),
        (''status'', j_str ''compensated''), (''step_id'', j_str step_id)]"

definition saga_complete :: "'s append_op \<Rightarrow> saga_env \<Rightarrow> uuid \<Rightarrow> 's \<Rightarrow> go_error option \<times> 's" where
  "saga_complete append_ev env saga_id =
     saga_event append_ev env saga_id ''SagaCompleted'' ''saga completed''
       [(''completed_at'', j_time (sg_at env)), (''saga_id'', j_str saga_id),
        (''status'', j_str ''completed'')]"

definition saga_fail :: "'s append_op \<Rightarrow> saga_env \<Rightarrow> uuid \<Rightarrow> string \<Rightarrow> 's \<Rightarrow> go_error option \<times> 's" where
  "saga_fail append_ev env saga_id error_msg =
     saga_event append_ev env saga_id ''SagaFailed'' ''saga failed''
       [(''error'', j_str error_msg), (''failed_at'', j_time (sg_at env)), (''saga_id'', j_str saga_id),
        (''status'', j_str ''failed'')]"

text \<open>\<open>GetSaga\<close> does not read the store.\<close>

definition get_saga :: "time \<Rightarrow> time \<Rightarrow> uuid \<Rightarrow> payment_saga" where
  "get_saga created updated saga_id = \<lparr>ps_id = saga_id, ps_saga_id = nil_uuid, ps_payment_id = '''',
     ps_user_id = '''', ps_amount = 0, ps_currency = '''', ps_status = ''unknown'', ps_steps = [],
     ps_completed_steps = [], ps_created_at = created, ps_updated_at = updated,
     ps_completed_at = None, ps_error_message = ''''\<rparr>"

section \<open>On the in-memory store\<close>

text \<open>An unversioned event of a named aggregate is always accepted by an open store.\<close>

lemma mem_append_unversioned:
  assumes "mem_inv m" "\<not> ms_closed m" "ev_version e = 0" "ev_aggregate_id e \<noteq> ''''"
    "ev_aggregate_type e \<noteq> ''''" "ev_type e \<noteq> ''''"
  obtains m' e' where "mem_append_event None t e m = (None, m', e')" "mem_inv m'" "\<not> ms_closed m'"
    "same_content e e'" "ev_version e' = int (length (stream_of m (ev_aggregate_id e))) + 1"
    "stream_of m' = (stream_of m)(ev_aggregate_id e := stream_of m (ev_aggregate_id e) @ [e'])"
proof -
  have "fst (mem_append_events None (\<lambda>_. t) [e] m) = None"
    using mem_append_accepts [OF assms(1), of "[e]" "ev_aggregate_id e" "\<lambda>_. t"] assms(2,3)
    by (simp add: mem_usable_def)
  then obtain m' es' where app: "mem_append_events None (\<lambda>_. t) [e] m = (None, m', es')"
    by (cases "mem_append_events None (\<lambda>_. t) [e] m") auto
  from mem.append_inv [OF assms(1)] app
  have inv': "mem_inv m'" "mem_usable m' = mem_usable m" "list_all2 same_content [e] es'" by simp_all
  then obtain e' where e': "es' = [e']" "same_content e e'" by (auto simp: list_all2_Cons1)
  from mem_append_stream [OF assms(1) app _ refl, THEN conjunct1] e'(1)
  have str: "stream_of m' = (stream_of m)(ev_aggregate_id e := stream_of m (ev_aggregate_id e) @ [e'])"
    by simp
  have "counts_from 0 (map ev_version (stream_of m' (ev_aggregate_id e)))"
    by (rule mem.stream_versions [OF inv'(1)])
  then have "ev_version e' = int (length (stream_of m (ev_aggregate_id e))) + 1"
    unfolding str by simp
  moreover have "mem_append_event None t e m = (None, m', e')"
    using append_event_is_append_events [OF assms(4-6)] app e'(1) by blast
  ultimately show thesis using that inv' e'(2) str assms(2) by (simp add: mem_usable_def)
qed

lemma saga_event_stored:
  assumes "mem_inv m" "\<not> ms_closed m" "sg_ctx env = None" "saga_id \<noteq> ''''" "event_type \<noteq> ''''"
    and "j_struct data = Inr j"
  shows "\<exists>m' e. saga_event mem_append_event env saga_id event_type what data m = (None, m') \<and>
    mem_inv m' \<and> \<not> ms_closed m' \<and> ev_type e = event_type \<and> ev_data e = j \<and> ev_caused_by e = '''' \<and>
    stream_of m' = (stream_of m)(saga_id := stream_of m saga_id @ [e])"
proof -
  obtain e where e: "new_event saga_id ''PaymentSaga'' event_type (j_struct data) '''' (''saga-'' @ saga_id)
      (sg_event_id env) (sg_t1 env) (sg_t2 env) = Inr e"
    and fields: "ev_version e = 0" "ev_aggregate_id e = saga_id" "ev_aggregate_type e = ''PaymentSaga''"
      "ev_type e = event_type" "ev_data e = j" "ev_caused_by e = ''''"
    using assms(6) by simp
  have nonempty: "ev_aggregate_id e \<noteq> ''''" "ev_aggregate_type e \<noteq> ''''" "ev_type e \<noteq> ''''"
    using fields assms(4,5) by simp_all
  obtain m' e' where "mem_append_event None (sg_now env) e m = (None, m', e')" "mem_inv m'" "\<not> ms_closed m'"
    "same_content e e'"
    "stream_of m' = (stream_of m)(ev_aggregate_id e := stream_of m (ev_aggregate_id e) @ [e'])"
    by (rule mem_append_unversioned [OF assms(1,2) fields(1) nonempty, of "sg_now env"])
  with e fields assms(3) same_content_data(4,5,7) [of e e'] show ?thesis
    by (intro exI [of _ m'] exI [of _ e']) (simp add: saga_event_def)
qed

section \<open>Sequences of operations\<close>

datatype saga_op =
    Add_Step uuid string json
  | Complete_Step uuid
  | Fail_Step uuid string
  | Compensate_Step uuid
  | Complete_Saga
  | Fail_Saga string

fun run_saga_op :: "'s append_op \<Rightarrow> saga_env \<Rightarrow> uuid \<Rightarrow> saga_op \<Rightarrow> 's \<Rightarrow> go_error option \<times> 's" where
  "run_saga_op append_ev env i (Add_Step st n d) = saga_add_step append_ev env i st n (Inr d)"
| "run_saga_op append_ev env i (Complete_Step st) = saga_complete_step append_ev env i st"
| "run_saga_op append_ev env i (Fail_Step st x) = saga_fail_step append_ev env i st x"
| "run_saga_op append_ev env i (Compensate_Step st) = saga_compensate_step append_ev env i st"
| "run_saga_op append_ev env i Complete_Saga = saga_complete append_ev env i"
| "run_saga_op append_ev env i (Fail_Saga x) = saga_fail append_ev env i x"

fun saga_op_type :: "saga_op \<Rightarrow> string" where
  "saga_op_type (Add_Step st n d) = ''StepAdded''"
| "saga_op_type (Complete_Step st) = ''StepCompleted''"
| "saga_op_type (Fail_Step st x) = ''StepFailed''"
| "saga_op_type (Compensate_Step st) = ''StepCompensated''"
| "saga_op_type Complete_Saga = ''SagaCompleted''"
| "saga_op_type (Fail_Saga x) = ''SagaFailed''"

fun run_saga_ops :: "'s append_op \<Rightarrow> uuid \<Rightarrow> (saga_env \<times> saga_op) list \<Rightarrow> 's \<Rightarrow> go_error option list \<times> 's" where
  "run_saga_ops append_ev i [] s = ([], s)"
| "run_saga_ops append_ev i ((env, p) # ps) s =
     (case run_saga_op append_ev env i p s of (r, s') \<Rightarrow>
      case run_saga_ops append_ev i ps s' of (rs, s'') \<Rightarrow> (r # rs, s''))"

lemma run_saga_op_stored:
  assumes "mem_inv m" "\<not> ms_closed m" "sg_ctx env = None" "i \<noteq> ''''"
  shows "\<exists>m' e. run_saga_op mem_append_event env i p m = (None, m') \<and> mem_inv m' \<and> \<not> ms_closed m' \<and>
    ev_type e = saga_op_type p \<and> ev_caused_by e = '''' \<and>
    stream_of m' = (stream_of m)(i := stream_of m i @ [e])"
proof -
  note stored = saga_event_stored [OF assms]
  have "\<exists>data what j. run_saga_op mem_append_event env i p = saga_event mem_append_event env i (saga_op_type p) what data \<and>
      j_struct data = Inr j"
    by (cases p)
      (simp_all add: saga_add_step_def saga_complete_step_def saga_fail_step_def
        saga_compensate_step_def saga_complete_def saga_fail_def, (rule exI conjI refl | simp add: j_struct_def)+)
  then obtain data what j where r: "run_saga_op mem_append_event env i p =
      saga_event mem_append_event env i (saga_op_type p) what data" "j_struct data = Inr j" by blast
  have "saga_op_type p \<noteq> ''''" by (cases p) simp_all
  from stored [OF this r(2), of what] r(1) show ?thesis by auto
qed

section \<open>Properties\<close>



end
