(* ===== verification/Postgres_Repository.thy ===== *)
theory Postgres_Repository
  imports Postgres_Store Aggregate_Repository Payment_Saga
begin

text \<open>
  The clients of the event store over the PostgreSQL one: the repository of
  \<open>pkg/eventstore/aggregate.go\<close> loads from it as from any event log, but saves without the check
  its other clients rely on; the saga log of \<open>pkg/eventstore/payment_saga.go\<close> does not fit its
  columns.
\<close>

interpretation pg_wallets: aggregate_loader "pg_ops (calm env)" pg_inv pg_stream pg_snap wallet_ops wallet_state
  for env
  by unfold_locales

interpretation pg_payments: aggregate_loader "pg_ops (calm env)" pg_inv pg_stream pg_snap payment_ops payment_state
  for env
  by unfold_locales

section \<open>Saving\<close>

text \<open>A save whose batch the server accepts succeeds, at whatever version the aggregate was loaded.\<close>

lemma pg_save_accepted:
  assumes inv: "pg_inv t" and save: "repo_save (pg_ops env) AO 0 senv a t = (r, a', t')"
    and live: "se_ctx_append senv = None" and ne: "ag_uncommitted AO a \<noteq> []"
    and acc: "batch_accepted env (map (with_metadata AO senv a) (ag_uncommitted AO a)) t"
  shows "r = None \<and> pg_inv t' \<and> pg_snap t' = pg_snap t \<and>
    (\<exists>es'. list_all2 same_content (map (with_metadata AO senv a) (ag_uncommitted AO a)) es' \<and>
       batch_stored env (ag_id AO a) es' t t')"
proof -
  let ?es = "map (with_metadata AO senv a) (ag_uncommitted AO a)"
  obtain r1 t1 es' where app: "pg_append_events env None (se_now senv) ?es t = (r1, t1, es')"
    using prod_cases3 by blast
  have "?es \<noteq> []" "\<forall>e \<in> set ?es. ev_aggregate_id e = ag_id AO a" using ne by auto
  note eff = pg_append_events_effect [OF inv this app]
  with acc have r1: "r1 = None" "pg_inv t1" "list_all2 same_content ?es es'" "batch_stored env (ag_id AO a) es' t t1"
    by simp_all
  moreover from r1(4) have "pg_snap t1 = pg_snap t" by (auto simp: batch_stored_def pg_snap_def)
  moreover have "r = None" "t' = t1"
    using save live ne app r1(1) by (auto simp: repo_save_def Let_def should_create_snapshot_def)
  ultimately show ?thesis by blast
qed

section \<open>What stored wallet events do\<close>

text \<open>Every event a wallet queues sets the balance to the one its writer has computed.\<close>

definition sets_balance :: "event \<Rightarrow> float64 \<Rightarrow> time \<Rightarrow> bool" where
  "sets_balance e b u \<longleftrightarrow>
     (\<forall>v. wallet_apply_event e v = (None, v\<lparr>wa_balance := b, wa_updated_at := u, agg_version := agg_version v + 1\<rparr>))"

lemma run_commands_sets:
  "\<exists>es. agg_uncommitted (run_commands cs w) = agg_uncommitted w @ es \<and>
     (\<forall>e \<in> set es. \<exists>b u. sets_balance e b u) \<and>
     (es = [] \<or> (\<exists>u. sets_balance (last es) (wa_balance (run_commands cs w)) u))"
proof (induction cs arbitrary: w)
  case Nil
  then show ?case by (intro exI [of _ "[]"]) simp
next
  case (Cons c cs)
  show ?case
  proof (cases rule: run_command_cases [of c w])
    case (1 x)
    with Cons.IH [of w] show ?thesis by simp
  next
    case (2 e b u)
    then have e: "sets_balance e b u" by (simp add: command_effect_def sets_balance_def)
    from Cons.IH [of "queued e b u w"] obtain es where es:
      "agg_uncommitted (run_commands cs (queued e b u w)) = agg_uncommitted (queued e b u w) @ es"
      "\<forall>e \<in> set es. \<exists>b u. sets_balance e b u"
      "es = [] \<or> (\<exists>v. sets_balance (last es) (wa_balance (run_commands cs (queued e b u w))) v)" by blast
    have "wa_balance (run_commands cs (queued e b u w)) = b" if "es = []"
    proof -
      let ?q = "queued e b u w"
      from run_commands_effect [of cs ?q] es(1) that
      have "wallet_replay [] (?q\<lparr>agg_uncommitted := [], agg_version := 0\<rparr>) =
        (None, (run_commands cs ?q)\<lparr>agg_uncommitted := [], agg_version := 0 + int 0\<rparr>)" by auto
      then have "?q\<lparr>agg_uncommitted := [], agg_version := 0\<rparr> =
          (run_commands cs ?q)\<lparr>agg_uncommitted := [], agg_version := 0 + int 0\<rparr>" by simp
      from arg_cong [OF this, of wa_balance] show ?thesis by simp
    qed
    then show ?thesis
      using es e 2(1) by (intro exI [of _ "e # es"]) auto
  qed
qed

text \<open>What a wallet reads from a document survives \<open>JSONB\<close>, which orders and copies its fields.\<close>

definition jsonb_keeps :: "pg_env \<Rightarrow> bool" where
  "jsonb_keeps env \<longleftrightarrow> (\<forall>k j. decode_balance_data k (pe_jsonb env j) = decode_balance_data k j)"

lemma stored_sets_balance:
  assumes "jsonb_keeps env" "sets_balance e b u" "ev_type n = ev_type e" "ev_data n = pe_jsonb env (ev_data e)"
  shows "sets_balance n b u"
proof -
  have "wallet_apply_event n v = wallet_apply_event e v" for v
    using assms(1,3,4) by (simp add: wallet_apply_event_def jsonb_keeps_def)
  with assms(2) show ?thesis by (simp add: sets_balance_def)
qed

text \<open>The rows of a save, compared with the events the aggregate had queued.\<close>

lemma stored_rows:
  assumes "list_all2 same_content (map (with_metadata AO senv a) es) es'"
    and "list_all2 (\<lambda>e n. n = stored_event env (ev_seq e) e) es' new"
  shows "list_all2 (\<lambda>e n. ev_id n = ev_id e \<and> ev_type n = ev_type e \<and> ev_data n = pe_jsonb env (ev_data e)) es new"
proof (rule list_all2_all_nthI)
  show len: "length es = length new" using assms by (auto dest!: list_all2_lengthD)
  fix k
  assume "k < length es"
  with assms len have "same_content (with_metadata AO senv a (es ! k)) (es' ! k)"
    "new ! k = stored_event env (ev_seq (es' ! k)) (es' ! k)"
    by (auto simp: list_all2_conv_all_nth)
  with same_content_data [OF this(1)]
  show "ev_id (new ! k) = ev_id (es ! k) \<and> ev_type (new ! k) = ev_type (es ! k) \<and>
      ev_data (new ! k) = pe_jsonb env (ev_data (es ! k))"
    by (simp add: with_metadata_def)
qed

lemma apply_sets_balance:
  assumes "\<forall>e \<in> set es. \<exists>b u. sets_balance e b u"
  shows "\<exists>w'. apply_events wallet_ops es w = Inr w' \<and>
     (es \<noteq> [] \<longrightarrow> (\<forall>b u. sets_balance (last es) b u \<longrightarrow> wa_balance w' = b))"
  using assms
proof (induction es arbitrary: w)
  case Nil
  then show ?case by simp
next
  case (Cons e es)
  then obtain b u where e: "sets_balance e b u" by auto
  then have step: "wallet_apply_event e w = (None, w\<lparr>wa_balance := b, wa_updated_at := u, agg_version := agg_version w + 1\<rparr>)"
    by (simp add: sets_balance_def)
  have unique: "b' = b" if "sets_balance e b' u'" for b' u'
    using that step by (auto simp: sets_balance_def dest!: spec [of _ w] dest: arg_cong [where f = wa_balance])
  let ?w = "w\<lparr>wa_balance := b, wa_updated_at := u, agg_version := ev_version e\<rparr>"
  from Cons.IH [of ?w] Cons.prems obtain w' where "apply_events wallet_ops es ?w = Inr w'"
    "es \<noteq> [] \<longrightarrow> (\<forall>b u. sets_balance (last es) b u \<longrightarrow> wa_balance w' = b)" by auto
  then show ?case using step unique by (cases es) auto
qed

lemma apply_events_keeps:
  "apply_events wallet_ops es w = Inr w' \<Longrightarrow> agg_uncommitted w' = agg_uncommitted w \<and> agg_id w' = agg_id w"
proof (induction es arbitrary: w)
  case Nil
  then show ?case by simp
next
  case (Cons e es)
  then obtain v where v: "wallet_apply_event e w = (None, v)"
    "apply_events wallet_ops es (v\<lparr>agg_version := ev_version e\<rparr>) = Inr w'"
    by (auto split: prod.splits option.splits)
  then have "agg_uncommitted v = agg_uncommitted w \<and> agg_id v = agg_id w"
    by (auto simp: wallet_apply_event_def split: if_splits sum.splits)
  with Cons.IH [OF v(2)] show ?case by simp
qed

text \<open>A save of a wallet: the rows it adds end with one that sets the balance to the writer's.\<close>

lemma pg_wallet_save:
  assumes inv: "pg_inv t" and w: "agg_uncommitted w = []" "agg_id w = i" and jsonb: "jsonb_keeps env"
    and server: "pe_locking_refused env = None" and live: "se_ctx_append senv = None"
    and w1: "w1 = run_commands cs w" "agg_uncommitted w1 \<noteq> []"
    and fit: "list_all (\<lambda>e. too_long e = None) (map (with_metadata wallet_ops senv w1) (agg_uncommitted w1))"
    and ids: "distinct (map ev_id (pg_events t @ agg_uncommitted w1))"
    and save: "repo_save (pg_ops (calm env)) wallet_ops 0 senv w1 t = (r, w1', t1)"
  shows "r = None \<and> pg_inv t1 \<and> pg_snap t1 = pg_snap t \<and>
    (\<exists>new u. pg_stream t1 i = pg_stream t i @ new \<and>
       map ev_id (pg_events t1) = map ev_id (pg_events t @ agg_uncommitted w1) \<and>
       length new = length (agg_uncommitted w1) \<and> (\<forall>n \<in> set new. \<exists>b u. sets_balance n b u) \<and>
       sets_balance (last new) (wa_balance w1) u)"
proof -
  let ?es = "map (with_metadata wallet_ops senv w1) (agg_uncommitted w1)"
  have ids': "map ev_id ?es = map ev_id (agg_uncommitted w1)" by (simp add: with_metadata_def)
  have id1: "agg_id w1 = i" using run_commands_queue(3) [OF w(1), of cs] w(2) w1(1) by simp
  have acc: "batch_accepted (calm env) ?es t"
    using server fit ids unfolding batch_accepted_def map_append ids' by simp
  have ne: "ag_uncommitted wallet_ops w1 \<noteq> []" using w1(2) by simp
  have kept: "jsonb_keeps (calm env)" using jsonb by (simp add: jsonb_keeps_def calm_def)
  from pg_save_accepted [OF inv save live ne] acc obtain es' where
    res: "r = None" "pg_inv t1" "pg_snap t1 = pg_snap t" and es': "list_all2 same_content ?es es'"
    and st: "batch_stored (calm env) i es' t t1" using id1 by auto
  from st obtain new where new: "pg_events t1 = pg_events t @ new" "pg_stream t1 i = pg_stream t i @ new"
    "list_all2 (\<lambda>e n. n = stored_event env (ev_seq e) e) es' new" by (auto simp: batch_stored_def)
  note rows = stored_rows [OF es' [unfolded wallet_ops_simps] new(3)]
  have len: "length new = length (agg_uncommitted w1)" using rows by (auto dest: list_all2_lengthD)
  have ids1: "map ev_id new = map ev_id (agg_uncommitted w1)"
    using rows by (induction rule: list_all2_induct) simp_all
  have row: "sets_balance (new ! k) b u" if "k < length new" "sets_balance (agg_uncommitted w1 ! k) b u" for k b u
    using stored_sets_balance [OF jsonb that(2)] rows that(1) len by (simp add: list_all2_conv_all_nth)
  from run_commands_sets [of cs w] w(1) w1 obtain u where
    sets: "\<forall>e \<in> set (agg_uncommitted w1). \<exists>b u. sets_balance e b u" "sets_balance (last (agg_uncommitted w1)) (wa_balance w1) u"
    by auto
  have "\<forall>n \<in> set new. \<exists>b u. sets_balance n b u"
    using row sets(1) len by (metis in_set_conv_nth nth_mem)
  moreover have "sets_balance (last new) (wa_balance w1) u"
    using row [of "length new - 1"] sets(2) len w1(2)
    by (cases "new = []") (simp_all add: last_conv_nth)
  ultimately show ?thesis using res new(1,2) len ids1 by auto
qed

lemma new_event_correlation:
  "new_event a ty et d c co i t1 t2 = Inr e \<Longrightarrow> ev_correlation_id e = co"
  by (auto simp: new_event_def rbind_eq_Inr)

section \<open>Properties\<close>


text \<open>Two users who each deposit 3 on a new wallet: the balance is 3 in the end.\<close>

definition example_deposit_by :: "string \<Rightarrow> wallet_command" where
  "example_deposit_by i = Add (example_env\<lparr>oe_event_id := i\<rparr>) (FFin (of_int 3)) ''x''"

lemma example_deposit_by_queues:
  "\<exists>j. run_commands [example_deposit_by i] example_wallet =
     queued (wallet_event (example_env\<lparr>oe_event_id := i\<rparr>) ''BalanceAdded'' j example_wallet)
       (FFin (of_int 3)) (oe_at example_env) example_wallet"
  using deposit_event [of example_wallet 0 3 "example_env\<lparr>oe_event_id := i\<rparr>" "''x''"]
  by (auto simp: example_deposit_by_def)


text \<open>The saga log cannot be kept in the PostgreSQL store.  Its events carry \<open>saga-\<close> and the
  uuid of the saga as correlation id, 41 characters for a column of 36: whatever the server, its
  configuration and the environment do, starting a saga and every event of one fail, and nothing is
  stored.\<close>

theorem postgres_refuses_sagas:
  assumes uuid: "length saga_id = 36"
  shows "(\<exists>x. start_payment_saga (pg_append_event cfg env) senv saga_id created updated payment_id user_id t = (Inl x, t)) \<and>
    (\<exists>x. saga_event (pg_append_event cfg env) senv saga_id event_type what data t = (Some x, t))"
proof -
  have refused: "\<exists>x e'. pg_append_event cfg env ctx now e t = (Some x, t, e')"
    if "ev_correlation_id e = ''saga-'' @ saga_id" for ctx now e
  proof -
    have "too_long e \<noteq> None" using uuid that by (simp add: too_long_def)
    then have "insert_event env 2 (numbered now v e) rows \<noteq> Inr rows'" for v rows rows'
      by (simp add: insert_event_ok event_violation_def)
    then show ?thesis
      by (auto simp: pg_append_event_def Let_def split: option.split sum.split)
  qed
  have event: "\<exists>x. saga_event (pg_append_event cfg env) senv saga_id event_type what data t = (Some x, t)"
  proof (cases "new_event saga_id ''PaymentSaga'' event_type (j_struct data) '''' (''saga-'' @ saga_id)
      (sg_event_id senv) (sg_t1 senv) (sg_t2 senv)")
    case (Inl x)
    then show ?thesis by (simp add: saga_event_def)
  next
    case (Inr e)
    obtain x e' where "pg_append_event cfg env (sg_ctx senv) (sg_now senv) e t = (Some x, t, e')"
      using refused [OF new_event_correlation [OF Inr]] by blast
    with Inr show ?thesis by (simp add: saga_event_def)
  qed
  obtain e where e: "new_event saga_id ''PaymentSaga'' ''SagaStarted''
      (j_struct [(''payment_id'', j_str payment_id), (''saga_id'', j_str saga_id),
        (''status'', j_str ''started''), (''user_id'', j_str user_id)])
      user_id (''saga-'' @ saga_id) (sg_event_id senv) (sg_t1 senv) (sg_t2 senv) = Inr e"
    by (simp add: j_struct_def)
  obtain x e' where "pg_append_event cfg env (sg_ctx senv) (sg_now senv) e t = (Some x, t, e')"
    using refused [OF new_event_correlation [OF e]] by blast
  with e event show ?thesis by (simp add: start_payment_saga_def)
qed

text \<open>The saga of a uuid, in an environment where nothing else goes wrong.\<close>

lemma postgres_refuses_sagas_witness:
  "\<exists>x. start_payment_saga (pg_append_event \<lparr>pc_optimistic_locking = True, pc_notifications = False\<rparr> example_pg_env)
     \<lparr>sg_ctx = None, sg_at = 1, sg_event_id = ''e'', sg_t1 = 1, sg_t2 = 1, sg_now = 1\<rparr> nil_uuid 1 1 ''p'' ''u''
     pg_create_tables = (Inl x, pg_create_tables)"
  using postgres_refuses_sagas [of nil_uuid] by (simp add: nil_uuid_def)

end
