(* ===== verification/Read_Models.thy ===== *)
theory Read_Models
  imports Aggregates "HOL-Library.Sublist"
begin

text \<open>
  The store of \<open>pkg/readmodels/store.go\<close>, the three read models and the handlers of
  \<open>BalanceProjectionService\<close> that keep them up to date.

  A read model is put into the store as a Go value and read back by encoding it and decoding the
  text into a struct, so the store holds for every key what encoding its value gives: a document, or
  an error (a value with an infinite total can be stored, but not read).  The field
  \<open>metadata\<close> of a balance is an empty map, which is left out of the document.
\<close>

section \<open>The store\<close>

record 's read_model_ops =
  rm_set :: "string \<Rightarrow> json go_result \<Rightarrow> 's \<Rightarrow> (go_error option \<times> 's) go_run"
  rm_get :: "string \<Rightarrow> 's \<Rightarrow> json go_result"
  rm_delete :: "string \<Rightarrow> 's \<Rightarrow> go_error option \<times> 's"
  rm_get_all :: "string \<Rightarrow> 's \<Rightarrow> (string \<rightharpoonup> json go_result) go_result"

text \<open>\<open>MemoryReadModelStore\<close>: its map, which is nil after \<open>Close\<close>; writing to a nil map panics.\<close>

type_synonym memory_models = "(string \<rightharpoonup> json go_result) option"

definition new_memory_models :: memory_models where
  "new_memory_models = Some Map.empty"

definition models_set :: "string \<Rightarrow> json go_result \<Rightarrow> memory_models \<Rightarrow> (go_error option \<times> memory_models) go_run" where
  "models_set k v s = (case s of None \<Rightarrow> Panicked | Some m \<Rightarrow> Returned (None, Some (m(k \<mapsto> v))))"

definition models_get :: "string \<Rightarrow> memory_models \<Rightarrow> json go_result" where
  "models_get k s =
     (case (case s of None \<Rightarrow> None | Some m \<Rightarrow> m k) of
        None \<Rightarrow> Inl (''key not found: '' @ k)
      | Some v \<Rightarrow> v)"

definition models_delete :: "string \<Rightarrow> memory_models \<Rightarrow> go_error option \<times> memory_models" where
  "models_delete k s = (None, map_option (\<lambda>m. m(k := None)) s)"

text \<open>A pattern is a key, or a prefix with a star behind it.\<close>

definition matches_pattern :: "string \<Rightarrow> string \<Rightarrow> bool" where
  "matches_pattern pattern k \<longleftrightarrow> pattern = ''*'' \<or> k = pattern \<or>
     suffix ''*'' pattern \<and> prefix (butlast pattern) k"

definition models_get_all :: "string \<Rightarrow> memory_models \<Rightarrow> (string \<rightharpoonup> json go_result) go_result" where
  "models_get_all pattern s =
     Inr (case s of None \<Rightarrow> Map.empty
          | Some m \<Rightarrow> (\<lambda>k. if matches_pattern pattern k then m k else None))"

definition models_close :: "memory_models \<Rightarrow> memory_models" where
  "models_close s = None"

definition memory_models_ops :: "memory_models read_model_ops" where
  "memory_models_ops = \<lparr>rm_set = models_set, rm_get = models_get, rm_delete = models_delete,
     rm_get_all = models_get_all\<rparr>"

section \<open>The read models\<close>

record balance_model =
  bm_user_id :: string
  bm_currency :: string
  bm_balance :: float64
  bm_last_updated :: time
  bm_last_event_version :: int
  bm_transaction_count :: int

record summary_model =
  sm_user_id :: string
  sm_currency :: string
  sm_current_balance :: float64
  sm_total_credits :: float64
  sm_total_debits :: float64
  sm_transaction_count :: int
  sm_last_transaction_at :: time
  sm_created_at :: time
  sm_last_updated :: time
  sm_last_processed_event :: int

record status_model =
  pm_user_id :: string
  pm_total :: int
  pm_completed :: int
  pm_failed :: int
  pm_pending :: int
  pm_total_amount :: float64
  pm_last_payment_at :: time
  pm_last_updated :: time

definition encode_balance :: "balance_model \<Rightarrow> json go_result" where
  "encode_balance b = j_struct
     [(''user_id'', j_str (bm_user_id b)), (''currency'', j_str (bm_currency b)),
      (''balance'', j_float (bm_balance b)), (''last_updated'', j_time (bm_last_updated b)),
      (''last_event_version'', j_int (bm_last_event_version b)),
      (''transaction_count'', j_int (bm_transaction_count b))]"

definition decode_balance :: "json \<Rightarrow> balance_model go_result" where
  "decode_balance j =
     rbind (d_struct j) (\<lambda>kvs.
     rbind (d_str (j_field kvs ''user_id'')) (\<lambda>user_id.
     rbind (d_str (j_field kvs ''currency'')) (\<lambda>currency.
     rbind (d_float (j_field kvs ''balance'')) (\<lambda>balance.
     rbind (d_time (j_field kvs ''last_updated'')) (\<lambda>last_updated.
     rbind (d_int (j_field kvs ''last_event_version'')) (\<lambda>version.
     rbind (d_int (j_field kvs ''transaction_count'')) (\<lambda>count.
     Inr \<lparr>bm_user_id = user_id, bm_currency = currency, bm_balance = balance,
          bm_last_updated = last_updated, bm_last_event_version = version,
          bm_transaction_count = count\<rparr>)))))))"

definition encode_summary :: "summary_model \<Rightarrow> json go_result" where
  "encode_summary s = j_struct
     [(''user_id'', j_str (sm_user_id s)), (''currency'', j_str (sm_currency s)),
      (''current_balance'', j_float (sm_current_balance s)), (''total_credits'', j_float (sm_total_credits s)),
      (''total_debits'', j_float (sm_total_debits s)), (''transaction_count'', j_int (sm_transaction_count s)),
      (''last_transaction_at'', j_time (sm_last_transaction_at s)), (''created_at'', j_time (sm_created_at s)),
      (''last_updated'', j_time (sm_last_updated s)),
      (''last_processed_event'', j_int (sm_last_processed_event s))]"

definition decode_summary :: "json \<Rightarrow> summary_model go_result" where
  "decode_summary j =
     rbind (d_struct j) (\<lambda>kvs.
     rbind (d_str (j_field kvs ''user_id'')) (\<lambda>user_id.
     rbind (d_str (j_field kvs ''currency'')) (\<lambda>currency.
     rbind (d_float (j_field kvs ''current_balance'')) (\<lambda>current.
     rbind (d_float (j_field kvs ''total_credits'')) (\<lambda>credits.
     rbind (d_float (j_field kvs ''total_debits'')) (\<lambda>debits.
     rbind (d_int (j_field kvs ''transaction_count'')) (\<lambda>count.
     rbind (d_time (j_field kvs ''last_transaction_at'')) (\<lambda>last_tx.
     rbind (d_time (j_field kvs ''created_at'')) (\<lambda>created.
     rbind (d_time (j_field kvs ''last_updated'')) (\<lambda>updated.
     rbind (d_int (j_field kvs ''last_processed_event'')) (\<lambda>event.
     Inr \<lparr>sm_user_id = user_id, sm_currency = currency, sm_current_balance = current,
          sm_total_credits = credits, sm_total_debits = debits, sm_transaction_count = count,
          sm_last_transaction_at = last_tx, sm_created_at = created, sm_last_updated = updated,
          sm_last_processed_event = event\<rparr>)))))))))))"

definition encode_status :: "status_model \<Rightarrow> json go_result" where
  "encode_status p = j_struct
     [(''user_id'', j_str (pm_user_id p)), (''total_payments'', j_int (pm_total p)),
      (''completed_payments'', j_int (pm_completed p)), (''failed_payments'', j_int (pm_failed p)),
      (''pending_payments'', j_int (pm_pending p)), (''total_amount'', j_float (pm_total_amount p)),
      (''last_payment_at'', j_time (pm_last_payment_at p)), (''last_updated'', j_time (pm_last_updated p))]"

definition decode_status :: "json \<Rightarrow> status_model go_result" where
  "decode_status j =
     rbind (d_struct j) (\<lambda>kvs.
     rbind (d_str (j_field kvs ''user_id'')) (\<lambda>user_id.
     rbind (d_int (j_field kvs ''total_payments'')) (\<lambda>total.
     rbind (d_int (j_field kvs ''completed_payments'')) (\<lambda>completed.
     rbind (d_int (j_field kvs ''failed_payments'')) (\<lambda>failed.
     rbind (d_int (j_field kvs ''pending_payments'')) (\<lambda>pending.
     rbind (d_float (j_field kvs ''total_amount'')) (\<lambda>amount.
     rbind (d_time (j_field kvs ''last_payment_at'')) (\<lambda>last_payment.
     rbind (d_time (j_field kvs ''last_updated'')) (\<lambda>updated.
     Inr \<lparr>pm_user_id = user_id, pm_total = total, pm_completed = completed, pm_failed = failed,
          pm_pending = pending, pm_total_amount = amount, pm_last_payment_at = last_payment,
          pm_last_updated = updated\<rparr>)))))))))"

section \<open>The data of wallet events\<close>

text \<open>\<open>WalletDeductedEventData\<close> and \<open>WalletCreditedEventData\<close> differ in the name of the time.\<close>

record wallet_tx_data =
  wt_transaction_id :: string
  wt_amount :: float64
  wt_previous_balance :: float64
  wt_new_balance :: float64
  wt_description :: string
  wt_at :: time
  wt_user_id :: string
  wt_currency :: string

definition encode_wallet_tx :: "string \<Rightarrow> wallet_tx_data \<Rightarrow> json go_result" where
  "encode_wallet_tx at_key d = j_struct
     [(''transaction_id'', j_str (wt_transaction_id d)), (''amount'', j_float (wt_amount d)),
      (''previous_balance'', j_float (wt_previous_balance d)), (''new_balance'', j_float (wt_new_balance d)),
      (''description'', j_str (wt_description d)), (at_key, j_time (wt_at d)),
      (''user_id'', j_str (wt_user_id d)), (''currency'', j_str (wt_currency d))]"

definition decode_wallet_tx :: "string \<Rightarrow> json \<Rightarrow> wallet_tx_data go_result" where
  "decode_wallet_tx at_key j =
     rbind (d_struct j) (\<lambda>kvs.
     rbind (d_str (j_field kvs ''transaction_id'')) (\<lambda>transaction_id.
     rbind (d_float (j_field kvs ''amount'')) (\<lambda>amount.
     rbind (d_float (j_field kvs ''previous_balance'')) (\<lambda>previous.
     rbind (d_float (j_field kvs ''new_balance'')) (\<lambda>new_balance.
     rbind (d_str (j_field kvs ''description'')) (\<lambda>description.
     rbind (d_time (j_field kvs at_key)) (\<lambda>at_time.
     rbind (d_str (j_field kvs ''user_id'')) (\<lambda>user_id.
     rbind (d_str (j_field kvs ''currency'')) (\<lambda>currency.
     Inr \<lparr>wt_transaction_id = transaction_id, wt_amount = amount, wt_previous_balance = previous,
          wt_new_balance = new_balance, wt_description = description, wt_at = at_time,
          wt_user_id = user_id, wt_currency = currency\<rparr>)))))))))"

section \<open>The handlers\<close>

definition balance_key :: "string \<Rightarrow> string \<Rightarrow> string" where
  "balance_key user currency = ''balance:'' @ user @ '':'' @ currency"

definition summary_key :: "string \<Rightarrow> string \<Rightarrow> string" where
  "summary_key user currency = ''wallet_summary:'' @ user @ '':'' @ currency"

definition status_key :: "string \<Rightarrow> string" where
  "status_key user = ''payment_status:'' @ user"

text \<open>\<open>Get\<close> into a struct; any error stands for \<open>not there\<close>.\<close>

definition read_model :: "'s read_model_ops \<Rightarrow> (json \<Rightarrow> 'm go_result) \<Rightarrow> 'm \<Rightarrow> string \<Rightarrow> 's \<Rightarrow> 'm" where
  "read_model RS decode fresh k s =
     (case rbind (rm_get RS k s) decode of Inl _ \<Rightarrow> fresh | Inr m \<Rightarrow> m)"

definition fresh_balance :: "string \<Rightarrow> string \<Rightarrow> balance_model" where
  "fresh_balance user currency = \<lparr>bm_user_id = user, bm_currency = currency, bm_balance = f0,
     bm_last_updated = 0, bm_last_event_version = 0, bm_transaction_count = 0\<rparr>"

definition fresh_summary :: "string \<Rightarrow> string \<Rightarrow> summary_model" where
  "fresh_summary user currency = \<lparr>sm_user_id = user, sm_currency = currency, sm_current_balance = f0,
     sm_total_credits = f0, sm_total_debits = f0, sm_transaction_count = 0, sm_last_transaction_at = 0,
     sm_created_at = 0, sm_last_updated = 0, sm_last_processed_event = 0\<rparr>"

definition fresh_status :: "string \<Rightarrow> status_model" where
  "fresh_status user = \<lparr>pm_user_id = user, pm_total = 0, pm_completed = 0, pm_failed = 0, pm_pending = 0,
     pm_total_amount = f0, pm_last_payment_at = 0, pm_last_updated = 0\<rparr>"

definition count_transaction :: "string \<Rightarrow> float64 \<Rightarrow> summary_model \<Rightarrow> summary_model" where
  "count_transaction kind amount sm =
     (if kind = ''debit'' then sm\<lparr>sm_total_debits := fadd (sm_total_debits sm) amount,
        sm_transaction_count := sm_transaction_count sm + 1\<rparr>
      else if kind = ''credit'' then sm\<lparr>sm_total_credits := fadd (sm_total_credits sm) amount,
        sm_transaction_count := sm_transaction_count sm + 1\<rparr>
      else sm)"

definition update_wallet_summary ::
  "'s read_model_ops \<Rightarrow> string \<Rightarrow> string \<Rightarrow> float64 \<Rightarrow> string \<Rightarrow> time \<Rightarrow> int \<Rightarrow> time \<Rightarrow> 's \<Rightarrow>
     (go_error option \<times> 's) go_run" where
  "update_wallet_summary RS user currency amount kind timestamp sequence now s =
     (let k = summary_key user currency;
          sm = count_transaction kind amount (read_model RS decode_summary (fresh_summary user currency) k s);
          sm1 = (case rbind (rm_get RS (balance_key user currency) s) decode_balance of
                   Inl _ \<Rightarrow> sm | Inr b \<Rightarrow> sm\<lparr>sm_current_balance := bm_balance b\<rparr>)
      in rm_set RS k (encode_summary (sm1\<lparr>sm_last_transaction_at := timestamp, sm_last_updated := now,
           sm_last_processed_event := sequence\<rparr>)) s)"

text \<open>The two wallet handlers, of which the second serves refunds too.\<close>

definition handle_wallet_tx ::
  "'s read_model_ops \<Rightarrow> string \<Rightarrow> string \<Rightarrow> string \<Rightarrow> time \<Rightarrow> event \<Rightarrow> 's \<Rightarrow> (go_error option \<times> 's) go_run" where
  "handle_wallet_tx RS name at_key kind now e s =
     (case decode_wallet_tx at_key (ev_data e) of
        Inl x \<Rightarrow> Returned (Some (''failed to unmarshal '' @ name @ '' event: '' @ x), s)
      | Inr d \<Rightarrow>
         (let k = balance_key (wt_user_id d) (wt_currency d);
              b = read_model RS decode_balance (fresh_balance (wt_user_id d) (wt_currency d)) k s;
              b1 = b\<lparr>bm_balance := wt_new_balance d, bm_last_updated := ev_created_at e,
                     bm_last_event_version := ev_version e, bm_transaction_count := bm_transaction_count b + 1\<rparr>
          in run_bind (rm_set RS k (encode_balance b1) s) (\<lambda>(r, s1).
               case r of Some x \<Rightarrow> Returned (Some (''failed to update balance: '' @ x), s1)
               | None \<Rightarrow> update_wallet_summary RS (wt_user_id d) (wt_currency d) (wt_amount d) kind
                   (ev_created_at e) (ev_seq e) now s1)))"

definition handle_wallet_deducted :: "'s read_model_ops \<Rightarrow> time \<Rightarrow> event \<Rightarrow> 's \<Rightarrow> (go_error option \<times> 's) go_run" where
  "handle_wallet_deducted RS = handle_wallet_tx RS ''WalletDeducted'' ''deducted_at'' ''debit''"

definition handle_wallet_credited :: "'s read_model_ops \<Rightarrow> time \<Rightarrow> event \<Rightarrow> 's \<Rightarrow> (go_error option \<times> 's) go_run" where
  "handle_wallet_credited RS = handle_wallet_tx RS ''WalletCredited'' ''credited_at'' ''credit''"

text \<open>One payment more: initiated, completed or failed.\<close>

definition count_payment :: "string \<Rightarrow> float64 \<Rightarrow> status_model \<Rightarrow> status_model" where
  "count_payment status amount p =
     (if status = ''initiated'' then p\<lparr>pm_total := pm_total p + 1, pm_pending := pm_pending p + 1,
        pm_total_amount := fadd (pm_total_amount p) amount\<rparr>
      else if status = ''completed'' then p\<lparr>pm_completed := pm_completed p + 1,
        pm_pending := (if pm_pending p > 0 then pm_pending p - 1 else pm_pending p)\<rparr>
      else if status = ''failed'' then p\<lparr>pm_failed := pm_failed p + 1,
        pm_pending := (if pm_pending p > 0 then pm_pending p - 1 else pm_pending p)\<rparr>
      else p)"

definition update_payment_status ::
  "'s read_model_ops \<Rightarrow> string \<Rightarrow> string \<Rightarrow> float64 \<Rightarrow> time \<Rightarrow> time \<Rightarrow> 's \<Rightarrow> (go_error option \<times> 's) go_run" where
  "update_payment_status RS user status amount timestamp now s =
     (let k = status_key user;
          p = count_payment status amount (read_model RS decode_status (fresh_status user) k s)
      in rm_set RS k (encode_status (p\<lparr>pm_last_payment_at := timestamp, pm_last_updated := now\<rparr>)) s)"

definition project_payment_initiated :: "'s read_model_ops \<Rightarrow> time \<Rightarrow> event \<Rightarrow> 's \<Rightarrow> (go_error option \<times> 's) go_run" where
  "project_payment_initiated RS now e s =
     (case decode_payment_initiated (ev_data e) of
        Inl x \<Rightarrow> Returned (Some (''failed to unmarshal PaymentInitiated event: '' @ x), s)
      | Inr d \<Rightarrow> update_payment_status RS (pi_user_id d) ''initiated'' (pi_amount d) (ev_created_at e) now s)"

definition project_payment_completed :: "'s read_model_ops \<Rightarrow> time \<Rightarrow> event \<Rightarrow> 's \<Rightarrow> (go_error option \<times> 's) go_run" where
  "project_payment_completed RS now e s =
     (case decode_payment_completed (ev_data e) of
        Inl x \<Rightarrow> Returned (Some (''failed to unmarshal PaymentCompleted event: '' @ x), s)
      | Inr d \<Rightarrow> update_payment_status RS (ev_caused_by e) ''completed'' f0 (ev_created_at e) now s)"

definition project_payment_failed :: "'s read_model_ops \<Rightarrow> time \<Rightarrow> event \<Rightarrow> 's \<Rightarrow> (go_error option \<times> 's) go_run" where
  "project_payment_failed RS now e s =
     (case decode_payment_failed (ev_data e) of
        Inl x \<Rightarrow> Returned (Some (''failed to unmarshal PaymentFailed event: '' @ x), s)
      | Inr d \<Rightarrow> update_payment_status RS (ev_caused_by e) ''failed'' f0 (ev_created_at e) now s)"

section \<open>The queries\<close>

definition query_balance :: "'s read_model_ops \<Rightarrow> time \<Rightarrow> string \<Rightarrow> string \<Rightarrow> 's \<Rightarrow> balance_model" where
  "query_balance RS now user currency s =
     read_model RS decode_balance ((fresh_balance user currency)\<lparr>bm_last_updated := now\<rparr>)
       (balance_key user currency) s"

definition query_wallet_summary :: "'s read_model_ops \<Rightarrow> string \<Rightarrow> string \<Rightarrow> 's \<Rightarrow> summary_model go_result" where
  "query_wallet_summary RS user currency s =
     (case rbind (rm_get RS (summary_key user currency) s) decode_summary of
        Inl _ \<Rightarrow> Inl (''wallet summary not found for user '' @ user @ '' currency '' @ currency)
      | Inr sm \<Rightarrow> Inr sm)"

definition query_payment_status :: "'s read_model_ops \<Rightarrow> string \<Rightarrow> 's \<Rightarrow> status_model" where
  "query_payment_status RS user s = read_model RS decode_status (fresh_status user) (status_key user) s"

definition query_all_balances :: "'s read_model_ops \<Rightarrow> 's \<Rightarrow> (string \<rightharpoonup> balance_model) go_result" where
  "query_all_balances RS s =
     (case rm_get_all RS ''balance:*'' s of
        Inl x \<Rightarrow> Inl (''failed to get all balances: '' @ x)
      | Inr all \<Rightarrow> Inr (\<lambda>k. case all k of None \<Rightarrow> None
          | Some v \<Rightarrow> (case rbind v decode_balance of Inl _ \<Rightarrow> None | Inr b \<Rightarrow> Some b)))"

section \<open>What a store promises\<close>

text \<open>The contract of an open store: \<open>lookup s k\<close> is what encoding the value of a key gives.\<close>

locale read_model_store =
  fixes RS :: "'s read_model_ops"
    and inv :: "'s \<Rightarrow> bool"
    and lookup :: "'s \<Rightarrow> string \<Rightarrow> json go_result option"
  assumes set: "inv s \<Longrightarrow> \<exists>s'. rm_set RS k v s = Returned (None, s') \<and> inv s' \<and> lookup s' = (lookup s)(k \<mapsto> v)"
    and get: "inv s \<Longrightarrow> rm_get RS k s = (case lookup s k of None \<Rightarrow> Inl (''key not found: '' @ k) | Some v \<Rightarrow> v)"
begin

lemma read_model_lookup:
  "inv s \<Longrightarrow> read_model RS decode fresh k s =
     (case lookup s k of None \<Rightarrow> fresh | Some v \<Rightarrow> (case rbind v decode of Inl _ \<Rightarrow> fresh | Inr x \<Rightarrow> x))"
  by (simp add: read_model_def get split: option.split)

text \<open>What is written is read back when it can be encoded.\<close>

lemma read_after_set:
  assumes "inv s" "lookup s k = Some (encode x)" "\<And>j. encode x = Inr j \<Longrightarrow> decode j = Inr x" "is_ok (encode x)"
  shows "read_model RS decode fresh k s = x"
  using assms by (auto simp: read_model_lookup split: sum.splits)

lemma update_wallet_summary_effect:
  assumes "inv s"
  shows "\<exists>s' sm. update_wallet_summary RS user currency amount kind timestamp sequence now s = Returned (None, s') \<and>
    inv s' \<and> lookup s' = (lookup s)(summary_key user currency \<mapsto> encode_summary sm) \<and>
    sm = (count_transaction kind amount
            (read_model RS decode_summary (fresh_summary user currency) (summary_key user currency) s))
      \<lparr>sm_last_transaction_at := timestamp, sm_last_updated := now, sm_last_processed_event := sequence,
       sm_current_balance := (case rbind (rm_get RS (balance_key user currency) s) decode_balance of
          Inl _ \<Rightarrow> sm_current_balance (read_model RS decode_summary (fresh_summary user currency) (summary_key user currency) s)
        | Inr b \<Rightarrow> bm_balance b)\<rparr>"
proof -
  let ?sm = "count_transaction kind amount
    (read_model RS decode_summary (fresh_summary user currency) (summary_key user currency) s)"
  let ?sm1 = "case rbind (rm_get RS (balance_key user currency) s) decode_balance of
    Inl _ \<Rightarrow> ?sm | Inr b \<Rightarrow> ?sm\<lparr>sm_current_balance := bm_balance b\<rparr>"
  let ?sm2 = "?sm1\<lparr>sm_last_transaction_at := timestamp, sm_last_updated := now, sm_last_processed_event := sequence\<rparr>"
  obtain s' where s': "rm_set RS (summary_key user currency) (encode_summary ?sm2) s = Returned (None, s')" "inv s'"
    "lookup s' = (lookup s)(summary_key user currency \<mapsto> encode_summary ?sm2)"
    using set [OF assms] by blast
  have "sm_current_balance ?sm = sm_current_balance
      (read_model RS decode_summary (fresh_summary user currency) (summary_key user currency) s)"
    by (simp add: count_transaction_def)
  with s' show ?thesis
    by (intro exI [of _ s'] exI [of _ ?sm2])
      (auto simp: update_wallet_summary_def Let_def split: sum.split)
qed

lemma handle_wallet_tx_effect:
  assumes inv: "inv s" and d: "decode_wallet_tx at_key (ev_data e) = Inr d"
    and b: "b = read_model RS decode_balance (fresh_balance (wt_user_id d) (wt_currency d))
      (balance_key (wt_user_id d) (wt_currency d)) s"
  shows "\<exists>s1 s'. handle_wallet_tx RS name at_key kind now e s = Returned (None, s') \<and> inv s' \<and> inv s1 \<and>
    lookup s1 = (lookup s)(balance_key (wt_user_id d) (wt_currency d) \<mapsto>
      encode_balance (b\<lparr>bm_balance := wt_new_balance d, bm_last_updated := ev_created_at e,
        bm_last_event_version := ev_version e, bm_transaction_count := bm_transaction_count b + 1\<rparr>)) \<and>
    update_wallet_summary RS (wt_user_id d) (wt_currency d) (wt_amount d) kind (ev_created_at e) (ev_seq e) now s1 =
      Returned (None, s')"
proof -
  obtain s1 where s1: "rm_set RS (balance_key (wt_user_id d) (wt_currency d))
      (encode_balance (b\<lparr>bm_balance := wt_new_balance d, bm_last_updated := ev_created_at e,
        bm_last_event_version := ev_version e, bm_transaction_count := bm_transaction_count b + 1\<rparr>)) s =
      Returned (None, s1)" "inv s1"
    "lookup s1 = (lookup s)(balance_key (wt_user_id d) (wt_currency d) \<mapsto>
      encode_balance (b\<lparr>bm_balance := wt_new_balance d, bm_last_updated := ev_created_at e,
        bm_last_event_version := ev_version e, bm_transaction_count := bm_transaction_count b + 1\<rparr>))"
    using set [OF inv] by blast
  from update_wallet_summary_effect [OF s1(2)] obtain s' where
    "update_wallet_summary RS (wt_user_id d) (wt_currency d) (wt_amount d) kind (ev_created_at e) (ev_seq e) now s1 =
      Returned (None, s')" "inv s'" by blast
  with s1 d b show ?thesis by (intro exI [of _ s1] exI [of _ s']) (simp add: handle_wallet_tx_def Let_def)
qed

lemma update_payment_status_effect:
  assumes "inv s"
  shows "\<exists>s'. update_payment_status RS user status amount timestamp now s = Returned (None, s') \<and> inv s' \<and>
    lookup s' = (lookup s)(status_key user \<mapsto> encode_status
      ((count_payment status amount (read_model RS decode_status (fresh_status user) (status_key user) s))
        \<lparr>pm_last_payment_at := timestamp, pm_last_updated := now\<rparr>))"
  using set [OF assms] by (simp add: update_payment_status_def Let_def)

end

definition models_open :: "memory_models \<Rightarrow> bool" where
  "models_open s \<longleftrightarrow> s \<noteq> None"

definition models_lookup :: "memory_models \<Rightarrow> string \<Rightarrow> json go_result option" where
  "models_lookup s = (case s of None \<Rightarrow> Map.empty | Some m \<Rightarrow> m)"

lemma memory_models_ops_simps [simp]:
  "rm_set memory_models_ops = models_set" "rm_get memory_models_ops = models_get"
  "rm_delete memory_models_ops = models_delete" "rm_get_all memory_models_ops = models_get_all"
  by (simp_all add: memory_models_ops_def)

interpretation memory_models: read_model_store memory_models_ops models_open models_lookup
  by unfold_locales (auto simp: models_set_def models_get_def models_open_def models_lookup_def)

lemma new_memory_models_simps [simp]:
  "models_open new_memory_models" "models_lookup new_memory_models = Map.empty"
  by (simp_all add: new_memory_models_def models_open_def models_lookup_def)

section \<open>Round trips and keys\<close>

lemma encode_balance_ok [simp]: "is_ok (encode_balance b) \<longleftrightarrow> finite64 (bm_balance b)"
  by (cases "bm_balance b") (auto simp: encode_balance_def j_struct_def finite64_def)

lemma decode_encode_balance: "encode_balance b = Inr j \<Longrightarrow> decode_balance j = Inr b"
  by (auto simp: encode_balance_def decode_balance_def encode_simps)

lemma encode_summary_ok [simp]:
  "is_ok (encode_summary s) \<longleftrightarrow>
     finite64 (sm_current_balance s) \<and> finite64 (sm_total_credits s) \<and> finite64 (sm_total_debits s)"
  by (cases "sm_current_balance s"; cases "sm_total_credits s"; cases "sm_total_debits s")
    (auto simp: encode_summary_def j_struct_def finite64_def)

lemma decode_encode_summary: "encode_summary s = Inr j \<Longrightarrow> decode_summary j = Inr s"
  by (auto simp: encode_summary_def decode_summary_def encode_simps)

lemma encode_status_ok [simp]: "is_ok (encode_status p) \<longleftrightarrow> finite64 (pm_total_amount p)"
  by (cases "pm_total_amount p") (auto simp: encode_status_def j_struct_def finite64_def)

lemma decode_encode_status: "encode_status p = Inr j \<Longrightarrow> decode_status j = Inr p"
  by (auto simp: encode_status_def decode_status_def encode_simps)

lemma decode_encode_wallet_tx:
  "at_key \<in> {''deducted_at'', ''credited_at''} \<Longrightarrow> encode_wallet_tx at_key d = Inr j \<Longrightarrow> decode_wallet_tx at_key j = Inr d"
  by (auto simp: encode_wallet_tx_def decode_wallet_tx_def encode_simps)

lemmas decode_encode = decode_encode_balance decode_encode_summary decode_encode_status

text \<open>Keys of different kinds differ; keys of one kind are told apart as long as no user id has a colon.\<close>

definition plain_id :: "string \<Rightarrow> bool" where
  "plain_id u \<longleftrightarrow> CHR '':'' \<notin> set u"

lemma key_kinds [simp]:
  "balance_key u c \<noteq> summary_key v d" "summary_key v d \<noteq> balance_key u c"
  "balance_key u c \<noteq> status_key v" "status_key v \<noteq> balance_key u c"
  "summary_key u c \<noteq> status_key v" "status_key v \<noteq> summary_key u c"
  "status_key u = status_key v \<longleftrightarrow> u = v"
  by (simp_all add: balance_key_def summary_key_def status_key_def)

lemma colon_split:
  "plain_id u \<Longrightarrow> plain_id v \<Longrightarrow> u @ CHR '':'' # c = v @ CHR '':'' # d \<longleftrightarrow> u = v \<and> c = d"
proof (induction u arbitrary: v)
  case Nil
  then show ?case by (cases v) (auto simp: plain_id_def)
next
  case (Cons x u)
  then show ?case by (cases v) (auto simp: plain_id_def)
qed

lemma same_key [simp]:
  assumes "plain_id u" "plain_id v"
  shows "balance_key u c = balance_key v d \<longleftrightarrow> u = v \<and> c = d"
    and "summary_key u c = summary_key v d \<longleftrightarrow> u = v \<and> c = d"
  using colon_split [OF assms, of c d] by (simp_all add: balance_key_def summary_key_def)

end
