(* ===== verification/Projector.thy ===== *)
theory Projector
  imports Read_Models Memory_Subscriptions Postgres_Store
begin

text \<open>
  \<open>ReadModelProjector\<close> and \<open>BalanceProjectionService\<close> of
  \<open>pkg/readmodels/store.go\<close>: the events that are in the event store when the projector starts are
  projected one after the other (catching up), then those its subscription delivers.

  A clock gives the readings of \<open>time.Now()\<close> of one event: 0, 1 and 2 for the attempts of its
  handler, 3 for the checkpoint.  The filter of the subscription holds a pointer to the number of the
  last processed event, which the projector goes on writing; new events have higher numbers than any
  processed one, so the filter lets the same events through as with the number at the start.
\<close>

record projector =
  pj_last_processed :: int
  pj_is_running :: bool
  pj_stop_closed :: bool

definition new_projector :: projector where
  "new_projector = \<lparr>pj_last_processed = 0, pj_is_running = False, pj_stop_closed = False\<rparr>"

definition max_retries :: nat where
  "max_retries = 3"

type_synonym 's event_handler = "time \<Rightarrow> event \<Rightarrow> 's \<Rightarrow> (go_error option \<times> 's) go_run"

definition register_handler :: "string \<Rightarrow> 's event_handler \<Rightarrow> (string \<rightharpoonup> 's event_handler) \<Rightarrow> (string \<rightharpoonup> 's event_handler)" where
  "register_handler ty h H = H(ty \<mapsto> h)"

section \<open>The checkpoint\<close>

definition checkpoint_key :: string where
  "checkpoint_key = ''projector:checkpoint''"

definition encode_checkpoint :: "int \<Rightarrow> time \<Rightarrow> json go_result" where
  "encode_checkpoint n now = j_struct [(''last_processed'', j_int n), (''updated_at'', j_time now)]"

definition decode_checkpoint :: "json \<Rightarrow> int go_result" where
  "decode_checkpoint j = rbind (d_struct j) (\<lambda>kvs. d_int (j_field kvs ''last_processed''))"

definition load_checkpoint :: "'s read_model_ops \<Rightarrow> 's \<Rightarrow> projector \<Rightarrow> projector" where
  "load_checkpoint RS s p = p\<lparr>pj_last_processed := read_model RS decode_checkpoint 0 checkpoint_key s\<rparr>"

definition update_checkpoint ::
  "'s read_model_ops \<Rightarrow> int \<Rightarrow> time \<Rightarrow> projector \<Rightarrow> 's \<Rightarrow> (go_error option \<times> projector \<times> 's) go_run" where
  "update_checkpoint RS n now p s =
     run_bind (rm_set RS checkpoint_key (encode_checkpoint n now) s)
       (\<lambda>(r, s1). Returned (r, p\<lparr>pj_last_processed := n\<rparr>, s1))"

section \<open>Projecting an event\<close>

text \<open>Up to \<open>n\<close> attempts from the \<open>k\<close>-th on; the sleeps between them change nothing.\<close>

fun try_handler ::
  "'s event_handler \<Rightarrow> (nat \<Rightarrow> time) \<Rightarrow> nat \<Rightarrow> nat \<Rightarrow> go_error option \<Rightarrow> event \<Rightarrow> 's \<Rightarrow> (go_error option \<times> 's) go_run" where
  "try_handler h clock k 0 err e s = Returned (err, s)"
| "try_handler h clock k (Suc n) err e s =
     run_bind (h (clock k) e s) (\<lambda>(err1, s1).
       if err1 = None then Returned (None, s1) else try_handler h clock (Suc k) n err1 e s1)"

definition project_event ::
  "'s read_model_ops \<Rightarrow> (string \<rightharpoonup> 's event_handler) \<Rightarrow> (nat \<Rightarrow> time) \<Rightarrow> event \<Rightarrow> projector \<Rightarrow> 's \<Rightarrow>
     (go_error option \<times> projector \<times> 's) go_run" where
  "project_event RS H clock e p s =
     (case H (ev_type e) of
        None \<Rightarrow> update_checkpoint RS (ev_seq e) (clock 3) p s
      | Some h \<Rightarrow>
         run_bind (try_handler h clock 0 max_retries None e s) (\<lambda>(r, s1).
           case r of
             Some x \<Rightarrow> Returned (Some (''failed to process event after '' @ show_nat max_retries @ '' retries: '' @ x), p, s1)
           | None \<Rightarrow> update_checkpoint RS (ev_seq e) (clock 3) p s1))"

section \<open>Catching up\<close>

fun project_all ::
  "'s read_model_ops \<Rightarrow> (string \<rightharpoonup> 's event_handler) \<Rightarrow> (nat \<Rightarrow> nat \<Rightarrow> time) \<Rightarrow> nat \<Rightarrow> event list \<Rightarrow> projector \<Rightarrow> 's \<Rightarrow>
     (go_error option \<times> projector \<times> 's) go_run" where
  "project_all RS H clock i [] p s = Returned (None, p, s)"
| "project_all RS H clock i (e # es) p s =
     run_bind (project_event RS H (clock i) e p s) (\<lambda>(r, p1, s1).
       case r of
         Some x \<Rightarrow> Returned (Some (''failed to process event '' @ ev_id e @ '': '' @ x), p1, s1)
       | None \<Rightarrow> project_all RS H clock (Suc i) es (p1\<lparr>pj_last_processed := ev_seq e\<rparr>) s1)"

definition catch_up_filter :: "projector \<Rightarrow> event_filter" where
  "catch_up_filter p =
     (if pj_last_processed p > 0 then no_filter\<lparr>f_from_seq := Some (pj_last_processed p + 1)\<rparr> else no_filter)"

definition catch_up ::
  "'e event_store_ops \<Rightarrow> 's read_model_ops \<Rightarrow> (string \<rightharpoonup> 's event_handler) \<Rightarrow> ctx_err \<Rightarrow> (nat \<Rightarrow> nat \<Rightarrow> time) \<Rightarrow>
     'e \<Rightarrow> projector \<Rightarrow> 's \<Rightarrow> (go_error option \<times> projector \<times> 's) go_run" where
  "catch_up ES RS H ctx clock m p s =
     (case es_get_events ES ctx (catch_up_filter p) m of
        Inl x \<Rightarrow> Returned (Some (''failed to get events: '' @ x), p, s)
      | Inr es \<Rightarrow> project_all RS H clock 0 es p s)"

section \<open>Starting, running, stopping\<close>

text \<open>
  \<open>Start\<close> up to its goroutine, which then receives from the channel; \<open>subscribe\<close> is the
  method of the event store, which gets the filter, and \<open>meanwhile\<close> is what others do to the event
  store between the reading of its events and the subscription.
\<close>

definition start_projector ::
  "'e event_store_ops \<Rightarrow> (event_filter \<Rightarrow> 'e \<Rightarrow> nat go_result \<times> 'e) \<Rightarrow> ('e \<Rightarrow> 'e) \<Rightarrow> 's read_model_ops \<Rightarrow>
     (string \<rightharpoonup> 's event_handler) \<Rightarrow> ctx_err \<Rightarrow> (nat \<Rightarrow> nat \<Rightarrow> time) \<Rightarrow> 'e \<Rightarrow> projector \<Rightarrow> 's \<Rightarrow>
     (nat go_result \<times> projector \<times> 'e \<times> 's) go_run" where
  "start_projector ES subscribe meanwhile RS H ctx clock m p s =
     (if pj_is_running p then Returned (Inl ''projector is already running'', p, m, s)
      else run_bind (catch_up ES RS H ctx clock m (load_checkpoint RS s (p\<lparr>pj_is_running := True\<rparr>)) s)
        (\<lambda>(r, p1, s1).
           case r of Some x \<Rightarrow> Returned (Inl (''failed to catch up: '' @ x), p1, m, s1)
           | None \<Rightarrow>
              (case subscribe (no_filter\<lparr>f_from_seq := Some (pj_last_processed p1)\<rparr>) (meanwhile m) of
                 (Inl x, m1) \<Rightarrow> Returned (Inl (''failed to subscribe to events: '' @ x), p1, m1, s1)
               | (Inr ch, m1) \<Rightarrow> Returned (Inr ch, p1, m1, s1))))"

text \<open>The events the goroutine takes from the channel; an error is printed and the event left.\<close>

fun project_live ::
  "'s read_model_ops \<Rightarrow> (string \<rightharpoonup> 's event_handler) \<Rightarrow> (nat \<Rightarrow> nat \<Rightarrow> time) \<Rightarrow> nat \<Rightarrow> event list \<Rightarrow> projector \<Rightarrow> 's \<Rightarrow>
     (projector \<times> 's) go_run" where
  "project_live RS H clock i [] p s = Returned (p, s)"
| "project_live RS H clock i (e # es) p s =
     run_bind (project_event RS H (clock i) e p s) (\<lambda>(_, p1, s1). project_live RS H clock (Suc i) es p1 s1)"

text \<open>The end of the goroutine, and \<open>Stop\<close>: closing the closed stop channel panics.\<close>

definition projector_exit :: "projector \<Rightarrow> projector" where
  "projector_exit p = p\<lparr>pj_is_running := False\<rparr>"

definition stop_projector :: "projector \<Rightarrow> projector go_run" where
  "stop_projector p =
     (if pj_is_running p
      then if pj_stop_closed p then Panicked
           else Returned (p\<lparr>pj_stop_closed := True, pj_is_running := False\<rparr>)
      else Returned p)"

section \<open>The balance projection\<close>

definition balance_handlers :: "'s read_model_ops \<Rightarrow> (string \<rightharpoonup> 's event_handler)" where
  "balance_handlers RS =
     register_handler ''PaymentInitiated'' (project_payment_initiated RS)
     (register_handler ''PaymentFailed'' (project_payment_failed RS)
     (register_handler ''PaymentCompleted'' (project_payment_completed RS)
     (register_handler ''WalletRefunded'' (handle_wallet_credited RS)
     (register_handler ''WalletCredited'' (handle_wallet_credited RS)
     (register_handler ''WalletDeducted'' (handle_wallet_deducted RS) Map.empty)))))"

lemma balance_handlers_cases:
  "balance_handlers RS ty =
     (if ty = ''WalletDeducted'' then Some (handle_wallet_deducted RS)
      else if ty = ''WalletCredited'' \<or> ty = ''WalletRefunded'' then Some (handle_wallet_credited RS)
      else if ty = ''PaymentInitiated'' then Some (project_payment_initiated RS)
      else if ty = ''PaymentCompleted'' then Some (project_payment_completed RS)
      else if ty = ''PaymentFailed'' then Some (project_payment_failed RS)
      else None)"
  by (simp add: balance_handlers_def register_handler_def)

section \<open>What the read models should say\<close>

text \<open>
  The reference: the transaction of a wallet event, the transactions of an account in the order of a
  history, and the read models they add up to.
\<close>

definition tx_of :: "event \<Rightarrow> (string \<times> wallet_tx_data) option" where
  "tx_of e =
     (if ev_type e = ''WalletDeducted'' then
        (case decode_wallet_tx ''deducted_at'' (ev_data e) of Inl _ \<Rightarrow> None | Inr d \<Rightarrow> Some (''debit'', d))
      else if ev_type e = ''WalletCredited'' \<or> ev_type e = ''WalletRefunded'' then
        (case decode_wallet_tx ''credited_at'' (ev_data e) of Inl _ \<Rightarrow> None | Inr d \<Rightarrow> Some (''credit'', d))
      else None)"

definition account_txs :: "string \<Rightarrow> string \<Rightarrow> event list \<Rightarrow> (event \<times> string \<times> wallet_tx_data) list" where
  "account_txs u c es = List.map_filter (\<lambda>e. case tx_of e of None \<Rightarrow> None
     | Some (kind, d) \<Rightarrow> if wt_user_id d = u \<and> wt_currency d = c then Some (e, kind, d) else None) es"

definition tx_total :: "string \<Rightarrow> (event \<times> string \<times> wallet_tx_data) list \<Rightarrow> float64" where
  "tx_total kind ts = foldl (\<lambda>x (_, k, d). if k = kind then fadd x (wt_amount d) else x) f0 ts"

definition expected_balance :: "string \<Rightarrow> string \<Rightarrow> (event \<times> string \<times> wallet_tx_data) list \<Rightarrow> balance_model" where
  "expected_balance u c ts = (case last ts of (e, kind, d) \<Rightarrow>
     \<lparr>bm_user_id = u, bm_currency = c, bm_balance = wt_new_balance d, bm_last_updated = ev_created_at e,
      bm_last_event_version = ev_version e, bm_transaction_count = int (length ts)\<rparr>)"

definition expected_summary ::
  "string \<Rightarrow> string \<Rightarrow> time \<Rightarrow> (event \<times> string \<times> wallet_tx_data) list \<Rightarrow> summary_model" where
  "expected_summary u c now ts = (case last ts of (e, kind, d) \<Rightarrow>
     \<lparr>sm_user_id = u, sm_currency = c, sm_current_balance = wt_new_balance d,
      sm_total_credits = tx_total ''credit'' ts, sm_total_debits = tx_total ''debit'' ts,
      sm_transaction_count = int (length ts), sm_last_transaction_at = ev_created_at e, sm_created_at = 0,
      sm_last_updated = now, sm_last_processed_event = ev_seq e\<rparr>)"

text \<open>The same for the payments of a user; only initiated payments carry an amount.\<close>

definition payment_of :: "event \<Rightarrow> (string \<times> string \<times> float64) option" where
  "payment_of e =
     (if ev_type e = ''PaymentInitiated'' then
        (case decode_payment_initiated (ev_data e) of Inl _ \<Rightarrow> None
         | Inr d \<Rightarrow> Some (pi_user_id d, ''initiated'', pi_amount d))
      else if ev_type e = ''PaymentCompleted'' then
        (case decode_payment_completed (ev_data e) of Inl _ \<Rightarrow> None
         | Inr d \<Rightarrow> Some (ev_caused_by e, ''completed'', f0))
      else if ev_type e = ''PaymentFailed'' then
        (case decode_payment_failed (ev_data e) of Inl _ \<Rightarrow> None
         | Inr d \<Rightarrow> Some (ev_caused_by e, ''failed'', f0))
      else None)"

definition user_payments :: "string \<Rightarrow> event list \<Rightarrow> (event \<times> string \<times> float64) list" where
  "user_payments u es = List.map_filter (\<lambda>e. case payment_of e of None \<Rightarrow> None
     | Some (v, st, amount) \<Rightarrow> if v = u then Some (e, st, amount) else None) es"

definition payments_with :: "string \<Rightarrow> (event \<times> string \<times> float64) list \<Rightarrow> int" where
  "payments_with st ps = int (length (filter (\<lambda>(_, st', _). st' = st) ps))"

definition pending_after :: "(event \<times> string \<times> float64) list \<Rightarrow> int" where
  "pending_after ps = foldl (\<lambda>n (_, st, _). if st = ''initiated'' then n + 1 else max 0 (n - 1)) 0 ps"

definition amount_initiated :: "(event \<times> string \<times> float64) list \<Rightarrow> float64" where
  "amount_initiated ps = foldl (\<lambda>x (_, st, a). if st = ''initiated'' then fadd x a else x) f0 ps"

definition expected_status :: "string \<Rightarrow> time \<Rightarrow> (event \<times> string \<times> float64) list \<Rightarrow> status_model" where
  "expected_status u now ps =
     \<lparr>pm_user_id = u, pm_total = payments_with ''initiated'' ps, pm_completed = payments_with ''completed'' ps,
      pm_failed = payments_with ''failed'' ps, pm_pending = pending_after ps,
      pm_total_amount = amount_initiated ps, pm_last_payment_at = ev_created_at (fst (last ps)),
      pm_last_updated = now\<rparr>"

text \<open>An event that has a handler but not its data.\<close>

definition malformed :: "event \<Rightarrow> bool" where
  "malformed e \<longleftrightarrow> ev_type e \<in> {''WalletDeducted'', ''WalletCredited'', ''WalletRefunded'', ''PaymentInitiated'',
     ''PaymentCompleted'', ''PaymentFailed''} \<and> tx_of e = None \<and> payment_of e = None"

lemma account_txs_snoc [simp]:
  "account_txs u c [] = []"
  "account_txs u c (es @ [e]) = account_txs u c es @ (case tx_of e of None \<Rightarrow> []
     | Some (kind, d) \<Rightarrow> if wt_user_id d = u \<and> wt_currency d = c then [(e, kind, d)] else [])"
  by (auto simp: account_txs_def List.map_filter_def split: option.split)

lemma user_payments_snoc [simp]:
  "user_payments u [] = []"
  "user_payments u (es @ [e]) = user_payments u es @ (case payment_of e of None \<Rightarrow> []
     | Some (v, st, a) \<Rightarrow> if v = u then [(e, st, a)] else [])"
  by (auto simp: user_payments_def List.map_filter_def split: option.split)

lemma expected_summary_snoc:
  "kind \<in> {''debit'', ''credit''} \<Longrightarrow>
     (count_transaction kind (wt_amount d) (if ts = [] then fresh_summary u c else expected_summary u c now0 ts))
       \<lparr>sm_last_transaction_at := ev_created_at e, sm_last_updated := now, sm_last_processed_event := ev_seq e,
        sm_current_balance := wt_new_balance d\<rparr> = expected_summary u c now (ts @ [(e, kind, d)])"
  by (auto simp: expected_summary_def count_transaction_def fresh_summary_def tx_total_def split: prod.split)

lemma expected_balance_snoc:
  "(if ts = [] then fresh_balance u c else expected_balance u c ts)
     \<lparr>bm_balance := wt_new_balance d, bm_last_updated := ev_created_at e, bm_last_event_version := ev_version e,
      bm_transaction_count := bm_transaction_count (if ts = [] then fresh_balance u c else expected_balance u c ts) + 1\<rparr> =
   expected_balance u c (ts @ [(e, kind, d)])"
  by (auto simp: expected_balance_def fresh_balance_def split: prod.split)

text \<open>The number of pending payments never falls below zero.\<close>

lemma pending_after_simps [simp]:
  "pending_after [] = 0"
  "pending_after (ps @ [(e, st, a)]) =
     (if st = ''initiated'' then pending_after ps + 1 else max 0 (pending_after ps - 1))"
  by (simp_all add: pending_after_def)

lemma pending_after_nonneg: "0 \<le> pending_after ps"
  by (induction ps rule: rev_induct) auto

lemma expected_status_snoc:
  assumes "st \<in> {''initiated'', ''completed'', ''failed''}"
  shows "(count_payment st a (if ps = [] then fresh_status u else expected_status u now0 ps))
       \<lparr>pm_last_payment_at := ev_created_at e, pm_last_updated := now\<rparr> = expected_status u now (ps @ [(e, st, a)])"
  using assms pending_after_nonneg [of ps]
  by (auto simp: expected_status_def count_payment_def fresh_status_def payments_with_def amount_initiated_def max_def)

section \<open>Projecting an event, over any store\<close>

lemma checkpoint_key_simps [simp]:
  "checkpoint_key \<noteq> balance_key u c" "balance_key u c \<noteq> checkpoint_key"
  "checkpoint_key \<noteq> summary_key u c" "summary_key u c \<noteq> checkpoint_key"
  "checkpoint_key \<noteq> status_key u" "status_key u \<noteq> checkpoint_key"
  by (simp_all add: checkpoint_key_def balance_key_def summary_key_def status_key_def)

lemma encode_checkpoint_eq: "encode_checkpoint n now = Inr (JObj [(''last_processed'', JInt n), (''updated_at'', JTime now)])"
  by (simp add: encode_checkpoint_def encode_simps)

lemma decode_encode_checkpoint: "encode_checkpoint n now = Inr j \<Longrightarrow> decode_checkpoint j = Inr n"
  by (auto simp: encode_checkpoint_def decode_checkpoint_def encode_simps)

lemma finite64_fadd: "finite64 (fadd a b) \<Longrightarrow> finite64 a \<and> finite64 b"
  by (cases a; cases b) (auto simp: finite64_def)

lemma tx_total_simps [simp]:
  "tx_total k [] = f0"
  "tx_total k (ts @ [(e, kind, d)]) = (if kind = k then fadd (tx_total k ts) (wt_amount d) else tx_total k ts)"
  by (simp_all add: tx_total_def)

lemma tx_of_kind: "tx_of e = Some (kind, d) \<Longrightarrow> kind = ''debit'' \<or> kind = ''credit''"
  by (auto simp: tx_of_def split: if_splits sum.splits)

lemma payment_of_kind: "payment_of e = Some (u, st, a) \<Longrightarrow> st \<in> {''initiated'', ''completed'', ''failed''}"
  by (auto simp: payment_of_def split: if_splits sum.splits)

lemma tx_or_payment: "tx_of e \<noteq> None \<Longrightarrow> payment_of e = None"
  by (auto simp: tx_of_def payment_of_def split: if_splits)

text \<open>The handler of an event, for each of the four things an event can be.\<close>

lemma handler_of_tx:
  assumes "tx_of e = Some (kind, d)"
  obtains name at_key where "balance_handlers RS (ev_type e) = Some (handle_wallet_tx RS name at_key kind)"
    "decode_wallet_tx at_key (ev_data e) = Inr d"
  using assms that
  by (auto simp: tx_of_def balance_handlers_cases handle_wallet_deducted_def handle_wallet_credited_def
      split: if_splits sum.splits)

lemma handler_of_payment:
  assumes "payment_of e = Some (u, st, a)"
  obtains h where "balance_handlers RS (ev_type e) = Some h"
    "\<And>now s. h now e s = update_payment_status RS u st a (ev_created_at e) now s"
  using assms that
  by (auto simp: payment_of_def balance_handlers_cases project_payment_initiated_def project_payment_completed_def
      project_payment_failed_def split: if_splits sum.splits)

lemma handler_of_malformed:
  assumes "malformed e"
  obtains h x where "balance_handlers RS (ev_type e) = Some h" "\<And>now s. h now e s = Returned (Some x, s)"
  using assms that
  by (auto simp: malformed_def tx_of_def payment_of_def balance_handlers_cases handle_wallet_deducted_def
      handle_wallet_credited_def handle_wallet_tx_def project_payment_initiated_def project_payment_completed_def
      project_payment_failed_def split: if_splits sum.splits)

lemma type_unhandled:
  "tx_of e = None \<Longrightarrow> payment_of e = None \<Longrightarrow> \<not> malformed e \<Longrightarrow> balance_handlers RS (ev_type e) = None"
  by (auto simp: malformed_def balance_handlers_cases)

lemma max_retries_Suc: "max_retries = Suc (Suc (Suc 0))"
  by (simp add: max_retries_def)

lemma try_handler_ok:
  "h (clock k) e s = Returned (None, s1) \<Longrightarrow> try_handler h clock k (Suc n) err e s = Returned (None, s1)"
  by simp

lemma try_handler_fails:
  "(\<And>now. h now e s = Returned (Some x, s)) \<Longrightarrow> try_handler h clock k (Suc n) err e s = Returned (Some x, s)"
  by (induction n arbitrary: k err) auto

context read_model_store
begin

lemma update_checkpoint_effect:
  assumes "inv s"
  shows "\<exists>s'. update_checkpoint RS n now p s = Returned (None, p\<lparr>pj_last_processed := n\<rparr>, s') \<and> inv s' \<and>
    lookup s' = (lookup s)(checkpoint_key \<mapsto> encode_checkpoint n now)"
proof -
  obtain s' where "rm_set RS checkpoint_key (encode_checkpoint n now) s = Returned (None, s')" "inv s'"
    "lookup s' = (lookup s)(checkpoint_key \<mapsto> encode_checkpoint n now)"
    using set [OF assms] by blast
  then show ?thesis by (intro exI [of _ s']) (simp add: update_checkpoint_def)
qed

text \<open>An event whose handler succeeds is projected once and remembered.\<close>

lemma project_event_ok:
  assumes "balance_handlers RS (ev_type e) = Some h" "h (clock 0) e s = Returned (None, s1)" "inv s1"
  shows "\<exists>s'. project_event RS (balance_handlers RS) clock e p s = Returned (None, p\<lparr>pj_last_processed := ev_seq e\<rparr>, s') \<and>
    inv s' \<and> lookup s' = (lookup s1)(checkpoint_key \<mapsto> encode_checkpoint (ev_seq e) (clock 3))"
  using update_checkpoint_effect [OF assms(3), of "ev_seq e" "clock 3" p] assms
  by (auto simp: project_event_def max_retries_Suc)

lemma project_event_malformed:
  assumes "malformed e"
  shows "\<exists>x. project_event RS (balance_handlers RS) clock e p s = Returned (Some x, p, s)"
proof -
  obtain h x where h: "balance_handlers RS (ev_type e) = Some h" "\<And>now s. h now e s = Returned (Some x, s)"
    by (rule handler_of_malformed [OF assms]) blast
  then show ?thesis by (simp add: project_event_def max_retries_Suc)
qed

lemma project_event_unhandled:
  assumes "inv s" "balance_handlers RS (ev_type e) = None"
  shows "\<exists>s'. project_event RS (balance_handlers RS) clock e p s = Returned (None, p\<lparr>pj_last_processed := ev_seq e\<rparr>, s') \<and>
    inv s' \<and> lookup s' = (lookup s)(checkpoint_key \<mapsto> encode_checkpoint (ev_seq e) (clock 3))"
  using update_checkpoint_effect [OF assms(1), of "ev_seq e" "clock 3" p] assms(2)
  by (simp add: project_event_def)

lemma project_event_payment:
  assumes inv: "inv s" and pay: "payment_of e = Some (u, st, a)"
  shows "\<exists>s'. project_event RS (balance_handlers RS) clock e p s = Returned (None, p\<lparr>pj_last_processed := ev_seq e\<rparr>, s') \<and>
    inv s' \<and> lookup s' = (lookup s)(status_key u \<mapsto> encode_status
        ((count_payment st a (read_model RS decode_status (fresh_status u) (status_key u) s))
          \<lparr>pm_last_payment_at := ev_created_at e, pm_last_updated := clock 0\<rparr>),
      checkpoint_key \<mapsto> encode_checkpoint (ev_seq e) (clock 3))"
proof -
  obtain h where h: "balance_handlers RS (ev_type e) = Some h"
    "\<And>now s. h now e s = update_payment_status RS u st a (ev_created_at e) now s"
    by (rule handler_of_payment [OF pay]) blast
  obtain s1 where s1: "h (clock 0) e s = Returned (None, s1)" "inv s1"
    "lookup s1 = (lookup s)(status_key u \<mapsto> encode_status
        ((count_payment st a (read_model RS decode_status (fresh_status u) (status_key u) s))
          \<lparr>pm_last_payment_at := ev_created_at e, pm_last_updated := clock 0\<rparr>))"
    using update_payment_status_effect [OF inv] h(2) by metis
  from project_event_ok [where clock = clock, OF h(1) s1(1,2)] s1(3) show ?thesis by simp
qed

text \<open>What a wallet event writes: the balance, and the summary with the balance just written.\<close>

lemma project_event_tx:
  fixes clock :: "nat \<Rightarrow> time"
  assumes inv: "inv s" and tx: "tx_of e = Some (kind, d)" and fin: "finite64 (wt_new_balance d)"
  defines "u \<equiv> wt_user_id d" and "c \<equiv> wt_currency d"
  defines "b \<equiv> read_model RS decode_balance (fresh_balance u c) (balance_key u c) s"
  shows "\<exists>s'. project_event RS (balance_handlers RS) clock e p s = Returned (None, p\<lparr>pj_last_processed := ev_seq e\<rparr>, s') \<and>
    inv s' \<and> lookup s' = (lookup s)(
      balance_key u c \<mapsto> encode_balance (b\<lparr>bm_balance := wt_new_balance d, bm_last_updated := ev_created_at e,
        bm_last_event_version := ev_version e, bm_transaction_count := bm_transaction_count b + 1\<rparr>),
      summary_key u c \<mapsto> encode_summary
        ((count_transaction kind (wt_amount d) (read_model RS decode_summary (fresh_summary u c) (summary_key u c) s))
          \<lparr>sm_last_transaction_at := ev_created_at e, sm_last_updated := clock 0, sm_last_processed_event := ev_seq e,
           sm_current_balance := wt_new_balance d\<rparr>),
      checkpoint_key \<mapsto> encode_checkpoint (ev_seq e) (clock 3))"
proof -
  obtain name at_key where h: "balance_handlers RS (ev_type e) = Some (handle_wallet_tx RS name at_key kind)"
    "decode_wallet_tx at_key (ev_data e) = Inr d"
    by (rule handler_of_tx [OF tx]) blast
  let ?b = "b\<lparr>bm_balance := wt_new_balance d, bm_last_updated := ev_created_at e,
    bm_last_event_version := ev_version e, bm_transaction_count := bm_transaction_count b + 1\<rparr>"
  obtain s1 s2 where s2: "handle_wallet_tx RS name at_key kind (clock 0) e s = Returned (None, s2)" "inv s2" "inv s1"
    and s1: "lookup s1 = (lookup s)(balance_key u c \<mapsto> encode_balance ?b)"
    and up: "update_wallet_summary RS u c (wt_amount d) kind (ev_created_at e) (ev_seq e) (clock 0) s1 = Returned (None, s2)"
    using handle_wallet_tx_effect [OF inv h(2) refl] unfolding b_def u_def c_def by blast
  have "rbind (rm_get RS (balance_key u c) s1) decode_balance = Inr ?b"
    using fin get [OF s2(3)] s1 decode_encode_balance [of ?b] encode_balance_ok [of ?b]
    by (cases "encode_balance ?b") auto
  moreover have "read_model RS decode_summary (fresh_summary u c) (summary_key u c) s1 =
      read_model RS decode_summary (fresh_summary u c) (summary_key u c) s"
    by (simp add: read_model_lookup [OF inv] read_model_lookup [OF s2(3)] s1)
  ultimately have "lookup s2 = (lookup s1)(summary_key u c \<mapsto> encode_summary
      ((count_transaction kind (wt_amount d) (read_model RS decode_summary (fresh_summary u c) (summary_key u c) s))
        \<lparr>sm_last_transaction_at := ev_created_at e, sm_last_updated := clock 0, sm_last_processed_event := ev_seq e,
         sm_current_balance := wt_new_balance d\<rparr>))"
    using update_wallet_summary_effect [OF s2(3), of u c "wt_amount d" kind "ev_created_at e" "ev_seq e" "clock 0"] up
    by auto
  with project_event_ok [where clock = clock, OF h(1) s2(1,2)] s1 show ?thesis by simp
qed

end

section \<open>The read models are what the history adds up to\<close>

text \<open>
  The events whose user ids have no colon (else keys of different accounts coincide) and whose new
  balance is a number; a history whose totals for an account and a user stay finite.
\<close>

definition proper_event :: "event \<Rightarrow> bool" where
  "proper_event e = (case tx_of e of None \<Rightarrow> True
     | Some (_, d) \<Rightarrow> plain_id (wt_user_id d) \<and> finite64 (wt_new_balance d))"

definition readable :: "string \<Rightarrow> string \<Rightarrow> event list \<Rightarrow> bool" where
  "readable u c es \<longleftrightarrow> finite64 (tx_total ''credit'' (account_txs u c es)) \<and>
     finite64 (tx_total ''debit'' (account_txs u c es)) \<and> finite64 (amount_initiated (user_payments u es))"

text \<open>The documents of a user and an account after a history.\<close>

definition documents_show :: "(string \<Rightarrow> json go_result option) \<Rightarrow> string \<Rightarrow> string \<Rightarrow> event list \<Rightarrow> bool" where
  "documents_show look u c es \<longleftrightarrow>
     look (balance_key u c) = (if account_txs u c es = [] then None
       else Some (encode_balance (expected_balance u c (account_txs u c es)))) \<and>
     (\<exists>now. look (summary_key u c) = (if account_txs u c es = [] then None
       else Some (encode_summary (expected_summary u c now (account_txs u c es))))) \<and>
     (\<exists>now. look (status_key u) = (if user_payments u es = [] then None
       else Some (encode_status (expected_status u now (user_payments u es)))))"

lemma documents_show_new: "documents_show Map.empty u c []"
  by (simp add: documents_show_def)

lemma amount_initiated_simps [simp]:
  "amount_initiated [] = f0"
  "amount_initiated (ps @ [(e, st, a)]) = (if st = ''initiated'' then fadd (amount_initiated ps) a else amount_initiated ps)"
  by (simp_all add: amount_initiated_def)

lemma readable_prefix: "readable u c (es @ [e]) \<Longrightarrow> readable u c es"
  by (auto simp: readable_def split: option.splits prod.splits if_splits dest: finite64_fadd)

lemma readable_append: "readable u c (es @ ls) \<Longrightarrow> readable u c es"
proof (induction ls rule: rev_induct)
  case (snoc e ls)
  then show ?case using readable_prefix [of u c "es @ ls" e] by simp
qed simp

text \<open>A transaction of an account that stands last has a number for its new balance.\<close>

lemma account_txs_finite:
  "list_all proper_event es \<Longrightarrow> (e, kind, d) \<in> set (account_txs u c es) \<Longrightarrow> finite64 (wt_new_balance d)"
  by (induction es rule: rev_induct) (auto simp: proper_event_def split: option.splits if_splits)

lemma expected_balance_finite:
  assumes "list_all proper_event es" "account_txs u c es \<noteq> []"
  shows "finite64 (bm_balance (expected_balance u c (account_txs u c es)))"
    "finite64 (sm_current_balance (expected_summary u c now (account_txs u c es)))"
proof -
  obtain e kind d where l: "last (account_txs u c es) = (e, kind, d)" by (cases "last (account_txs u c es)")
  have "(e, kind, d) \<in> set (account_txs u c es)" using last_in_set [OF assms(2)] l by simp
  then show "finite64 (bm_balance (expected_balance u c (account_txs u c es)))"
    "finite64 (sm_current_balance (expected_summary u c now (account_txs u c es)))"
    using account_txs_finite [OF assms(1)] l by (auto simp: expected_balance_def expected_summary_def)
qed

lemma expected_totals [simp]:
  "ts \<noteq> [] \<Longrightarrow> sm_total_credits (expected_summary u c now ts) = tx_total ''credit'' ts"
  "ts \<noteq> [] \<Longrightarrow> sm_total_debits (expected_summary u c now ts) = tx_total ''debit'' ts"
  "pm_total_amount (expected_status u now ps) = amount_initiated ps"
  by (auto simp: expected_summary_def expected_status_def split: prod.split)

context read_model_store
begin

text \<open>What the handlers find in the store is what the history so far adds up to.\<close>

lemma documents_read:
  assumes "inv s" "documents_show (lookup s) u c es" "list_all proper_event es" "readable u c es"
  shows "read_model RS decode_balance (fresh_balance u c) (balance_key u c) s =
      (if account_txs u c es = [] then fresh_balance u c else expected_balance u c (account_txs u c es))"
    and "\<exists>now. read_model RS decode_summary (fresh_summary u c) (summary_key u c) s =
      (if account_txs u c es = [] then fresh_summary u c else expected_summary u c now (account_txs u c es))"
    and "\<exists>now. read_model RS decode_status (fresh_status u) (status_key u) s =
      (if user_payments u es = [] then fresh_status u else expected_status u now (user_payments u es))"
proof -
  let ?ts = "account_txs u c es" and ?ps = "user_payments u es"
  obtain now1 now2 where
    b: "lookup s (balance_key u c) = (if ?ts = [] then None else Some (encode_balance (expected_balance u c ?ts)))"
    and sm: "lookup s (summary_key u c) = (if ?ts = [] then None else Some (encode_summary (expected_summary u c now1 ?ts)))"
    and st: "lookup s (status_key u) = (if ?ps = [] then None else Some (encode_status (expected_status u now2 ?ps)))"
    using assms(2) by (auto simp: documents_show_def)
  show "read_model RS decode_balance (fresh_balance u c) (balance_key u c) s =
      (if ?ts = [] then fresh_balance u c else expected_balance u c ?ts)"
  proof (cases "?ts = []")
    case False
    then show ?thesis
      using read_after_set [where encode = encode_balance, OF assms(1) _ decode_encode_balance] b
        expected_balance_finite(1) [OF assms(3) False] encode_balance_ok by simp
  qed (simp add: read_model_lookup [OF assms(1)] b)
  show "\<exists>now. read_model RS decode_summary (fresh_summary u c) (summary_key u c) s =
      (if ?ts = [] then fresh_summary u c else expected_summary u c now ?ts)"
  proof (cases "?ts = []")
    case False
    then show ?thesis
      using read_after_set [where encode = encode_summary, OF assms(1) _ decode_encode_summary] sm
        expected_balance_finite(2) [OF assms(3) False, of now1] encode_summary_ok assms(4)
      by (intro exI [of _ now1]) (simp add: readable_def)
  qed (simp add: read_model_lookup [OF assms(1)] sm)
  show "\<exists>now. read_model RS decode_status (fresh_status u) (status_key u) s =
      (if ?ps = [] then fresh_status u else expected_status u now ?ps)"
  proof (cases "?ps = []")
    case False
    then show ?thesis
      using read_after_set [where encode = encode_status, OF assms(1) _ decode_encode_status] st
        encode_status_ok assms(4)
      by (intro exI [of _ now2]) (simp add: readable_def)
  qed (simp add: read_model_lookup [OF assms(1)] st)
qed

end

lemma documents_show_other:
  "documents_show look u c es \<Longrightarrow> account_txs u c (es @ [e]) = account_txs u c es \<Longrightarrow>
     user_payments u (es @ [e]) = user_payments u es \<Longrightarrow>
     look' (balance_key u c) = look (balance_key u c) \<Longrightarrow> look' (summary_key u c) = look (summary_key u c) \<Longrightarrow>
     look' (status_key u) = look (status_key u) \<Longrightarrow> documents_show look' u c (es @ [e])"
  by (simp only: documents_show_def)

lemma documents_show_malformed:
  assumes "malformed e"
  shows "documents_show look u c (es @ [e]) = documents_show look u c es"
proof -
  have "account_txs u c (es @ [e]) = account_txs u c es" "user_payments u (es @ [e]) = user_payments u es"
    using assms by (simp_all add: malformed_def)
  then show ?thesis by (simp only: documents_show_def)
qed

context read_model_store
begin

text \<open>Projecting one more event keeps the documents what the history adds up to.\<close>

lemma documents_after_tx:
  assumes docs: "inv s" "documents_show (lookup s) u c es" "list_all proper_event es" "readable u c es"
    and tx: "tx_of e = Some (kind, d)" and plain: "plain_id (wt_user_id d)" "plain_id u"
    and v: "v = wt_user_id d" and cu: "cu = wt_currency d"
    and b: "b = read_model RS decode_balance (fresh_balance v cu) (balance_key v cu) s"
    and look: "look = (lookup s)(
      balance_key v cu \<mapsto> encode_balance (b\<lparr>bm_balance := wt_new_balance d, bm_last_updated := ev_created_at e,
        bm_last_event_version := ev_version e, bm_transaction_count := bm_transaction_count b + 1\<rparr>),
      summary_key v cu \<mapsto> encode_summary
        ((count_transaction kind (wt_amount d) (read_model RS decode_summary (fresh_summary v cu) (summary_key v cu) s))
          \<lparr>sm_last_transaction_at := ev_created_at e, sm_last_updated := now, sm_last_processed_event := ev_seq e,
           sm_current_balance := wt_new_balance d\<rparr>),
      checkpoint_key \<mapsto> cp)"
  shows "documents_show look u c (es @ [e])"
proof (cases "v = u \<and> cu = c")
  case True
  obtain now0 where sm: "read_model RS decode_summary (fresh_summary u c) (summary_key u c) s =
      (if account_txs u c es = [] then fresh_summary u c else expected_summary u c now0 (account_txs u c es))"
    using documents_read(2) [OF docs] by blast
  have txs: "account_txs u c (es @ [e]) = account_txs u c es @ [(e, kind, d)]"
    "user_payments u (es @ [e]) = user_payments u es"
    using True tx v cu tx_or_payment [of e] by simp_all
  have "kind \<in> {''debit'', ''credit''}" using tx_of_kind [OF tx] by blast
  note sums = expected_summary_snoc [where d = d and ts = "account_txs u c es" and u = u and c = c and ?now0.0 = now0
      and e = e and now = now, OF this]
  note bals = expected_balance_snoc [where ts = "account_txs u c es" and u = u and c = c and d = d and e = e and kind = kind]
  have "look (balance_key u c) = Some (encode_balance (expected_balance u c (account_txs u c (es @ [e]))))"
    using look True b by (simp only: txs documents_read(1) [OF docs] bals [symmetric]) simp
  moreover have "look (summary_key u c) = Some (encode_summary (expected_summary u c now (account_txs u c (es @ [e]))))"
    using look True by (simp only: txs sm sums [symmetric]) simp
  moreover have "look (status_key u) = lookup s (status_key u)" using look by simp
  ultimately show ?thesis
    using docs(2) txs unfolding documents_show_def by auto
next
  case False
  with look v cu plain tx tx_or_payment [of e] have "account_txs u c (es @ [e]) = account_txs u c es"
    "user_payments u (es @ [e]) = user_payments u es" "look (balance_key u c) = lookup s (balance_key u c)"
    "look (summary_key u c) = lookup s (summary_key u c)" "look (status_key u) = lookup s (status_key u)"
    by auto
  with docs(2) show ?thesis by (rule documents_show_other)
qed

lemma documents_after_payment:
  assumes docs: "inv s" "documents_show (lookup s) u c es" "list_all proper_event es" "readable u c es"
    and payment: "payment_of e = Some (v, st, a)" and no_tx: "tx_of e = None"
    and look: "look = (lookup s)(status_key v \<mapsto> encode_status
        ((count_payment st a (read_model RS decode_status (fresh_status v) (status_key v) s))
          \<lparr>pm_last_payment_at := ev_created_at e, pm_last_updated := now\<rparr>), checkpoint_key \<mapsto> cp)"
  shows "documents_show look u c (es @ [e])"
proof (cases "v = u")
  case True
  obtain now0 where st: "read_model RS decode_status (fresh_status u) (status_key u) s =
      (if user_payments u es = [] then fresh_status u else expected_status u now0 (user_payments u es))"
    using documents_read(3) [OF docs] by blast
  have pays: "account_txs u c (es @ [e]) = account_txs u c es"
    "user_payments u (es @ [e]) = user_payments u es @ [(e, st, a)]"
    using True payment no_tx by simp_all
  note sums = expected_status_snoc [where a = a and ps = "user_payments u es" and u = u and ?now0.0 = now0 and e = e
      and now = now, OF payment_of_kind [OF payment]]
  have "look (status_key u) = Some (encode_status (expected_status u now (user_payments u (es @ [e]))))"
    using look True by (simp only: pays st sums [symmetric]) simp
  moreover have "look (balance_key u c) = lookup s (balance_key u c)" "look (summary_key u c) = lookup s (summary_key u c)"
    using look by simp_all
  ultimately show ?thesis
    using docs(2) pays unfolding documents_show_def by auto
next
  case False
  with look no_tx payment have "account_txs u c (es @ [e]) = account_txs u c es"
    "user_payments u (es @ [e]) = user_payments u es" "look (balance_key u c) = lookup s (balance_key u c)"
    "look (summary_key u c) = lookup s (summary_key u c)" "look (status_key u) = lookup s (status_key u)"
    by auto
  with docs(2) show ?thesis by (rule documents_show_other)
qed

lemma project_event_shows:
  assumes inv: "inv s" and docs: "documents_show (lookup s) u c es"
    and proper: "list_all proper_event (es @ [e])" and read: "readable u c (es @ [e])" and u: "plain_id u"
  shows "\<exists>r s'. project_event RS (balance_handlers RS) clock e p s =
      Returned (r, if malformed e then p else p\<lparr>pj_last_processed := ev_seq e\<rparr>, s') \<and>
    (r = None \<longleftrightarrow> \<not> malformed e) \<and> inv s' \<and> documents_show (lookup s') u c (es @ [e])"
proof -
  have es: "list_all proper_event es" "readable u c es"
    using proper readable_prefix [OF read] by simp_all
  consider (tx) kind d where "tx_of e = Some (kind, d)"
    | (payment) v st a where "payment_of e = Some (v, st, a)" "tx_of e = None"
    | (bad) "malformed e" | (other) "tx_of e = None" "payment_of e = None" "\<not> malformed e"
    by (cases "tx_of e"; cases "payment_of e") auto
  then show ?thesis
  proof cases
    case tx
    have good: "\<not> malformed e" "plain_id (wt_user_id d)" "finite64 (wt_new_balance d)"
      using tx proper by (auto simp: malformed_def proper_event_def)
    show ?thesis
      using project_event_tx [where clock = clock and p = p, OF inv tx good(3)] good(1)
        documents_after_tx [OF inv docs es tx good(2) u refl refl refl refl] by fastforce
  next
    case payment
    then have "\<not> malformed e" by (simp add: malformed_def)
    then show ?thesis
      using project_event_payment [where clock = clock and p = p, OF inv payment(1)]
        documents_after_payment [OF inv docs es payment refl] by fastforce
  next
    case bad
    with project_event_malformed [OF bad, of clock p s] inv docs
    show ?thesis by (auto simp: documents_show_malformed)
  next
    case other
    from project_event_unhandled [where clock = clock and p = p, OF inv type_unhandled [OF other]]
    obtain s' where s': "project_event RS (balance_handlers RS) clock e p s =
        Returned (None, p\<lparr>pj_last_processed := ev_seq e\<rparr>, s')" "inv s'"
      "lookup s' = (lookup s)(checkpoint_key \<mapsto> encode_checkpoint (ev_seq e) (clock 3))" by blast
    have "documents_show (lookup s') u c (es @ [e])"
      by (rule documents_show_other [OF docs]) (simp_all add: other s'(3))
    with s' other(3) show ?thesis by simp
  qed
qed

end

text \<open>What the queries answer when the documents show a history.\<close>

definition answers :: "'s read_model_ops \<Rightarrow> 's \<Rightarrow> string \<Rightarrow> string \<Rightarrow> event list \<Rightarrow> bool" where
  "answers RS s u c es \<longleftrightarrow>
     (\<forall>now. query_balance RS now u c s = (if account_txs u c es = [] then (fresh_balance u c)\<lparr>bm_last_updated := now\<rparr>
        else expected_balance u c (account_txs u c es))) \<and>
     (\<exists>now. query_wallet_summary RS u c s = (if account_txs u c es = []
        then Inl (''wallet summary not found for user '' @ u @ '' currency '' @ c)
        else Inr (expected_summary u c now (account_txs u c es)))) \<and>
     (\<exists>now. query_payment_status RS u s = (if user_payments u es = [] then fresh_status u
        else expected_status u now (user_payments u es)))"

lemma answers_balance:
  "answers RS s u c es \<Longrightarrow> account_txs u c es \<noteq> [] \<Longrightarrow>
     query_balance RS now u c s = expected_balance u c (account_txs u c es)"
  by (simp add: answers_def)

context read_model_store
begin

lemma documents_answer:
  assumes "inv s" "documents_show (lookup s) u c es" "list_all proper_event es" "readable u c es"
  shows "answers RS s u c es"
proof -
  let ?ts = "account_txs u c es" and ?ps = "user_payments u es"
  obtain now1 where
    b: "lookup s (balance_key u c) = (if ?ts = [] then None else Some (encode_balance (expected_balance u c ?ts)))"
    and sm: "lookup s (summary_key u c) = (if ?ts = [] then None else Some (encode_summary (expected_summary u c now1 ?ts)))"
    using assms(2) by (auto simp: documents_show_def)
  have "query_balance RS now u c s = (if ?ts = [] then (fresh_balance u c)\<lparr>bm_last_updated := now\<rparr>
      else expected_balance u c ?ts)" for now
  proof (cases "?ts = []")
    case False
    then show ?thesis
      using read_after_set [where encode = encode_balance, OF assms(1) _ decode_encode_balance] b
        expected_balance_finite(1) [OF assms(3) False] encode_balance_ok by (simp add: query_balance_def)
  qed (simp add: query_balance_def read_model_lookup [OF assms(1)] b)
  moreover have "\<exists>now. query_wallet_summary RS u c s = (if ?ts = []
      then Inl (''wallet summary not found for user '' @ u @ '' currency '' @ c) else Inr (expected_summary u c now ?ts))"
  proof (cases "?ts = []")
    case False
    then have "is_ok (encode_summary (expected_summary u c now1 ?ts))"
      using expected_balance_finite(2) [OF assms(3) False, of now1] encode_summary_ok assms(4) by (simp add: readable_def)
    then obtain j where "encode_summary (expected_summary u c now1 ?ts) = Inr j"
      by (cases "encode_summary (expected_summary u c now1 ?ts)") auto
    with False sm show ?thesis
      by (intro exI [of _ now1]) (simp add: query_wallet_summary_def get [OF assms(1)] decode_encode_summary)
  qed (simp add: query_wallet_summary_def get [OF assms(1)] sm)
  moreover have "\<exists>now. query_payment_status RS u s = (if ?ps = [] then fresh_status u else expected_status u now ?ps)"
    using documents_read(3) [OF assms] by (simp add: query_payment_status_def)
  ultimately show ?thesis by (simp add: answers_def)
qed

text \<open>Catching up projects the events up to the first malformed one, which makes it fail.\<close>

lemma project_all_shows:
  "inv s \<Longrightarrow> documents_show (lookup s) u c before \<Longrightarrow> list_all proper_event (before @ es) \<Longrightarrow>
   readable u c (before @ es) \<Longrightarrow> plain_id u \<Longrightarrow> good = takeWhile (\<lambda>e. \<not> malformed e) es \<Longrightarrow>
   \<exists>r s'. project_all RS (balance_handlers RS) clock i es p s =
       Returned (r, if good = [] then p else p\<lparr>pj_last_processed := ev_seq (last good)\<rparr>, s') \<and>
     (r = None \<longleftrightarrow> good = es) \<and> inv s' \<and> documents_show (lookup s') u c (before @ good)"
proof (induction es arbitrary: s before i p good)
  case (Cons e es)
  have "readable u c (before @ [e])" using readable_append [of u c "before @ [e]" es] Cons.prems(4) by simp
  with Cons.prems project_event_shows [where clock = "clock i" and p = p and s = s and u = u and c = c and es = before and e = e]
  obtain r s1 where s1: "project_event RS (balance_handlers RS) (clock i) e p s =
      Returned (r, if malformed e then p else p\<lparr>pj_last_processed := ev_seq e\<rparr>, s1)"
    "r = None \<longleftrightarrow> \<not> malformed e" "inv s1" "documents_show (lookup s1) u c (before @ [e])" by auto
  show ?case
  proof (cases "malformed e")
    case True
    with s1 Cons.prems(6) show ?thesis by (auto simp: documents_show_malformed)
  next
    case False
    define good' where "good' = takeWhile (\<lambda>e. \<not> malformed e) es"
    have whole: "list_all proper_event ((before @ [e]) @ es)" "readable u c ((before @ [e]) @ es)"
      using Cons.prems(3,4) by simp_all
    obtain r2 s' where rest: "project_all RS (balance_handlers RS) clock (Suc i) es (p\<lparr>pj_last_processed := ev_seq e\<rparr>) s1 =
        Returned (r2, if good' = [] then p\<lparr>pj_last_processed := ev_seq e\<rparr>
          else p\<lparr>pj_last_processed := ev_seq e, pj_last_processed := ev_seq (last good')\<rparr>, s')"
      "r2 = None \<longleftrightarrow> good' = es" "inv s'" "documents_show (lookup s') u c ((before @ [e]) @ good')"
      using Cons.IH [where p = "p\<lparr>pj_last_processed := ev_seq e\<rparr>" and i = "Suc i", OF s1(3,4) whole Cons.prems(5) good'_def]
      by blast
    have "good = e # good'" using False Cons.prems(6) by (simp add: good'_def)
    moreover have "r = None" using False s1(2) by simp
    ultimately show ?thesis
      using rest False s1(1) by (intro exI [of _ r2] exI [of _ s']) simp
  qed
qed auto

text \<open>The running projector leaves malformed events out, and they count nothing.\<close>

lemma project_live_shows:
  "inv s \<Longrightarrow> documents_show (lookup s) u c before \<Longrightarrow> list_all proper_event (before @ es) \<Longrightarrow>
   readable u c (before @ es) \<Longrightarrow> plain_id u \<Longrightarrow>
   \<exists>p' s'. project_live RS (balance_handlers RS) clock i es p s = Returned (p', s') \<and>
     inv s' \<and> documents_show (lookup s') u c (before @ es)"
proof (induction es arbitrary: s before i p)
  case (Cons e es)
  have "readable u c (before @ [e])" using readable_append [of u c "before @ [e]" es] Cons.prems(4) by simp
  with Cons.prems project_event_shows [where clock = "clock i" and p = p and s = s and u = u and c = c and es = before and e = e]
  obtain r s1 where s1: "project_event RS (balance_handlers RS) (clock i) e p s =
      Returned (r, if malformed e then p else p\<lparr>pj_last_processed := ev_seq e\<rparr>, s1)"
    "inv s1" "documents_show (lookup s1) u c (before @ [e])" by auto
  have whole: "list_all proper_event ((before @ [e]) @ es)" "readable u c ((before @ [e]) @ es)"
    using Cons.prems(3,4) by simp_all
  obtain p' s' where "project_live RS (balance_handlers RS) clock (Suc i) es
      (if malformed e then p else p\<lparr>pj_last_processed := ev_seq e\<rparr>) s1 = Returned (p', s')"
    "inv s'" "documents_show (lookup s') u c ((before @ [e]) @ es)"
    using Cons.IH [where p = "if malformed e then p else p\<lparr>pj_last_processed := ev_seq e\<rparr>" and i = "Suc i",
        OF s1(2,3) whole Cons.prems(5)] by blast
  with s1 show ?case by simp
qed auto

end

text \<open>The documents have the type their key stands for, or cannot be read at all.\<close>

definition doc_typed :: "string \<Rightarrow> json go_result \<Rightarrow> bool" where
  "doc_typed k v \<longleftrightarrow> (case v of Inl _ \<Rightarrow> True | Inr j \<Rightarrow>
     (prefix ''balance:'' k \<longrightarrow> is_ok (decode_balance j)) \<and>
     (prefix ''wallet_summary:'' k \<longrightarrow> is_ok (decode_summary j)) \<and>
     (prefix ''payment_status:'' k \<longrightarrow> is_ok (decode_status j)) \<and>
     (k = checkpoint_key \<longrightarrow> is_ok (decode_checkpoint j)))"

definition docs_typed :: "(string \<Rightarrow> json go_result option) \<Rightarrow> bool" where
  "docs_typed look \<longleftrightarrow> (\<forall>k v. look k = Some v \<longrightarrow> doc_typed k v)"

lemma docs_typed_new [simp]: "docs_typed Map.empty"
  by (simp add: docs_typed_def)

lemma docs_typed_upd [intro]: "docs_typed look \<Longrightarrow> doc_typed k v \<Longrightarrow> docs_typed (look(k \<mapsto> v))"
  by (auto simp: docs_typed_def)

lemma doc_typed_written [intro]:
  "doc_typed (balance_key u c) (encode_balance b)" "doc_typed (summary_key u c) (encode_summary sm)"
  "doc_typed (status_key u) (encode_status st)" "doc_typed checkpoint_key (encode_checkpoint n now)"
  by (auto simp: doc_typed_def balance_key_def summary_key_def status_key_def checkpoint_key_def decode_encode
      decode_encode_checkpoint simp del: is_ok_def intro!: is_ok_Inr split: sum.split)

context read_model_store
begin

text \<open>No event makes a handler panic or store a document of another type.\<close>

lemma project_event_typed:
  assumes inv: "inv s" and typed: "docs_typed (lookup s)"
  shows "\<exists>r p' s'. project_event RS (balance_handlers RS) clock e p s = Returned (r, p', s') \<and>
    inv s' \<and> docs_typed (lookup s')"
proof -
  consider (tx) kind d where "tx_of e = Some (kind, d)" | (payment) v st a where "payment_of e = Some (v, st, a)"
    | (bad) "malformed e" | (other) "tx_of e = None" "payment_of e = None" "\<not> malformed e"
    by (cases "tx_of e"; cases "payment_of e") auto
  then show ?thesis
  proof cases
    case tx
    obtain name at_key where h: "balance_handlers RS (ev_type e) = Some (handle_wallet_tx RS name at_key kind)"
      "decode_wallet_tx at_key (ev_data e) = Inr d"
      by (rule handler_of_tx [OF tx]) blast
    let ?u = "wt_user_id d" and ?c = "wt_currency d"
    obtain s1 s2 b where s2: "handle_wallet_tx RS name at_key kind (clock 0) e s = Returned (None, s2)" "inv s2" "inv s1"
      and s1: "lookup s1 = (lookup s)(balance_key ?u ?c \<mapsto> encode_balance b)"
      and up: "update_wallet_summary RS ?u ?c (wt_amount d) kind (ev_created_at e) (ev_seq e) (clock 0) s1 = Returned (None, s2)"
      using handle_wallet_tx_effect [OF inv h(2) refl] by blast
    from update_wallet_summary_effect [OF s2(3), of ?u ?c "wt_amount d" kind "ev_created_at e" "ev_seq e" "clock 0"] up
    obtain sm where "lookup s2 = (lookup s1)(summary_key ?u ?c \<mapsto> encode_summary sm)" by auto
    with typed s1 have "docs_typed (lookup s2)" by (auto simp del: fun_upd_apply)
    with project_event_ok [where clock = clock and p = p, OF h(1) s2(1,2)] show ?thesis
      by (metis docs_typed_upd doc_typed_written(4))
  next
    case payment
    show ?thesis using project_event_payment [where clock = clock and p = p, OF inv payment] typed
      by (metis docs_typed_upd doc_typed_written(3,4))
  next
    case bad
    with project_event_malformed [OF bad] inv typed show ?thesis by blast
  next
    case other
    show ?thesis using project_event_unhandled [where clock = clock and p = p, OF inv type_unhandled [OF other]] typed
      by (metis docs_typed_upd doc_typed_written(4))
  qed
qed

lemma project_live_typed:
  "inv s \<Longrightarrow> docs_typed (lookup s) \<Longrightarrow>
     \<exists>p' s'. project_live RS (balance_handlers RS) clock i es p s = Returned (p', s') \<and> inv s' \<and> docs_typed (lookup s')"
proof (induction es arbitrary: s i p)
  case (Cons e es)
  from project_event_typed [OF Cons.prems, of "clock i" e p] Cons.IH show ?case by fastforce
qed auto

text \<open>Events without a handler move the checkpoint and nothing else.\<close>

lemma project_all_unhandled:
  "inv s \<Longrightarrow> \<forall>e \<in> set es. balance_handlers RS (ev_type e) = None \<Longrightarrow>
     \<exists>p' s'. project_all RS (balance_handlers RS) clock i es p s = Returned (None, p', s') \<and> inv s' \<and>
       (\<forall>k. k \<noteq> checkpoint_key \<longrightarrow> lookup s' k = lookup s k)"
proof (induction es arbitrary: s i p)
  case (Cons e es)
  from Cons.prems have "balance_handlers RS (ev_type e) = None" by simp
  from project_event_unhandled [where clock = "clock i" and p = p, OF Cons.prems(1) this] obtain s1 where s1:
    "project_event RS (balance_handlers RS) (clock i) e p s = Returned (None, p\<lparr>pj_last_processed := ev_seq e\<rparr>, s1)"
    "inv s1" "lookup s1 = (lookup s)(checkpoint_key \<mapsto> encode_checkpoint (ev_seq e) (clock i 3))" by blast
  from Cons.IH [OF s1(2), of "Suc i" "p\<lparr>pj_last_processed := ev_seq e\<rparr>"] Cons.prems(2) s1(1,3) show ?case by auto
qed auto

text \<open>\<open>Start\<close> when the event store has answered the query for the events to catch up with.\<close>

lemma start_shows:
  assumes "inv s" "documents_show (lookup s) u c before" "\<not> pj_is_running p"
    and p1: "p1 = load_checkpoint RS s (p\<lparr>pj_is_running := True\<rparr>)"
    and es: "es_get_events ES ctx (catch_up_filter p1) m = Inr es"
    and "list_all proper_event (before @ es)" "readable u c (before @ es)" "plain_id u"
    and good: "good = takeWhile (\<lambda>e. \<not> malformed e) es"
    and p2: "p2 = (if good = [] then p1 else p1\<lparr>pj_last_processed := ev_seq (last good)\<rparr>)"
  shows "\<exists>r s'. start_projector ES subscribe meanwhile RS (balance_handlers RS) ctx clock m p s =
      (case r of Some x \<Rightarrow> Returned (Inl (''failed to catch up: '' @ x), p2, m, s')
       | None \<Rightarrow> (case subscribe (no_filter\<lparr>f_from_seq := Some (pj_last_processed p2)\<rparr>) (meanwhile m) of
           (Inl x, m1) \<Rightarrow> Returned (Inl (''failed to subscribe to events: '' @ x), p2, m1, s')
         | (Inr ch, m1) \<Rightarrow> Returned (Inr ch, p2, m1, s'))) \<and>
    (r = None \<longleftrightarrow> good = es) \<and> inv s' \<and> documents_show (lookup s') u c (before @ good)"
proof -
  obtain r s' where s': "project_all RS (balance_handlers RS) clock 0 es p1 s = Returned (r, p2, s')"
    "r = None \<longleftrightarrow> good = es" "inv s'" "documents_show (lookup s') u c (before @ good)"
    using project_all_shows [where clock = clock and i = 0 and p = p1, OF assms(1,2,6,7,8) good] p2 by auto
  then show ?thesis
    using assms(3) es
    by (intro exI [of _ r] exI [of _ s']) (simp add: start_projector_def catch_up_def p1 [symmetric] cong: option.case_cong)
qed

lemma start_succeeds:
  assumes "inv s" "documents_show (lookup s) u c before" "\<not> pj_is_running p"
    and "es_get_events ES ctx (catch_up_filter (load_checkpoint RS s (p\<lparr>pj_is_running := True\<rparr>))) m = Inr es"
    and "list_all proper_event (before @ es)" "readable u c (before @ es)" "plain_id u"
    and good: "list_all (\<lambda>e. \<not> malformed e) es" and sub: "\<And>f. \<exists>m1. subscribe f (meanwhile m) = (Inr ch, m1)"
  shows "\<exists>p' m' s'. start_projector ES subscribe meanwhile RS (balance_handlers RS) ctx clock m p s =
      Returned (Inr ch, p', m', s') \<and> pj_is_running p' \<and> inv s' \<and> documents_show (lookup s') u c (before @ es) \<and>
      answers RS s' u c (before @ es)"
proof -
  let ?p1 = "load_checkpoint RS s (p\<lparr>pj_is_running := True\<rparr>)"
  let ?p2 = "if es = [] then ?p1 else ?p1\<lparr>pj_last_processed := ev_seq (last es)\<rparr>"
  have "es = takeWhile (\<lambda>e. \<not> malformed e) es" using good by (induction es) auto
  from start_shows [OF assms(1-3) refl assms(4-7) this refl, of subscribe meanwhile clock]
  obtain s' where s': "start_projector ES subscribe meanwhile RS (balance_handlers RS) ctx clock m p s =
      (case subscribe (no_filter\<lparr>f_from_seq := Some (pj_last_processed ?p2)\<rparr>) (meanwhile m) of
         (Inl x, m1) \<Rightarrow> Returned (Inl (''failed to subscribe to events: '' @ x), ?p2, m1, s')
       | (Inr ch, m1) \<Rightarrow> Returned (Inr ch, ?p2, m1, s'))"
    "inv s'" "documents_show (lookup s') u c (before @ es)"
    by auto
  moreover obtain m1 where "subscribe (no_filter\<lparr>f_from_seq := Some (pj_last_processed ?p2)\<rparr>) (meanwhile m) = (Inr ch, m1)"
    using sub by blast
  moreover have "pj_is_running ?p2" by (simp add: load_checkpoint_def)
  ultimately show ?thesis
    using documents_answer [OF s'(2,3) assms(5,6)] by (intro exI [of _ ?p2] exI [of _ m1] exI [of _ s']) simp
qed

end

section \<open>The projector over the stores\<close>

lemma catch_up_memory:
  "mem_get_events None (catch_up_filter p) m =
     Inr (filter (\<lambda>e. pj_last_processed p \<le> 0 \<or> pj_last_processed p + 1 < ev_seq e) (ms_events m))"
proof -
  have "(\<lambda>e. matches_filter e (catch_up_filter p)) = (\<lambda>e. pj_last_processed p \<le> 0 \<or> pj_last_processed p + 1 < ev_seq e)"
    by (auto simp: fun_eq_iff catch_up_filter_def matches_filter_def no_filter_def)
  then show ?thesis by (simp add: mem_get_events_def catch_up_filter_def)
qed

lemma catch_up_postgres:
  assumes "pg_inv t"
  shows "pg_get_events (calm env) None (catch_up_filter p) t =
     Inr (filter (\<lambda>e. pj_last_processed p \<le> 0 \<or> pj_last_processed p + 1 \<le> ev_seq e) (pg_events t))"
proof -
  have "row_matches (calm env) (catch_up_filter p) = (\<lambda>e. pj_last_processed p \<le> 0 \<or> pj_last_processed p + 1 \<le> ev_seq e)"
    by (auto simp: fun_eq_iff catch_up_filter_def row_matches_def no_filter_def)
  moreover have "f_limit (catch_up_filter p) = None" "f_offset (catch_up_filter p) = None"
    by (simp_all add: catch_up_filter_def)
  ultimately show ?thesis by (simp add: pg_get_events_plain [OF assms])
qed

lemma load_checkpoint_new [simp]:
  "load_checkpoint memory_models_ops new_memory_models p = p\<lparr>pj_last_processed := 0\<rparr>"
  by (simp add: load_checkpoint_def memory_models.read_model_lookup)

lemma load_checkpoint_found:
  assumes "models_open s" "models_lookup s checkpoint_key = Some (encode_checkpoint n now)"
  shows "load_checkpoint memory_models_ops s p = p\<lparr>pj_last_processed := n\<rparr>"
proof -
  have "is_ok (encode_checkpoint n now)" by (simp add: encode_checkpoint_eq)
  from memory_models.read_after_set [where encode = "\<lambda>n. encode_checkpoint n now" and x = n, OF assms
      decode_encode_checkpoint this]
  show ?thesis by (simp add: load_checkpoint_def)
qed

lemma catch_up_all: "pj_last_processed p \<le> 0 \<Longrightarrow> mem_get_events None (catch_up_filter p) m = Inr (ms_events m)"
  by (simp add: catch_up_memory)

lemma takeWhile_all: "list_all P xs \<Longrightarrow> takeWhile P xs = xs"
  by (induction xs) auto

lemma takeWhile_found: "list_all P xs \<Longrightarrow> \<not> P y \<Longrightarrow> takeWhile P (xs @ y # ys) = xs"
  by (induction xs) auto

lemma mem_subscribe_open:
  "\<not> ms_closed m \<Longrightarrow> \<exists>m'. mem_subscribe None f m = (Inr (length (ms_chans m)), m')"
  by (simp add: mem_subscribe_def)

text \<open>C6: the read models show the history.  When the event store holds no event that has a handler but not
  its data, a projector started with empty read models takes them all, and then those its channel delivers,
  of which it leaves out the malformed ones; what the queries answer for an account and a user is what these
  events add up to: the last balance and the numbers and sums of debits and credits, and the payments of the
  user by state, with the time and number of the last one.  The events others append between the reading of
  the store and the subscription (\<open>meanwhile\<close>) are not among them.  (User ids without a colon, and totals
  below the greatest float.)\<close>

theorem read_models_exact:
  assumes "\<not> ms_closed (meanwhile m)" "list_all (\<lambda>e. \<not> malformed e) (ms_events m)"
    and "list_all proper_event (ms_events m @ received)" "readable u c (ms_events m @ received)" "plain_id u"
  shows "\<exists>p m' s p' s'.
    start_projector memory_ops (mem_subscribe None) meanwhile memory_models_ops (balance_handlers memory_models_ops)
      None clock m new_projector new_memory_models = Returned (Inr (length (ms_chans (meanwhile m))), p, m', s) \<and>
    pj_is_running p \<and> answers memory_models_ops s u c (ms_events m) \<and>
    project_live memory_models_ops (balance_handlers memory_models_ops) clock' i received p s = Returned (p', s') \<and>
    answers memory_models_ops s' u c (ms_events m @ received)"
proof -
  let ?p1 = "load_checkpoint memory_models_ops new_memory_models (new_projector\<lparr>pj_is_running := True\<rparr>)"
  have parts: "list_all proper_event ([] @ ms_events m)" "readable u c ([] @ ms_events m)"
    using assms(3) readable_append [OF assms(4)] by simp_all
  have "es_get_events memory_ops None (catch_up_filter ?p1) m = Inr (ms_events m)"
    by (simp add: catch_up_all)
  from memory_models.start_succeeds [where subscribe = "mem_subscribe None" and meanwhile = meanwhile and m = m and clock = clock,
      OF _ _ _ this parts assms(5,2) mem_subscribe_open [OF assms(1)]]
  obtain p m' s where s: "start_projector memory_ops (mem_subscribe None) meanwhile memory_models_ops
      (balance_handlers memory_models_ops) None clock m new_projector new_memory_models =
      Returned (Inr (length (ms_chans (meanwhile m))), p, m', s)" "pj_is_running p"
    "answers memory_models_ops s u c (ms_events m)"
    and docs: "models_open s" "documents_show (models_lookup s) u c (ms_events m)"
    by (auto simp: documents_show_new new_projector_def)
  obtain p' s' where "project_live memory_models_ops (balance_handlers memory_models_ops) clock' i received p s = Returned (p', s')"
    "models_open s'" "documents_show (models_lookup s') u c (ms_events m @ received)"
    using memory_models.project_live_shows [OF docs assms(3-5)] by blast
  with s memory_models.documents_answer [OF this(2,3) assms(3,4)] show ?thesis by blast
qed

text \<open>Deposits and withdrawals of user \<open>u\<close> to try the projector on.\<close>

definition example_tx :: "string \<Rightarrow> int \<Rightarrow> int \<Rightarrow> int \<Rightarrow> event" where
  "example_tx ty sq amount balance = (example_event ''w'' sq)\<lparr>ev_id := replicate (nat sq) CHR ''e'', ev_type := ty, ev_seq := sq,
     ev_data := JObj [(''amount'', JFloat (FFin (of_int amount))), (''new_balance'', JFloat (FFin (of_int balance))),
       (''user_id'', JStr ''u''), (''currency'', JStr ''USD'')]\<rparr>"

lemma example_tx_simps [simp]:
  "ev_seq (example_tx ty sq amount balance) = sq"
  "malformed (example_event a v) = False" "tx_of (example_event a v) = None" "payment_of (example_event a v) = None"
  "malformed (example_tx ''WalletCredited'' sq amount balance) = False"
  "payment_of (example_tx ''WalletCredited'' sq amount balance) = None"
  "tx_of (example_tx ''WalletCredited'' sq amount balance) = Some (''credit'',
     \<lparr>wt_transaction_id = [], wt_amount = FFin (of_int amount), wt_previous_balance = f0,
      wt_new_balance = FFin (of_int balance), wt_description = [], wt_at = 0, wt_user_id = ''u'', wt_currency = ''USD''\<rparr>)"
  by (simp_all add: example_tx_def example_event_def malformed_def tx_of_def payment_of_def decode_wallet_tx_def)

lemma example_proper [simp]: "proper_event (example_tx ''WalletCredited'' sq amount balance)" "proper_event (example_event a v)"
  by (simp_all add: proper_event_def plain_id_def finite64_def)

lemma history_Cons:
  "account_txs u c (e # es) = (case tx_of e of None \<Rightarrow> []
     | Some (kind, d) \<Rightarrow> if wt_user_id d = u \<and> wt_currency d = c then [(e, kind, d)] else []) @ account_txs u c es"
  "user_payments u (e # es) = (case payment_of e of None \<Rightarrow> []
     | Some (v, st, a) \<Rightarrow> if v = u then [(e, st, a)] else []) @ user_payments u es"
  by (auto simp: account_txs_def user_payments_def List.map_filter_def split: option.split)

lemma plain_example [simp]: "plain_id ''u''"
  by (simp add: plain_id_def)

lemma finite_f0 [simp]: "finite64 f0" "finite64 (FFin r)"
  by (simp_all add: finite64_def f0_def)

definition example_poison :: event where
  "example_poison = (example_event ''w'' 2)\<lparr>ev_type := ''WalletRefunded'', ev_seq := 2, ev_data := JStr ''x''\<rparr>"

lemma example_poison_simps [simp]:
  "malformed example_poison" "tx_of example_poison = None" "payment_of example_poison = None" "proper_event example_poison"
  by (simp_all add: example_poison_def example_event_def malformed_def tx_of_def payment_of_def decode_wallet_tx_def
      proper_event_def)

lemma answers_last:
  "answers RS s u c es \<Longrightarrow> account_txs u c es \<noteq> [] \<Longrightarrow> last (account_txs u c es) = (e, kind, d) \<Longrightarrow>
     bm_balance (query_balance RS now u c s) = wt_new_balance d"
  by (simp add: answers_balance expected_balance_def)

lemma read_models_exact_witness:
  "\<exists>p m' s p' s'.
    start_projector memory_ops (mem_subscribe None) id memory_models_ops (balance_handlers memory_models_ops)
      None (\<lambda>_ _. 7) (new_memory_event_store\<lparr>ms_events := [example_tx ''WalletCredited'' 1 5 5]\<rparr>) new_projector
      new_memory_models = Returned (Inr 0, p, m', s) \<and>
    bm_balance (query_balance memory_models_ops 8 ''u'' ''USD'' s) = FFin 5 \<and>
    project_live memory_models_ops (balance_handlers memory_models_ops) (\<lambda>_ _. 9) 0
      [example_poison, example_tx ''WalletCredited'' 3 2 7] p s = Returned (p', s') \<and>
    bm_balance (query_balance memory_models_ops 8 ''u'' ''USD'' s') = FFin 7"
proof -
  let ?e = "example_tx ''WalletCredited'' 1 5 5" and ?f = "example_tx ''WalletCredited'' 3 2 7"
  let ?m = "new_memory_event_store\<lparr>ms_events := [?e]\<rparr>"
  have store: "\<not> ms_closed (id ?m)" "length (ms_chans (id ?m)) = 0"
    by (simp_all add: new_memory_event_store_def)
  have events: "list_all (\<lambda>e. \<not> malformed e) (ms_events ?m)"
    "list_all proper_event (ms_events ?m @ [example_poison, ?f])" "readable ''u'' ''USD'' (ms_events ?m @ [example_poison, ?f])"
    by (simp_all add: readable_def history_Cons tx_total_def amount_initiated_def f0_def round64_numeral)
  obtain p m' s p' s' where
    "start_projector memory_ops (mem_subscribe None) id memory_models_ops (balance_handlers memory_models_ops)
      None (\<lambda>_ _. 7) ?m new_projector new_memory_models = Returned (Inr 0, p, m', s)"
    and live: "project_live memory_models_ops (balance_handlers memory_models_ops) (\<lambda>_ _. 9) 0
      [example_poison, ?f] p s = Returned (p', s')"
    and ans: "answers memory_models_ops s ''u'' ''USD'' (ms_events ?m)"
      "answers memory_models_ops s' ''u'' ''USD'' (ms_events ?m @ [example_poison, ?f])"
    using read_models_exact [where meanwhile = id and clock = "\<lambda>_ _. 7" and clock' = "\<lambda>_ _. 9" and i = 0,
        OF store(1) events plain_example] store(2) by auto
  moreover have "bm_balance (query_balance memory_models_ops 8 ''u'' ''USD'' s) = FFin 5"
    "bm_balance (query_balance memory_models_ops 8 ''u'' ''USD'' s') = FFin 7"
    using answers_last [OF ans(1)] answers_last [OF ans(2)] by (simp_all add: history_Cons)
  ultimately show ?thesis by blast
qed

text \<open>The query for all balances lists the balances that can be encoded.\<close>

lemma all_balances_listed:
  assumes "models_open s" "docs_typed (models_lookup s)"
  shows "\<exists>all. query_all_balances memory_models_ops s = Inr all \<and>
    dom all = {k. prefix ''balance:'' k \<and> (\<exists>j. models_lookup s k = Some (Inr j))}"
proof -
  obtain docs where docs: "s = Some docs" using assms(1) by (auto simp: models_open_def)
  have pat: "matches_pattern ''balance:*'' k \<longleftrightarrow> prefix ''balance:'' k" for k
    by (auto simp: matches_pattern_def suffix_def)
  have "(\<exists>b. (case if prefix ''balance:'' k then docs k else None of None \<Rightarrow> None
      | Some v \<Rightarrow> (case rbind v decode_balance of Inl _ \<Rightarrow> None | Inr b \<Rightarrow> Some b)) = Some b) \<longleftrightarrow>
    prefix ''balance:'' k \<and> (\<exists>j. docs k = Some (Inr j))" for k
  proof (cases "docs k")
    case (Some v)
    then have "doc_typed k v" using assms(2) docs by (auto simp: docs_typed_def models_lookup_def)
    with Some show ?thesis by (cases v) (auto simp: doc_typed_def split: sum.splits)
  qed simp
  then show ?thesis
    by (simp add: query_all_balances_def models_get_all_def docs pat dom_def models_lookup_def)
qed


text \<open>C37: one event that has a handler but not its data stops the projector for good.  The events before it are
  projected, \<open>Start\<close> fails, the projector counts as running all the same, and every later \<open>Start\<close> of it is
  refused, whatever the event store holds by then.\<close>

theorem poison_event_stops_projector:
  assumes "ms_events m = good @ e # rest" "list_all (\<lambda>e. \<not> malformed e) good" "malformed e"
    and "list_all proper_event (ms_events m)" "readable u c (ms_events m)" "plain_id u"
  shows "\<exists>x p s.
    start_projector memory_ops (mem_subscribe None) meanwhile memory_models_ops (balance_handlers memory_models_ops)
      None clock m new_projector new_memory_models = Returned (Inl x, p, m, s) \<and>
    pj_is_running p \<and> answers memory_models_ops s u c good \<and>
    (\<forall>m1 s1. start_projector memory_ops (mem_subscribe None) meanwhile memory_models_ops (balance_handlers memory_models_ops)
      None clock m1 p s1 = Returned (Inl ''projector is already running'', p, m1, s1))"
proof -
  let ?p1 = "load_checkpoint memory_models_ops new_memory_models (new_projector\<lparr>pj_is_running := True\<rparr>)"
  let ?p2 = "if good = [] then ?p1 else ?p1\<lparr>pj_last_processed := ev_seq (last good)\<rparr>"
  have parts: "list_all proper_event good" "readable u c good" "good \<noteq> ms_events m"
    using assms(1,4) readable_append [of u c good "e # rest"] assms(5) by simp_all
  have good: "good = takeWhile (\<lambda>e. \<not> malformed e) (ms_events m)"
    unfolding assms(1) by (rule takeWhile_found [OF assms(2), symmetric]) (simp add: assms(3))
  have "es_get_events memory_ops None (catch_up_filter ?p1) m = Inr (ms_events m)"
    by (simp add: catch_up_all)
  from memory_models.start_shows [where u = u and c = c and before = "[]" and subscribe = "mem_subscribe None"
      and meanwhile = meanwhile and clock = clock, OF _ _ _ refl this _ _ assms(6) good refl] parts(3) assms(4,5)
  obtain x s' where "start_projector memory_ops (mem_subscribe None) meanwhile memory_models_ops
      (balance_handlers memory_models_ops) None clock m new_projector new_memory_models =
      Returned (Inl (''failed to catch up: '' @ x), ?p2, m, s')"
    and s': "models_open s'" "documents_show (models_lookup s') u c good"
    by (auto simp: documents_show_new new_projector_def)
  with memory_models.documents_answer [OF s' parts(1,2)] show ?thesis
    by (intro exI [of _ "''failed to catch up: '' @ x"] exI [of _ ?p2] exI [of _ s'])
      (simp add: new_projector_def start_projector_def)
qed

lemma poison_event_stops_projector_witness:
  "\<exists>x p s. start_projector memory_ops (mem_subscribe None) id memory_models_ops (balance_handlers memory_models_ops)
      None (\<lambda>_ _. 7) (new_memory_event_store\<lparr>ms_events := [example_tx ''WalletCredited'' 1 5 5, example_poison]\<rparr>)
      new_projector new_memory_models =
      Returned (Inl x, p, new_memory_event_store\<lparr>ms_events := [example_tx ''WalletCredited'' 1 5 5, example_poison]\<rparr>, s) \<and>
    bm_balance (query_balance memory_models_ops 8 ''u'' ''USD'' s) = FFin 5"
proof -
  let ?e = "example_tx ''WalletCredited'' 1 5 5"
  let ?m = "new_memory_event_store\<lparr>ms_events := [?e, example_poison]\<rparr>"
  have m: "ms_events ?m = [?e] @ example_poison # []" by simp
  have events: "list_all (\<lambda>e. \<not> malformed e) [?e]" "list_all proper_event (ms_events ?m)" "readable ''u'' ''USD'' (ms_events ?m)"
    by (simp_all add: readable_def history_Cons tx_total_def amount_initiated_def f0_def round64_numeral)
  obtain x p s where start: "start_projector memory_ops (mem_subscribe None) id memory_models_ops (balance_handlers memory_models_ops)
      None (\<lambda>_ _. 7) ?m new_projector new_memory_models = Returned (Inl x, p, ?m, s)"
    and ans: "answers memory_models_ops s ''u'' ''USD'' [?e]"
    using poison_event_stops_projector [where meanwhile = id and clock = "\<lambda>_ _. 7",
        OF m events(1) example_poison_simps(1) events(2,3) plain_example] by blast
  have "bm_balance (query_balance memory_models_ops 8 ''u'' ''USD'' s) = FFin 5"
    using answers_last [OF ans] by (simp add: history_Cons)
  with start show ?thesis by blast
qed

text \<open>C36: a projector that starts again from its checkpoint loses an event.  It asks for the events from the number
  after the last processed one on, which the PostgreSQL store includes and the in-memory store leaves out: over the
  latter the event that follows the checkpoint is never projected, whatever comes after it, while over the former
  the history is complete.\<close>

theorem restart_skips_an_event:
  assumes s: "models_open s" "documents_show (models_lookup s) u c old"
    "models_lookup s checkpoint_key = Some (encode_checkpoint n t)" "0 < n" "\<not> pj_is_running p"
    and m: "\<not> ms_closed (meanwhile m)" "ms_events m = old @ e # new" "ev_seq e = n + 1"
    and tb: "pg_inv tb" "pg_events tb = old @ e # new"
    and ok: "list_all (\<lambda>e. \<not> malformed e) (e # new)" "list_all proper_event (old @ e # new)"
      "readable u c (old @ e # new)" "readable u c (old @ new)" "plain_id u"
  shows "(\<exists>p' m' s'. start_projector memory_ops (mem_subscribe None) meanwhile memory_models_ops
      (balance_handlers memory_models_ops) None clock m p s = Returned (Inr (length (ms_chans (meanwhile m))), p', m', s') \<and>
      answers memory_models_ops s' u c (old @ new)) \<and>
    (\<exists>p' tb' s'. start_projector (pg_ops (calm env)) (\<lambda>f tb. (Inr ch, tb)) id memory_models_ops
      (balance_handlers memory_models_ops) None clock tb p s = Returned (Inr ch, p', tb', s') \<and>
      answers memory_models_ops s' u c (old @ e # new))"
proof -
  let ?p1 = "load_checkpoint memory_models_ops s (p\<lparr>pj_is_running := True\<rparr>)"
  have n: "pj_last_processed ?p1 = n" by (simp add: load_checkpoint_found [OF s(1,3)])
  have sorted: "sorted_wrt (<) (map ev_seq (old @ e # new))"
    using tb by (simp add: pg_inv_def rows_ok_def)
  then have seqs: "\<forall>x \<in> set old. ev_seq x \<le> n" "\<forall>x \<in> set new. n + 1 < ev_seq x"
    using m(3) by (fastforce simp: sorted_wrt_append)+
  have mem: "es_get_events memory_ops None (catch_up_filter ?p1) m = Inr new"
    using seqs m(2,3) s(4) n by (auto simp: catch_up_memory filter_id_conv filter_empty_conv)
  have "filter (\<lambda>x. n \<le> 0 \<or> n + 1 \<le> ev_seq x) old = []" "filter (\<lambda>x. n \<le> 0 \<or> n + 1 \<le> ev_seq x) (e # new) = e # new"
    using seqs m(3) s(4) by (auto simp: filter_empty_conv filter_id_conv)
  then have pg: "es_get_events (pg_ops (calm env)) None (catch_up_filter ?p1) tb = Inr (e # new)"
    using tb by (simp add: catch_up_postgres n del: filter.simps)
  have new: "list_all proper_event (old @ new)" "list_all (\<lambda>e. \<not> malformed e) new"
    using ok(1,2) by simp_all
  from memory_models.start_succeeds [where subscribe = "mem_subscribe None" and meanwhile = meanwhile and m = m and clock = clock,
      OF s(1,2,5) mem new(1) ok(4,5) new(2) mem_subscribe_open [OF m(1)]]
  have "\<exists>p' m' s'. start_projector memory_ops (mem_subscribe None) meanwhile memory_models_ops
      (balance_handlers memory_models_ops) None clock m p s = Returned (Inr (length (ms_chans (meanwhile m))), p', m', s') \<and>
      answers memory_models_ops s' u c (old @ new)" by blast
  moreover from memory_models.start_succeeds [where subscribe = "\<lambda>f tb. (Inr ch, tb)" and meanwhile = id and m = tb and clock = clock and ch = ch,
      OF s(1,2,5) pg ok(2,3,5,1)]
  have "\<exists>p' tb' s'. start_projector (pg_ops (calm env)) (\<lambda>f tb. (Inr ch, tb)) id memory_models_ops
      (balance_handlers memory_models_ops) None clock tb p s = Returned (Inr ch, p', tb', s') \<and>
      answers memory_models_ops s' u c (old @ e # new)" by auto
  ultimately show ?thesis by blast
qed

lemma restart_skips_an_event_witness:
  "\<exists>old m tb s p' m' s' q tb' s2. ms_events m = [old, example_tx ''WalletCredited'' 2 3 8] \<and>
    pg_events tb = ms_events m \<and> bm_balance (query_balance memory_models_ops 8 ''u'' ''USD'' s) = FFin 5 \<and>
    start_projector memory_ops (mem_subscribe None) id memory_models_ops (balance_handlers memory_models_ops) None
      (\<lambda>_ _. 7) m new_projector s = Returned (Inr 0, p', m', s') \<and>
    bm_balance (query_balance memory_models_ops 8 ''u'' ''USD'' s') = FFin 5 \<and>
    start_projector (pg_ops (calm example_pg_env)) (\<lambda>f tb. (Inr 0, tb)) id memory_models_ops
      (balance_handlers memory_models_ops) None (\<lambda>_ _. 7) tb new_projector s = Returned (Inr 0, q, tb', s2) \<and>
    bm_balance (query_balance memory_models_ops 8 ''u'' ''USD'' s2) = FFin 8"
proof -
  let ?old = "example_tx ''WalletCredited'' 1 5 5" and ?e = "example_tx ''WalletCredited'' 2 3 8"
  let ?ts = "account_txs ''u'' ''USD'' [?old]"
  let ?m = "new_memory_event_store\<lparr>ms_events := [?old, ?e]\<rparr>" and ?tb = "pg_create_tables\<lparr>pg_events := [?old, ?e]\<rparr>"
  define s0 :: memory_models where "s0 = Some [balance_key ''u'' ''USD'' \<mapsto> encode_balance (expected_balance ''u'' ''USD'' ?ts),
    summary_key ''u'' ''USD'' \<mapsto> encode_summary (expected_summary ''u'' ''USD'' 6 ?ts),
    checkpoint_key \<mapsto> encode_checkpoint 1 6]"
  have s: "models_open s0" "documents_show (models_lookup s0) ''u'' ''USD'' [?old]"
    "models_lookup s0 checkpoint_key = Some (encode_checkpoint 1 6)"
    by (auto simp: s0_def models_open_def models_lookup_def documents_show_def history_Cons)
  have store: "\<not> ms_closed (id ?m)" "length (ms_chans (id ?m)) = 0" "ms_events ?m = [?old] @ ?e # []"
    "pg_events ?tb = [?old] @ ?e # []"
    by (simp_all add: new_memory_event_store_def)
  have tb: "pg_inv ?tb"
    by (simp add: pg_inv_def rows_ok_def pg_create_tables_def example_tx_def example_event_def too_long_def numeral_eq_Suc)
  have events: "list_all (\<lambda>e. \<not> malformed e) [?e]" "list_all proper_event ([?old] @ [?e])"
    "readable ''u'' ''USD'' ([?old] @ [?e])" "readable ''u'' ''USD'' ([?old] @ [])"
    by (simp_all add: readable_def history_Cons tx_total_def amount_initiated_def f0_def round64_numeral)
  obtain p' m' s' q tb' s2 where run:
    "start_projector memory_ops (mem_subscribe None) id memory_models_ops (balance_handlers memory_models_ops) None
      (\<lambda>_ _. 7) ?m new_projector s0 = Returned (Inr 0, p', m', s')" 
    "answers memory_models_ops s' ''u'' ''USD'' ([?old] @ [])"
    "start_projector (pg_ops (calm example_pg_env)) (\<lambda>f tb. (Inr 0, tb)) id memory_models_ops
      (balance_handlers memory_models_ops) None (\<lambda>_ _. 7) ?tb new_projector s0 = Returned (Inr 0, q, tb', s2)"
    "answers memory_models_ops s2 ''u'' ''USD'' ([?old] @ [?e])"
    using restart_skips_an_event [where meanwhile = id and clock = "\<lambda>_ _. 7" and ch = 0 and env = example_pg_env and p = new_projector,
        OF s _ _ store(1,3) _ tb store(4) events plain_example] store(2)
    by (auto simp: new_projector_def)
  have "bm_balance (query_balance memory_models_ops 8 ''u'' ''USD'' s') = FFin 5"
    "bm_balance (query_balance memory_models_ops 8 ''u'' ''USD'' s2) = FFin 8"
    using answers_last [OF run(2)] answers_last [OF run(4)] by (simp_all add: history_Cons)
  moreover have "answers memory_models_ops s0 ''u'' ''USD'' ([?old] @ [])"
    using memory_models.documents_answer [OF s(1) _ _ events(4)] s(2) by simp
  from answers_last [OF this] have "bm_balance (query_balance memory_models_ops 8 ''u'' ''USD'' s0) = FFin 5"
    by (simp add: history_Cons)
  moreover have "ms_events ?m = [?old, ?e]" "pg_events ?tb = ms_events ?m" by simp_all
  ultimately show ?thesis using run(1,3) by blast
qed

lemma wallet_command_types:
  "agg_uncommitted (snd (run_command c w)) = agg_uncommitted w \<or>
   (\<exists>e. agg_uncommitted (snd (run_command c w)) = agg_uncommitted w @ [e] \<and>
      ev_type e \<in> {''BalanceAdded'', ''BalanceDeducted''})"
proof (cases c)
  case (Add env amount desc)
  show ?thesis
  proof (cases "fle amount f0")
    case True
    then show ?thesis by (simp add: Add add_balance_def)
  next
    case False
    then show ?thesis by (simp add: Add add_balance_exec queued_def wallet_event_def split: sum.split)
  qed
next
  case (Deduct env amount desc)
  show ?thesis
  proof (cases "fle amount f0 \<or> flt (wa_balance w) amount")
    case True
    then show ?thesis by (auto simp: Deduct deduct_balance_def)
  next
    case False
    then show ?thesis by (simp add: Deduct deduct_balance_exec queued_def wallet_event_def split: sum.split)
  qed
qed

lemma wallet_commands_types:
  "\<forall>e \<in> set (agg_uncommitted w). ev_type e \<in> {''BalanceAdded'', ''BalanceDeducted''} \<Longrightarrow>
   \<forall>e \<in> set (agg_uncommitted (run_commands cs w)). ev_type e \<in> {''BalanceAdded'', ''BalanceDeducted''}"
proof (induction cs arbitrary: w)
  case (Cons c cs)
  from wallet_command_types [of c w] Cons.prems
  have "\<forall>e \<in> set (agg_uncommitted (snd (run_command c w))). ev_type e \<in> {''BalanceAdded'', ''BalanceDeducted''}" by auto
  from Cons.IH [OF this] show ?case by simp
qed simp

text \<open>No balance is ever projected from what the program writes.  The wallet aggregate queues
  \<open>BalanceAdded\<close> and \<open>BalanceDeducted\<close>, the projection has handlers for \<open>WalletCredited\<close>,
  \<open>WalletRefunded\<close> and \<open>WalletDeducted\<close>: projecting all the events of any commands succeeds and changes no
  answer.\<close>

theorem balances_never_projected:
  assumes "agg_uncommitted w = []" "models_open s"
  shows "\<exists>p' s'. project_all memory_models_ops (balance_handlers memory_models_ops) clock i
      (agg_uncommitted (run_commands cs w)) p s = Returned (None, p', s') \<and> models_open s' \<and>
    query_balance memory_models_ops now u c s' = query_balance memory_models_ops now u c s \<and>
    query_wallet_summary memory_models_ops u c s' = query_wallet_summary memory_models_ops u c s"
proof -
  have "\<forall>e \<in> set (agg_uncommitted (run_commands cs w)). balance_handlers memory_models_ops (ev_type e) = None"
    using wallet_commands_types [of w cs] assms(1) by (auto simp: balance_handlers_cases)
  from memory_models.project_all_unhandled [OF assms(2) this, of clock i p] obtain p' s' where
    "project_all memory_models_ops (balance_handlers memory_models_ops) clock i (agg_uncommitted (run_commands cs w)) p s =
      Returned (None, p', s')" and s': "models_open s'" "\<forall>k. k \<noteq> checkpoint_key \<longrightarrow> models_lookup s' k = models_lookup s k"
    by blast
  moreover have "query_balance memory_models_ops now u c s' = query_balance memory_models_ops now u c s"
    using s' by (simp add: query_balance_def memory_models.read_model_lookup assms(2))
  moreover have "query_wallet_summary memory_models_ops u c s' = query_wallet_summary memory_models_ops u c s"
    using s' memory_models.get [OF s'(1)] memory_models.get [OF assms(2)] by (simp add: query_wallet_summary_def)
  ultimately show ?thesis by blast
qed

lemma balances_never_projected_witness:
  "\<exists>p' s'. project_all memory_models_ops (balance_handlers memory_models_ops) (\<lambda>_ _. 7) 0
      (agg_uncommitted (run_commands [Add example_env (FFin 3) ''x'', Deduct example_env (FFin 1) ''y'']
        (new_wallet_aggregate ''w'' ''u'' ''USD'' 1 1))) new_projector new_memory_models = Returned (None, p', s') \<and>
    query_balance memory_models_ops 8 ''u'' ''USD'' s' = query_balance memory_models_ops 8 ''u'' ''USD'' new_memory_models"
proof -
  have "agg_uncommitted (new_wallet_aggregate ''w'' ''u'' ''USD'' 1 1) = []" by (simp add: new_wallet_aggregate_def)
  from balances_never_projected [OF this new_memory_models_simps(1)] show ?thesis by blast
qed

section \<open>Stopping\<close>

text \<open>Projecting and starting leave the stop channel as it is, so a projector that was stopped and is started
  again panics when it is stopped once more (before its goroutine has ended).\<close>

lemma project_event_frame:
  "project_event RS H clock e p s = Returned (r, p', s') \<Longrightarrow> pj_stop_closed p' = pj_stop_closed p \<and> pj_is_running p' = pj_is_running p"
  by (auto simp: project_event_def update_checkpoint_def run_bind_eq_Returned split: option.splits prod.splits)

lemma project_all_frame:
  "project_all RS H clock i es p s = Returned (r, p', s') \<Longrightarrow> pj_stop_closed p' = pj_stop_closed p \<and> pj_is_running p' = pj_is_running p"
proof (induction es arbitrary: i p s)
  case (Cons e es)
  from Cons.prems obtain r1 p1 s1 where "project_event RS H (clock i) e p s = Returned (r1, p1, s1)"
    and rest: "(case r1 of Some x \<Rightarrow> Returned (Some (''failed to process event '' @ ev_id e @ '': '' @ x), p1, s1)
       | None \<Rightarrow> project_all RS H clock (Suc i) es (p1\<lparr>pj_last_processed := ev_seq e\<rparr>) s1) = Returned (r, p', s')"
    by (auto simp: run_bind_eq_Returned)
  then show ?case
    using project_event_frame [of RS H "clock i" e p s r1 p1 s1] Cons.IH [of "Suc i" "p1\<lparr>pj_last_processed := ev_seq e\<rparr>" s1]
    by (cases r1) auto
qed simp

lemma second_stop_panics:
  assumes "stop_projector p = Returned p1" "pj_is_running p"
    and "start_projector ES subscribe meanwhile RS H ctx clock m p1 s = Returned (Inr ch, p2, m', s')"
  shows "stop_projector p2 = Panicked"
proof -
  have p1: "pj_stop_closed p1" "\<not> pj_is_running p1"
    using assms(1,2) by (auto simp: stop_projector_def split: if_splits)
  have "pj_stop_closed p2 \<and> pj_is_running p2"
    using assms(3) p1
    by (auto simp: start_projector_def run_bind_eq_Returned catch_up_def load_checkpoint_def
        split: option.splits sum.splits prod.splits dest!: project_all_frame)
  then show ?thesis by (simp add: stop_projector_def)
qed

end
