(* ===== verification/Health_Checks.thy ===== *)
theory Health_Checks
  imports Go_Float Go_Json "HOL-Library.AList"
begin

text \<open>
  The health endpoints: \<open>internal/health/health.go\<close> of the server and \<open>HealthChecker\<close>,
  its checks and its handlers in \<open>pkg/observability/health.go\<close>.

  What the database, Redis, an external service or the runtime answer to a check are arguments.  A
  check that an application registers may do anything: \<open>reply n\<close> is what the check of name \<open>n\<close>
  returns when it runs, \<open>None\<close> if it never returns.  A reply to the client is the status code
  and the body; the log and the clock readings in the body are left out.
\<close>

section \<open>The health of the server\<close>

text \<open>A component is healthy or not, with details; \<open>ping\<close>, \<open>query\<close> are the errors of the driver.\<close>

record component_health =
  ch_status :: string
  ch_details :: "(string \<times> string) list"

definition server_check_database :: "go_error option \<Rightarrow> go_error option \<Rightarrow> component_health" where
  "server_check_database ping query =
     (case ping of Some x \<Rightarrow> \<lparr>ch_status = ''unhealthy'', ch_details = [(''error'', x)]\<rparr>
      | None \<Rightarrow>
         (case query of Some x \<Rightarrow> \<lparr>ch_status = ''unhealthy'', ch_details = [(''error'', ''query failed: '' @ x)]\<rparr>
          | None \<Rightarrow> \<lparr>ch_status = ''healthy'', ch_details = [(''connection'', ''ok'')]\<rparr>))"

definition server_check_redis :: "string go_result \<Rightarrow> component_health" where
  "server_check_redis ping =
     (case ping of Inl x \<Rightarrow> \<lparr>ch_status = ''unhealthy'', ch_details = [(''error'', x)]\<rparr>
      | Inr v \<Rightarrow> \<lparr>ch_status = ''healthy'', ch_details = [(''connection'', ''ok''), (''response'', v)]\<rparr>)"

definition is_database_ready :: "go_error option \<Rightarrow> go_error option \<Rightarrow> bool" where
  "is_database_ready ping query \<longleftrightarrow> ch_status (server_check_database ping query) = ''healthy''"

definition is_redis_ready :: "string go_result \<Rightarrow> bool" where
  "is_redis_ready ping \<longleftrightarrow> ch_status (server_check_redis ping) = ''healthy''"

definition server_check_health ::
  "go_error option \<Rightarrow> go_error option \<Rightarrow> string go_result \<Rightarrow> int \<times> string \<times> (string \<times> component_health) list" where
  "server_check_health ping query redis =
     (let components = [(''database'', server_check_database ping query), (''redis'', server_check_redis redis)];
          status = (if list_all (\<lambda>(_, c). ch_status c = ''healthy'') components then ''healthy'' else ''unhealthy'')
      in (if status \<noteq> ''healthy'' then 503 else 200, status, components))"

definition server_check_readiness ::
  "go_error option \<Rightarrow> go_error option \<Rightarrow> string go_result \<Rightarrow> int \<times> string \<times> (string \<times> bool) list" where
  "server_check_readiness ping query redis =
     (if is_database_ready ping query \<and> is_redis_ready redis then (200, ''ready'', [])
      else (503, ''not ready'', [(''database'', is_database_ready ping query), (''redis'', is_redis_ready redis)]))"

definition server_check_liveness :: "int \<times> string" where
  "server_check_liveness = (200, ''alive'')"

section \<open>Registered checks\<close>

datatype health_status = Healthy | Unhealthy | Degraded | Other_Status string

record check_result =
  cr_name :: string
  cr_status :: health_status
  cr_message :: string
  cr_duration :: duration
  cr_metadata :: "(string \<times> json) list"
  cr_timestamp :: time

definition check_result_of :: "string \<Rightarrow> health_status \<Rightarrow> string \<Rightarrow> (string \<times> json) list \<Rightarrow> check_result" where
  "check_result_of name st msg meta = \<lparr>cr_name = name, cr_status = st, cr_message = msg, cr_duration = 0,
     cr_metadata = meta, cr_timestamp = 0\<rparr>"

text \<open>A registered check replaces one of the same name.\<close>

type_synonym 'c health_checker = "(string \<times> 'c) list"

definition new_health_checker :: "'c health_checker" where
  "new_health_checker = []"

definition register_check :: "string \<Rightarrow> 'c \<Rightarrow> 'c health_checker \<Rightarrow> 'c health_checker" where
  "register_check name check hc = AList.update name check hc"

section \<open>The checks of the library\<close>

record db_stats =
  st_open_connections :: int
  st_in_use :: int
  st_idle :: int
  st_wait_count :: int
  st_wait_duration :: string

definition stats_metadata :: "db_stats \<Rightarrow> (string \<times> json) list" where
  "stats_metadata st = [(''open_connections'', JInt (st_open_connections st)), (''in_use'', JInt (st_in_use st)),
     (''idle'', JInt (st_idle st)), (''wait_count'', JInt (st_wait_count st)), (''wait_duration'', JStr (st_wait_duration st))]"

definition database_check :: "string \<Rightarrow> go_error option \<Rightarrow> db_stats \<Rightarrow> go_error option \<Rightarrow> check_result" where
  "database_check name ping st query =
     (case ping of Some x \<Rightarrow> check_result_of name Unhealthy (''Database ping failed: '' @ x) []
      | None \<Rightarrow>
         if st_wait_count st > 10
         then check_result_of name Degraded ''High connection wait count detected'' (stats_metadata st)
         else (case query of
             Some x \<Rightarrow> check_result_of name Unhealthy (''Database query failed: '' @ x) (stats_metadata st)
           | None \<Rightarrow> check_result_of name Healthy ''Database connection healthy'' (stats_metadata st)))"

text \<open>Of the events the check looks at the times they were made.\<close>

definition event_store_check :: "string \<Rightarrow> time list go_result \<Rightarrow> time \<Rightarrow> check_result" where
  "event_store_check name events now =
     (case events of Inl x \<Rightarrow> check_result_of name Unhealthy (''Event Store query failed: '' @ x) []
      | Inr ts \<Rightarrow>
         (let recent = length (filter (\<lambda>t. t > now - 5 * 60 * 1000000000) ts);
              meta = [(''total_events'', JInt (int (length ts))), (''recent_events'', JInt (int recent))]
          in if length ts = 0 then check_result_of name Degraded ''No events found in Event Store'' meta
             else check_result_of name Healthy ''Event Store is accessible'' meta))"

definition redis_check :: "string \<Rightarrow> go_error option \<Rightarrow> string go_result \<Rightarrow> check_result" where
  "redis_check name ping info =
     (case ping of Some x \<Rightarrow> check_result_of name Unhealthy (''Redis ping failed: '' @ x) []
      | None \<Rightarrow>
         (case info of Inl x \<Rightarrow> check_result_of name Degraded (''Redis info command failed: '' @ x) []
          | Inr i \<Rightarrow> check_result_of name Healthy ''Redis connection healthy''
              [(''redis_info_length'', JInt (int (length i)))]))"

definition external_check :: "string \<Rightarrow> int \<Rightarrow> go_error option \<Rightarrow> int go_result \<Rightarrow> check_result" where
  "external_check name expected request response =
     (case request of Some x \<Rightarrow> check_result_of name Unhealthy (''Failed to create request: '' @ x) []
      | None \<Rightarrow>
         (case response of Inl x \<Rightarrow> check_result_of name Unhealthy (''HTTP request failed: '' @ x) []
          | Inr code \<Rightarrow>
             (let meta = [(''status_code'', JInt code), (''expected_status'', JInt expected)]
              in if code \<noteq> expected
                 then check_result_of name Unhealthy
                   (''Unexpected status code: got '' @ show_int code @ '', expected '' @ show_int expected) meta
                 else check_result_of name Healthy ''External service is responding'' meta)))"

text \<open>The memory in use, and from the system, in bytes; \<open>show1\<close> is the format \<open>%.1f\<close>.\<close>

definition memory_check ::
  "(float64 \<Rightarrow> string) \<Rightarrow> string \<Rightarrow> int \<Rightarrow> float64 \<Rightarrow> 64 word \<Rightarrow> 64 word \<Rightarrow> int \<Rightarrow> check_result" where
  "memory_check show1 name max_mb threshold alloc sys gc =
     (let alloc_mb = sint (alloc div 1024 div 1024); sys_mb = sint (sys div 1024 div 1024);
          usage = fmul (fdiv (f_of_int alloc_mb) (f_of_int max_mb)) (FFin 100);
          meta = [(''alloc_mb'', JInt alloc_mb), (''sys_mb'', JInt sys_mb), (''max_mb'', JInt max_mb),
            (''gc_cycles'', JInt gc), (''usage_percent'', JFloat usage)]
      in if alloc_mb > max_mb then check_result_of name Unhealthy
           (''Memory usage exceeded limit: '' @ show_int alloc_mb @ ''MB > '' @ show_int max_mb @ ''MB'') meta
         else if flt threshold usage then check_result_of name Degraded
           (''Memory usage high: '' @ show1 usage @ ''%'') meta
         else check_result_of name Healthy
           (''Memory usage normal: '' @ show_int alloc_mb @ ''MB ('' @ show1 usage @ ''%)'') meta)"

section \<open>Running all checks\<close>

text \<open>
  \<open>CheckAll\<close> starts a goroutine for every check and waits for all; a goroutine that ends has
  put the result under the name, with the duration and the time it has measured.
\<close>

record check_run =
  run_pending :: "string list"
  run_results :: "(string \<times> check_result) list"

definition check_all_start :: "'c health_checker \<Rightarrow> check_run" where
  "check_all_start hc = \<lparr>run_pending = map fst hc, run_results = []\<rparr>"

inductive check_all_step :: "(string \<Rightarrow> check_result option) \<Rightarrow> check_run \<Rightarrow> check_run \<Rightarrow> bool" for reply where
  finish: "n \<in> set (run_pending st) \<Longrightarrow> reply n = Some r \<Longrightarrow>
    check_all_step reply st \<lparr>run_pending = remove1 n (run_pending st),
      run_results = AList.update n (r\<lparr>cr_duration := d, cr_timestamp := t\<rparr>) (run_results st)\<rparr>"

definition overall_status :: "(string \<times> check_result) list \<Rightarrow> health_status" where
  "overall_status results =
     (if results = [] then Healthy
      else let statuses = map (\<lambda>(_, r). cr_status r) results;
               has_unhealthy = Unhealthy \<in> set statuses;
               has_degraded = Degraded \<in> set statuses
           in if has_unhealthy then Unhealthy else if has_degraded then Degraded else Healthy)"

section \<open>The endpoints\<close>

record health_response =
  hr_code :: int
  hr_status :: health_status
  hr_checks :: "(string \<times> check_result) list"

definition healthz_handler :: "(string \<times> check_result) list \<Rightarrow> health_response" where
  "healthz_handler results =
     \<lparr>hr_code = (case overall_status results of Healthy \<Rightarrow> 200 | Degraded \<Rightarrow> 200 | Unhealthy \<Rightarrow> 503 | Other_Status _ \<Rightarrow> 0),
      hr_status = overall_status results, hr_checks = results\<rparr>"

definition ready_handler :: "(string \<times> check_result) list \<Rightarrow> health_response" where
  "ready_handler results =
     (let critical = filter (\<lambda>(n, _). n = ''database'' \<or> n = ''eventstore'') results
      in \<lparr>hr_code = (if overall_status critical = Healthy then 200 else 503),
          hr_status = overall_status critical, hr_checks = critical\<rparr>)"

definition live_handler :: "int \<times> string" where
  "live_handler = (200, ''alive'')"

text \<open>\<open>SetupHealthChecks\<close>: what is there gets its check, the memory and the gateway always do.\<close>

definition setup_health_checks :: "'c option \<Rightarrow> 'c option \<Rightarrow> 'c option \<Rightarrow> 'c \<Rightarrow> 'c \<Rightarrow> 'c health_checker" where
  "setup_health_checks db store redis memory gateway =
     (let add = (\<lambda>name c hc. case c of None \<Rightarrow> hc | Some check \<Rightarrow> register_check name check hc)
      in register_check ''payment_gateway'' gateway
        (register_check ''memory'' memory
          (add ''redis'' redis (add ''eventstore'' store (add ''database'' db new_health_checker)))))"

section \<open>The overall status\<close>

text \<open>The order in which a map is walked through does not matter: the worst status wins.\<close>

lemma overall_status_cases:
  "overall_status R = (if \<exists>(n, r) \<in> set R. cr_status r = Unhealthy then Unhealthy
     else if \<exists>(n, r) \<in> set R. cr_status r = Degraded then Degraded else Healthy)"
proof -
  have "x \<in> set (map (\<lambda>(_, r). cr_status r) R) \<longleftrightarrow> (\<exists>(n, r) \<in> set R. cr_status r = x)" for x by auto
  then show ?thesis by (cases "R = []") (simp_all only: overall_status_def Let_def, simp_all)
qed

lemma overall_status_not_other: "overall_status R \<noteq> Other_Status x"
  by (simp add: overall_status_cases)

lemma ready_handler_code:
  "hr_code (ready_handler R) = (if \<exists>(n, r) \<in> set R. n \<in> {''database'', ''eventstore''} \<and> cr_status r \<in> {Unhealthy, Degraded}
     then 503 else 200)"
  by (auto simp: ready_handler_def Let_def overall_status_cases split: prod.splits if_splits)

lemma healthz_handler_code:
  "hr_code (healthz_handler R) = (if \<exists>(n, r) \<in> set R. cr_status r = Unhealthy then 503 else 200)"
  by (auto simp: healthz_handler_def overall_status_cases)

lemma register_check_simps [simp]:
  "map_of (register_check n c hc) = (map_of hc)(n \<mapsto> c)"
  "distinct (map fst hc) \<Longrightarrow> distinct (map fst (register_check n c hc))"
  "fst ` set (register_check n c hc) = insert n (fst ` set hc)"
  by (simp_all add: register_check_def update_conv' distinct_update dom_update)

section \<open>Every run of all checks\<close>

definition run_ok :: "(string \<Rightarrow> check_result option) \<Rightarrow> string set \<Rightarrow> check_run \<Rightarrow> bool" where
  "run_ok reply names st \<longleftrightarrow> distinct (run_pending st) \<and> distinct (map fst (run_results st)) \<and>
     set (run_pending st) \<union> fst ` set (run_results st) = names \<and>
     set (run_pending st) \<inter> fst ` set (run_results st) = {} \<and>
     (\<forall>(n, r) \<in> set (run_results st). map_option cr_status (reply n) = Some (cr_status r))"

lemma run_ok_start: "distinct (map fst hc) \<Longrightarrow> run_ok reply (fst ` set hc) (check_all_start hc)"
  by (auto simp: run_ok_def check_all_start_def)

lemma update_fresh: "k \<notin> fst ` set xs \<Longrightarrow> AList.update k v xs = xs @ [(k, v)]"
  by (induction xs) auto

lemma run_ok_step:
  assumes "check_all_step reply st st'" "run_ok reply names st"
  shows "run_ok reply names st' \<and> length (run_pending st) = Suc (length (run_pending st'))"
  using assms
proof cases
  case (finish n r d t)
  with assms(2) have "n \<notin> fst ` set (run_results st)" by (auto simp: run_ok_def)
  with finish assms(2) show ?thesis
    by (auto simp: run_ok_def update_fresh length_remove1 set_remove1_eq dest: length_pos_if_in_set)
qed

lemma run_ok_steps:
  assumes "(check_all_step reply ^^ k) (check_all_start hc) st" "distinct (map fst hc)"
  shows "run_ok reply (fst ` set hc) st \<and> k + length (run_pending st) = length hc"
  using assms(1)
proof (induction k arbitrary: st)
  case 0
  then have "st = check_all_start hc" by simp
  then show ?case using run_ok_start [OF assms(2)] by (simp add: check_all_start_def)
next
  case (Suc k)
  from Suc.prems obtain st1 where "(check_all_step reply ^^ k) (check_all_start hc) st1" "check_all_step reply st1 st"
    by (auto elim: relpowp_Suc_E)
  with Suc.IH [of st1] run_ok_step [of reply st1 st] show ?case by auto
qed

lemma run_ok_finished:
  assumes ok: "run_ok reply names st" "run_pending st = []"
  shows "(\<exists>(n, r) \<in> set (run_results st). P n (cr_status r)) \<longleftrightarrow> (\<exists>n \<in> names. \<exists>r. reply n = Some r \<and> P n (cr_status r))"
proof
  assume "\<exists>(n, r) \<in> set (run_results st). P n (cr_status r)"
  then obtain n r where r: "(n, r) \<in> set (run_results st)" "P n (cr_status r)" by blast
  with ok have "n \<in> names" "map_option cr_status (reply n) = Some (cr_status r)"
    by (force simp: run_ok_def)+
  moreover from this(2) obtain r0 where "reply n = Some r0" "cr_status r0 = cr_status r" by auto
  ultimately show "\<exists>n \<in> names. \<exists>r. reply n = Some r \<and> P n (cr_status r)" using r(2) by metis
next
  assume "\<exists>n \<in> names. \<exists>r. reply n = Some r \<and> P n (cr_status r)"
  then obtain n r where r: "n \<in> names" "reply n = Some r" "P n (cr_status r)" by blast
  with ok obtain r' where "(n, r') \<in> set (run_results st)" by (force simp: run_ok_def)
  moreover from this ok(1) r(2) have "cr_status r' = cr_status r" by (auto simp: run_ok_def)
  ultimately show "\<exists>(n, r) \<in> set (run_results st). P n (cr_status r)"
    using r(3) by (intro bexI [of _ "(n, r')"]) simp_all
qed

lemma step_possible: "n \<in> set (run_pending st) \<Longrightarrow> reply n \<noteq> None \<Longrightarrow> \<exists>st'. check_all_step reply st st'"
  by (metis check_all_step.finish not_None_eq)

text \<open>C23: \<open>CheckAll\<close> comes to an end.  When every registered check returns, whatever the order in which
  the goroutines end, none waits for another: after as many steps as there are checks, and not before, all have
  ended, and there is one result for each check, with the status it returned.\<close>

theorem check_all_completes:
  assumes "distinct (map fst hc)" "list_all (\<lambda>n. reply n \<noteq> None) (map fst hc)"
    and "(check_all_step reply ^^ k) (check_all_start hc) st"
  shows "k + length (run_pending st) = length hc \<and>
    (k = length hc \<or> (\<exists>st'. check_all_step reply st st')) \<and>
    (k \<noteq> length hc \<or> map_option cr_status \<circ> map_of (run_results st) =
       (\<lambda>n. if n \<in> fst ` set hc then map_option cr_status (reply n) else None))"
proof -
  from run_ok_steps [OF assms(3,1)] have ok: "run_ok reply (fst ` set hc) st" and len: "k + length (run_pending st) = length hc"
    by simp_all
  have "\<exists>st'. check_all_step reply st st'" if "k \<noteq> length hc"
  proof -
    from that len obtain n where n: "n \<in> set (run_pending st)" by (cases "run_pending st") auto
    with ok have "n \<in> fst ` set hc" by (auto simp: run_ok_def)
    with assms(2) have "reply n \<noteq> None" by (auto simp: list_all_iff)
    with n show ?thesis by (rule step_possible)
  qed
  moreover have "(map_option cr_status \<circ> map_of (run_results st)) n =
      (if n \<in> fst ` set hc then map_option cr_status (reply n) else None)" if "k = length hc" for n
  proof -
    from that len have "run_pending st = []" by simp
    with ok have keys: "fst ` set (run_results st) = fst ` set hc"
      and stats: "\<forall>(n, r) \<in> set (run_results st). map_option cr_status (reply n) = Some (cr_status r)"
      by (simp_all add: run_ok_def)
    show ?thesis
    proof (cases "map_of (run_results st) n")
      case None
      with keys show ?thesis by (simp add: map_of_eq_None_iff)
    next
      case (Some r)
      then have "(n, r) \<in> set (run_results st)" by (rule map_of_SomeD)
      with keys stats have "n \<in> fst ` set hc" "map_option cr_status (reply n) = Some (cr_status r)" by force+
      with Some show ?thesis by (simp only: comp_apply if_True option.map)
    qed
  qed
  ultimately show ?thesis using len by (auto simp: fun_eq_iff)
qed

text \<open>One such run: the checks end in the order in which they were registered.\<close>

lemma can_finish:
  "list_all (\<lambda>n. reply n \<noteq> None) (run_pending st) \<Longrightarrow>
     \<exists>st'. (check_all_step reply ^^ length (run_pending st)) st st' \<and> run_pending st' = []"
proof (induction "run_pending st" arbitrary: st)
  case (Cons n ns)
  from Cons.prems Cons.hyps(2) [symmetric] obtain r where "reply n = Some r" by auto
  with Cons.hyps(2) [symmetric] have step: "check_all_step reply st \<lparr>run_pending = ns,
      run_results = AList.update n (r\<lparr>cr_duration := 1, cr_timestamp := 1\<rparr>) (run_results st)\<rparr>" (is "check_all_step reply st ?st1")
    using check_all_step.finish [of n st reply r 1 1] by simp
  from Cons.hyps(1) [of ?st1] Cons.prems Cons.hyps(2) [symmetric] obtain st' where
    "(check_all_step reply ^^ length ns) ?st1 st'" "run_pending st' = []" by auto
  with relpowp_Suc_I2 [where P = "check_all_step reply", OF step] Cons.hyps(2) [symmetric] show ?case
    by (metis length_Cons)
qed auto

definition example_checks :: "unit health_checker" where
  "example_checks = setup_health_checks (Some ()) (Some ()) None () ()"

lemma example_checks_names [simp]:
  "map fst example_checks = [''database'', ''eventstore'', ''memory'', ''payment_gateway'']"
  by (simp add: example_checks_def setup_health_checks_def register_check_def new_health_checker_def)

lemma example_checks_length [simp]: "length example_checks = 4"
  using arg_cong [OF example_checks_names, of length] by (simp del: example_checks_names)

lemma example_checks_set [simp]: "fst ` set example_checks = {''database'', ''eventstore'', ''memory'', ''payment_gateway''}"
  using arg_cong [OF example_checks_names, of set] by (simp del: example_checks_names)

definition example_reply :: "string \<Rightarrow> check_result option" where
  "example_reply n = Some (if n = ''eventstore'' then event_store_check n (Inr []) 9 else check_result_of n Healthy '''' [])"

lemma example_run:
  "\<exists>st. (check_all_step example_reply ^^ 4) (check_all_start example_checks) st \<and> run_pending st = []"
proof -
  have "list_all (\<lambda>n. example_reply n \<noteq> None) (run_pending (check_all_start example_checks))"
    by (simp add: example_reply_def list_all_iff)
  moreover have "length (run_pending (check_all_start example_checks)) = 4" by (simp add: check_all_start_def)
  ultimately show ?thesis using can_finish by metis
qed

lemma check_all_completes_witness:
  "\<exists>st. (check_all_step example_reply ^^ 4) (check_all_start example_checks) st \<and>
     map_option cr_status (map_of (run_results st) ''eventstore'') = Some Degraded"
proof -
  obtain st where st: "(check_all_step example_reply ^^ 4) (check_all_start example_checks) st"
    using example_run by blast
  have "map_option cr_status \<circ> map_of (run_results st) =
      (\<lambda>n. if n \<in> fst ` set example_checks then map_option cr_status (example_reply n) else None)"
    using check_all_completes [OF _ _ st] by (simp add: example_reply_def)
  from fun_cong [OF this, of "''eventstore''"] st show ?thesis
    by (auto simp: example_reply_def event_store_check_def check_result_of_def)
qed

text \<open>The wait is for the goroutines, not for the time-out: a check that never returns blocks \<open>CheckAll\<close>.\<close>

lemma hanging_check_blocks:
  assumes "n \<in> fst ` set hc" "reply n = None" "distinct (map fst hc)"
    and "(check_all_step reply ^^ k) (check_all_start hc) st"
  shows "run_pending st \<noteq> []"
proof
  assume "run_pending st = []"
  moreover have ok: "run_ok reply (fst ` set hc) st" using run_ok_steps [OF assms(4,3)] by simp
  ultimately have "n \<in> fst ` set (run_results st)" using assms(1) by (simp add: run_ok_def)
  with ok assms(2) show False by (force simp: run_ok_def)
qed



text \<open>Readiness that does not come, or does not come back.  With an event store check, a system whose event
  store holds no event is never ready, whatever its other checks return; and since the driver counts the waits
  for a connection from the start on, a database check that was degraded for its waits is never healthy again,
  and the system never ready.\<close>

theorem readiness_refused:
  assumes "(check_all_step reply ^^ k) (check_all_start hc) st" "distinct (map fst hc)" "run_pending st = []"
    and "''eventstore'' \<in> fst ` set hc \<and> reply ''eventstore'' = Some (event_store_check name (Inr []) now) \<or>
      ''database'' \<in> fst ` set hc \<and> reply ''database'' = Some (database_check name ping stats query) \<and>
        10 < st_wait_count before \<and> st_wait_count before \<le> st_wait_count stats"
  shows "hr_code (ready_handler (run_results st)) = 503"
proof -
  have "event_store_check name (Inr []) now = check_result_of name Degraded ''No events found in Event Store''
      [(''total_events'', JInt 0), (''recent_events'', JInt 0)]"
    by (simp add: event_store_check_def)
  moreover have "10 < st_wait_count stats \<Longrightarrow> cr_status (database_check name ping stats query) \<in> {Unhealthy, Degraded}"
    by (auto simp: database_check_def check_result_of_def split: option.split)
  ultimately have "\<exists>n \<in> fst ` set hc. \<exists>r. reply n = Some r \<and> n \<in> {''database'', ''eventstore''} \<and> cr_status r \<in> {Unhealthy, Degraded}"
    using assms(4) by (fastforce simp: check_result_of_def)
  with run_ok_finished [OF conjunct1 [OF run_ok_steps [OF assms(1,2)]] assms(3),
      of "\<lambda>n y. n \<in> {''database'', ''eventstore''} \<and> y \<in> {Unhealthy, Degraded}"]
  show ?thesis by (simp add: ready_handler_code)
qed

lemma readiness_refused_witness:
  "\<exists>st. (check_all_step example_reply ^^ 4) (check_all_start example_checks) st \<and>
     hr_code (ready_handler (run_results st)) = 503"
proof -
  obtain st where st: "(check_all_step example_reply ^^ 4) (check_all_start example_checks) st" "run_pending st = []"
    using example_run by blast
  with readiness_refused [where name = "''eventstore''" and now = 9, OF st(1) _ st(2)] show ?thesis
    by (auto simp: example_reply_def)
qed

text \<open>The server's own endpoints: healthy and ready are the same.\<close>

lemma server_health_ready:
  "fst (server_check_health ping query redis) = fst (server_check_readiness ping query redis) \<and>
   fst (server_check_health ping query redis) = (if ping = None \<and> query = None \<and> is_ok redis then 200 else 503)"
  by (auto simp: server_check_health_def server_check_readiness_def is_database_ready_def is_redis_ready_def
      server_check_database_def server_check_redis_def Let_def split: option.splits sum.splits)

end
