(* ===== verification/User_Locks.thy ===== *)
theory User_Locks
  imports Go_Prelude
begin

text \<open>
  \<open>UserLockManager\<close> of \<open>pkg/eventstore/concurrency_control.go\<close>: one read-write lock per user,
  acquired by a helper goroutine so that the caller can give up after a timeout.

  A request is a number; its phase says where the caller and its goroutine are.  \<open>getLock\<close> hands
  out one lock per user (the map is only written under the manager's mutex, after a second look), so
  the state is the phase of every request at the lock of every user.  The fairness of the runtime's
  lock is left open: a free lock may go to any goroutine that waits for it.
\<close>

datatype lock_mode = Read | Write

datatype phase =
    Idle
  | Waiting lock_mode    \<comment> \<open>the goroutine blocks, the caller waits for it\<close>
  | Acquired lock_mode   \<comment> \<open>the goroutine has the lock, the caller has not looked yet\<close>
  | Holding lock_mode    \<comment> \<open>the caller has been handed the lock\<close>
  | Abandoned lock_mode  \<comment> \<open>the caller gave up, the goroutine still blocks\<close>
  | Orphaned lock_mode   \<comment> \<open>the goroutine of a caller that gave up has the lock\<close>

type_synonym locks = "string \<Rightarrow> nat \<Rightarrow> phase"

definition no_locks :: locks where
  "no_locks = (\<lambda>_ _. Idle)"

fun owns :: "lock_mode \<Rightarrow> phase \<Rightarrow> bool" where
  "owns m (Acquired m') = (m = m')"
| "owns m (Holding m') = (m = m')"
| "owns m (Orphaned m') = (m = m')"
| "owns m _ = False"

definition free_for :: "lock_mode \<Rightarrow> (nat \<Rightarrow> phase) \<Rightarrow> bool" where
  "free_for m ps = ((\<forall>i. \<not> owns Write (ps i)) \<and> (m = Write \<longrightarrow> (\<forall>i. \<not> owns Read (ps i))))"

text \<open>What the caller of \<open>LockUser\<close> or \<open>RLockUser\<close> is told.\<close>

definition lock_error :: "lock_mode \<Rightarrow> string \<Rightarrow> ctx_err \<Rightarrow> string \<Rightarrow> go_error" where
  "lock_error m user ctx timeout = (case ctx of
     Some x \<Rightarrow> ''failed to acquire '' @ (case m of Write \<Rightarrow> '''' | Read \<Rightarrow> ''read '') @ ''lock for user '' @
       user @ '': '' @ x
   | None \<Rightarrow> ''timeout acquiring '' @ (case m of Write \<Rightarrow> '''' | Read \<Rightarrow> ''read '') @ ''lock for user '' @
       user @ '' after '' @ timeout)"

inductive lock_step :: "locks \<Rightarrow> locks \<Rightarrow> bool" where
  request: "s u i = Idle \<Longrightarrow> lock_step s (s(u := (s u)(i := Waiting m)))"
| acquire: "s u i = Waiting m \<Longrightarrow> free_for m (s u) \<Longrightarrow> lock_step s (s(u := (s u)(i := Acquired m)))"
| return: "s u i = Acquired m \<Longrightarrow> lock_step s (s(u := (s u)(i := Holding m)))"
| give_up: "s u i = Waiting m \<Longrightarrow> lock_step s (s(u := (s u)(i := Abandoned m)))"
| give_up_late: "s u i = Acquired m \<Longrightarrow> lock_step s (s(u := (s u)(i := Orphaned m)))"
| acquire_abandoned: "s u i = Abandoned m \<Longrightarrow> free_for m (s u) \<Longrightarrow>
    lock_step s (s(u := (s u)(i := Orphaned m)))"
| unlock: "s u i = Holding m \<Longrightarrow> lock_step s (s(u := (s u)(i := Idle)))"

inductive lock_steps :: "locks \<Rightarrow> locks \<Rightarrow> bool" where
  refl: "lock_steps s s"
| step: "lock_steps s s' \<Longrightarrow> lock_step s' s'' \<Longrightarrow> lock_steps s s''"

section \<open>Mutual exclusion\<close>

definition exclusive :: "(nat \<Rightarrow> phase) \<Rightarrow> bool" where
  "exclusive ps = (\<forall>i j. owns Write (ps i) \<longrightarrow> (owns Write (ps j) \<or> owns Read (ps j)) \<longrightarrow> i = j)"

lemma exclusive_step: "lock_step s s' \<Longrightarrow> exclusive (s v) \<Longrightarrow> exclusive (s' v)"
proof (induction rule: lock_step.induct)
  case (acquire s u i m)
  then show ?case by (cases m) (auto simp: exclusive_def free_for_def)
next
  case (acquire_abandoned s u i m)
  then show ?case by (cases m) (auto simp: exclusive_def free_for_def)
qed (auto simp: exclusive_def)

lemma exclusive_steps: "lock_steps s s' \<Longrightarrow> exclusive (s v) \<Longrightarrow> exclusive (s' v)"
  by (induction rule: lock_steps.induct) (auto intro: exclusive_step)

text \<open>An orphaned lock is never released.\<close>

lemma orphan_step: "lock_step s s' \<Longrightarrow> s u i = Orphaned m \<Longrightarrow> s' u i = Orphaned m"
  by (induction rule: lock_step.induct) (auto simp: fun_upd_def)

lemma orphan_steps: "lock_steps s s' \<Longrightarrow> s u i = Orphaned m \<Longrightarrow> s' u i = Orphaned m"
  by (induction rule: lock_steps.induct) (auto intro: orphan_step)

section \<open>Properties\<close>


definition held_state :: locks where
  "held_state = no_locks(''u'' := (\<lambda>_. Idle)(0 := Holding Write))"

lemma held_state_reachable: "lock_steps no_locks held_state"
proof -
  let ?s1 = "no_locks(''u'' := (\<lambda>_. Idle)(0 := Waiting Write))"
  let ?s2 = "no_locks(''u'' := (\<lambda>_. Idle)(0 := Acquired Write))"
  have "lock_step no_locks ?s1"
    using lock_step.request [of no_locks "''u''" 0 Write] by (simp add: no_locks_def)
  moreover have "lock_step ?s1 ?s2"
    using lock_step.acquire [of ?s1 "''u''" 0 Write] by (simp add: free_for_def)
  moreover have "lock_step ?s2 held_state"
    using lock_step.return [of ?s2 "''u''" 0 Write] by (simp add: held_state_def)
  ultimately show ?thesis by (meson lock_steps.intros)
qed


text \<open>A caller that times out leaves its goroutine behind, which takes the lock when it becomes free
  and never gives it back.  From then on nobody is handed a lock of that user again, for reading or for
  writing, whatever happens.\<close>

theorem timed_out_lock_is_lost:
  assumes "lock_steps no_locks s" "s u i = Orphaned Write" "lock_steps s s'"
  shows "s' u j \<noteq> Holding m"
proof
  assume hold: "s' u j = Holding m"
  have "lock_steps no_locks s'"
    using assms(3,1) by (induction rule: lock_steps.induct) (auto intro: lock_steps.intros)
  moreover have "exclusive (no_locks u)" by (simp add: exclusive_def no_locks_def)
  ultimately have "exclusive (s' u)" by (rule exclusive_steps)
  moreover have "s' u i = Orphaned Write" by (rule orphan_steps [OF assms(3,2)])
  ultimately have "i = j" using hold unfolding exclusive_def by (cases m) (metis owns.simps(2,3))+
  with hold \<open>s' u i = Orphaned Write\<close> show False by simp
qed

definition lost_state :: locks where
  "lost_state = no_locks(''u'' := (\<lambda>_. Idle)(1 := Orphaned Write))"

lemma lost_state_reachable: "lock_steps no_locks lost_state"
proof -
  let ?s1 = "no_locks(''u'' := (\<lambda>_. Idle)(0 := Holding Write, 1 := Waiting Write))"
  let ?s2 = "no_locks(''u'' := (\<lambda>_. Idle)(0 := Holding Write, 1 := Abandoned Write))"
  let ?s3 = "no_locks(''u'' := (\<lambda>_. Idle)(1 := Abandoned Write))"
  have "lock_step held_state ?s1"
    using lock_step.request [of held_state "''u''" 1 Write] by (simp add: held_state_def)
  moreover have "lock_step ?s1 ?s2"
    using lock_step.give_up [of ?s1 "''u''" 1 Write] by (simp add: fun_upd_twist)
  moreover have "lock_step ?s2 ?s3"
    using lock_step.unlock [of ?s2 "''u''" 0 Write] by (simp add: fun_upd_twist fun_upd_idem)
  moreover have "lock_step ?s3 lost_state"
    using lock_step.acquire_abandoned [of ?s3 "''u''" 1 Write] by (simp add: free_for_def lost_state_def)
  ultimately show ?thesis using held_state_reachable by (meson lock_steps.intros)
qed

lemma timed_out_lock_is_lost_witness: "lock_steps no_locks lost_state \<and> lost_state ''u'' 7 \<noteq> Holding Write"
  using timed_out_lock_is_lost [OF lost_state_reachable _ lock_steps.refl, of "''u''" 1 7 Write]
    lost_state_reachable
  by (simp add: lost_state_def)

end
