(* ===== verification/Concurrent_Wallet.thy ===== *)
theory Concurrent_Wallet
  imports User_Locks Go_Float
begin

text \<open>
  \<open>ConcurrentWalletService\<close> of \<open>pkg/eventstore/concurrency_control.go\<close>: balances per user and
  currency, changed under a pessimistic lock, optimistically, or per partition.  Logging is left out.

  What a goroutine does while it holds the mutex of a balance is one step.  The pessimistic operations
  get the outcome of \<open>LockUser\<close> (\<open>None\<close> when it was handed the lock), the optimistic ones what
  the other goroutines do between their steps.
\<close>

record wallet_balance =
  wb_user_id :: string
  wb_currency :: string
  wb_balance :: float64
  wb_version :: int
  wb_last_updated :: time
  wb_transaction_count :: int

type_synonym balances = "string \<rightharpoonup> (string \<rightharpoonup> wallet_balance)"

definition new_balances :: balances where
  "new_balances = Map.empty"

definition lookup_balance :: "balances \<Rightarrow> string \<Rightarrow> string \<Rightarrow> wallet_balance option" where
  "lookup_balance bs u c = (case bs u of None \<Rightarrow> None | Some m \<Rightarrow> m c)"

definition put_balance :: "string \<Rightarrow> string \<Rightarrow> wallet_balance \<Rightarrow> balances \<Rightarrow> balances" where
  "put_balance u c wb bs = bs(u \<mapsto> (case bs u of None \<Rightarrow> Map.empty | Some m \<Rightarrow> m)(c \<mapsto> wb))"

text \<open>\<open>getOrCreateBalance\<close>: the balance, and the map with it.\<close>

definition get_or_create_balance :: "time \<Rightarrow> string \<Rightarrow> string \<Rightarrow> balances \<Rightarrow> wallet_balance \<times> balances" where
  "get_or_create_balance now u c bs =
     (case lookup_balance bs u c of
        Some wb \<Rightarrow> (wb, bs)
      | None \<Rightarrow>
          (let wb = \<lparr>wb_user_id = u, wb_currency = c, wb_balance = f0, wb_version = 1,
                 wb_last_updated = now, wb_transaction_count = 0\<rparr>
           in (wb, put_balance u c wb bs)))"

text \<open>The two changes of a balance, and the refusal.\<close>

definition debit :: "time \<Rightarrow> float64 \<Rightarrow> wallet_balance \<Rightarrow> wallet_balance" where
  "debit now amount wb = wb\<lparr>wb_balance := fsub (wb_balance wb) amount, wb_version := wb_version wb + 1,
     wb_last_updated := now, wb_transaction_count := wb_transaction_count wb + 1\<rparr>"

definition credit :: "time \<Rightarrow> float64 \<Rightarrow> wallet_balance \<Rightarrow> wallet_balance" where
  "credit now amount wb = wb\<lparr>wb_balance := fadd (wb_balance wb) amount, wb_version := wb_version wb + 1,
     wb_last_updated := now, wb_transaction_count := wb_transaction_count wb + 1\<rparr>"

definition insufficient_error :: "float64 \<Rightarrow> float64 \<Rightarrow> go_error" where
  "insufficient_error have need =
     ''insufficient balance: have '' @ show_f2 have @ '', need '' @ show_f2 need"

section \<open>Under a lock\<close>

definition deduct_funds_pessimistic ::
  "go_error option \<Rightarrow> time \<Rightarrow> string \<Rightarrow> string \<Rightarrow> float64 \<Rightarrow> balances \<Rightarrow> go_error option \<times> balances" where
  "deduct_funds_pessimistic lock now u c amount bs =
     (case lock of Some x \<Rightarrow> (Some (''failed to acquire exclusive lock: '' @ x), bs)
      | None \<Rightarrow>
         (case get_or_create_balance now u c bs of (wb, bs) \<Rightarrow>
            if flt (wb_balance wb) amount then (Some (insufficient_error (wb_balance wb) amount), bs)
            else (None, put_balance u c (debit now amount wb) bs)))"

definition refund_funds_pessimistic ::
  "go_error option \<Rightarrow> time \<Rightarrow> string \<Rightarrow> string \<Rightarrow> float64 \<Rightarrow> balances \<Rightarrow> go_error option \<times> balances" where
  "refund_funds_pessimistic lock now u c amount bs =
     (case lock of Some x \<Rightarrow> (Some (''failed to acquire exclusive lock: '' @ x), bs)
      | None \<Rightarrow>
         (case get_or_create_balance now u c bs of (wb, bs) \<Rightarrow>
            (None, put_balance u c (credit now amount wb) bs)))"

definition check_balance_pessimistic ::
  "go_error option \<Rightarrow> time \<Rightarrow> string \<Rightarrow> string \<Rightarrow> balances \<Rightarrow> float64 go_result \<times> balances" where
  "check_balance_pessimistic lock now u c bs =
     (case lock of Some x \<Rightarrow> (Inl (''failed to acquire read lock: '' @ x), bs)
      | None \<Rightarrow> (case get_or_create_balance now u c bs of (wb, bs) \<Rightarrow> (Inr (wb_balance wb), bs)))"

section \<open>Per partition\<close>

text \<open>The hash is a 64-bit signed integer that wraps, over the code points of the user id.\<close>

definition user_hash :: "string \<Rightarrow> int64" where
  "user_hash user = foldl (\<lambda>h ch. h * 31 + of_nat (of_char ch)) 0 user"

text \<open>Go's remainder has the sign of the dividend.\<close>

definition go_rem :: "int \<Rightarrow> int \<Rightarrow> int" where
  "go_rem a b = sgn a * (\<bar>a\<bar> mod \<bar>b\<bar>)"

definition get_partition_for_user :: "string \<Rightarrow> int" where
  "get_partition_for_user user = go_rem (sint (user_hash user)) 4 + 1"

definition deduct_funds_partitioned ::
  "time \<Rightarrow> string \<Rightarrow> string \<Rightarrow> float64 \<Rightarrow> balances \<Rightarrow> go_error option \<times> balances" where
  "deduct_funds_partitioned now u c amount bs =
     (case get_or_create_balance now u c bs of (wb, bs) \<Rightarrow>
        if flt (wb_balance wb) amount then (Some (insufficient_error (wb_balance wb) amount), bs)
        else (None, put_balance u c (debit now amount wb) bs))"

definition refund_funds_partitioned ::
  "time \<Rightarrow> string \<Rightarrow> string \<Rightarrow> float64 \<Rightarrow> balances \<Rightarrow> go_error option \<times> balances" where
  "refund_funds_partitioned now u c amount bs =
     (case get_or_create_balance now u c bs of (wb, bs) \<Rightarrow>
        (None, put_balance u c (credit now amount wb) bs))"

definition read_balance :: "time \<Rightarrow> string \<Rightarrow> string \<Rightarrow> balances \<Rightarrow> float64 \<times> balances" where
  "read_balance now u c bs = (case get_or_create_balance now u c bs of (wb, bs) \<Rightarrow> (wb_balance wb, bs))"

section \<open>Optimistically\<close>

text \<open>
  An attempt in two steps: read, and commit if the version is still the one read.  A commit returns
  \<open>None\<close> when it finds another version.
\<close>

definition deduct_read ::
  "time \<Rightarrow> string \<Rightarrow> string \<Rightarrow> float64 \<Rightarrow> balances \<Rightarrow> int go_result \<times> balances" where
  "deduct_read now u c amount bs =
     (case get_or_create_balance now u c bs of (wb, bs) \<Rightarrow>
        if flt (wb_balance wb) amount then (Inl (insufficient_error (wb_balance wb) amount), bs)
        else (Inr (wb_version wb), bs))"

definition refund_read :: "time \<Rightarrow> string \<Rightarrow> string \<Rightarrow> balances \<Rightarrow> int \<times> balances" where
  "refund_read now u c bs = (case get_or_create_balance now u c bs of (wb, bs) \<Rightarrow> (wb_version wb, bs))"

definition commit ::
  "(wallet_balance \<Rightarrow> wallet_balance) \<Rightarrow> string \<Rightarrow> string \<Rightarrow> int \<Rightarrow> balances \<Rightarrow> balances option" where
  "commit change u c version bs =
     (case lookup_balance bs u c of
        None \<Rightarrow> None
      | Some wb \<Rightarrow> if wb_version wb \<noteq> version then None else Some (put_balance u c (change wb) bs))"

definition max_attempts :: nat where
  "max_attempts = 5"

text \<open>
  The loops, from attempt \<open>k\<close> on: \<open>others k\<close> is what the other goroutines do between the read and
  the commit of attempt \<open>k\<close>, \<open>waits k\<close> what they do during the back-off behind it.
\<close>

function deduct_loop ::
  "(nat \<Rightarrow> balances \<Rightarrow> balances) \<Rightarrow> (nat \<Rightarrow> balances \<Rightarrow> balances) \<Rightarrow> (nat \<Rightarrow> time) \<Rightarrow> string \<Rightarrow> string \<Rightarrow>
     float64 \<Rightarrow> nat \<Rightarrow> balances \<Rightarrow> go_error option \<times> balances" where
  "deduct_loop others waits now u c amount k bs =
     (if k < max_attempts
      then (case deduct_read (now k) u c amount bs of
              (Inl x, bs) \<Rightarrow> (Some x, bs)
            | (Inr version, bs) \<Rightarrow>
                (let bs = others k bs
                 in case commit (debit (now k) amount) u c version bs of
                      Some bs \<Rightarrow> (None, bs)
                    | None \<Rightarrow> deduct_loop others waits now u c amount (k + 1) (waits k bs)))
      else (Some (''failed to deduct funds after '' @ show_nat max_attempts @
              '' attempts due to version conflicts''), bs))"
  by pat_completeness auto
termination
  by (relation "measure (\<lambda>(_, _, _, _, _, _, k, _). max_attempts - k)") auto

function refund_loop ::
  "(nat \<Rightarrow> balances \<Rightarrow> balances) \<Rightarrow> (nat \<Rightarrow> balances \<Rightarrow> balances) \<Rightarrow> (nat \<Rightarrow> time) \<Rightarrow> string \<Rightarrow> string \<Rightarrow>
     float64 \<Rightarrow> nat \<Rightarrow> balances \<Rightarrow> go_error option \<times> balances" where
  "refund_loop others waits now u c amount k bs =
     (if k < max_attempts
      then (case refund_read (now k) u c bs of
              (version, bs) \<Rightarrow>
                (let bs = others k bs
                 in case commit (credit (now k) amount) u c version bs of
                      Some bs \<Rightarrow> (None, bs)
                    | None \<Rightarrow> refund_loop others waits now u c amount (k + 1) (waits k bs)))
      else (Some (''failed to refund funds after '' @ show_nat max_attempts @
              '' attempts due to version conflicts''), bs))"
  by pat_completeness auto
termination
  by (relation "measure (\<lambda>(_, _, _, _, _, _, k, _). max_attempts - k)") auto

declare deduct_loop.simps [simp del] refund_loop.simps [simp del]

definition deduct_funds_optimistic ::
  "(nat \<Rightarrow> balances \<Rightarrow> balances) \<Rightarrow> (nat \<Rightarrow> balances \<Rightarrow> balances) \<Rightarrow> (nat \<Rightarrow> time) \<Rightarrow> string \<Rightarrow> string \<Rightarrow>
     float64 \<Rightarrow> balances \<Rightarrow> go_error option \<times> balances" where
  "deduct_funds_optimistic others waits now u c amount bs = deduct_loop others waits now u c amount 0 bs"

definition refund_funds_optimistic ::
  "(nat \<Rightarrow> balances \<Rightarrow> balances) \<Rightarrow> (nat \<Rightarrow> balances \<Rightarrow> balances) \<Rightarrow> (nat \<Rightarrow> time) \<Rightarrow> string \<Rightarrow> string \<Rightarrow>
     float64 \<Rightarrow> balances \<Rightarrow> go_error option \<times> balances" where
  "refund_funds_optimistic others waits now u c amount bs = refund_loop others waits now u c amount 0 bs"

section \<open>The service\<close>

record wallet_env =
  we_lock :: "go_error option"
  we_now :: "nat \<Rightarrow> time"
  we_others :: "nat \<Rightarrow> balances \<Rightarrow> balances"
  we_waits :: "nat \<Rightarrow> balances \<Rightarrow> balances"

definition check_balance ::
  "string \<Rightarrow> wallet_env \<Rightarrow> string \<Rightarrow> string \<Rightarrow> balances \<Rightarrow> float64 go_result \<times> balances" where
  "check_balance strategy env u c bs =
     (if strategy = ''pessimistic'' then check_balance_pessimistic (we_lock env) (we_now env 0) u c bs
      else if strategy = ''optimistic'' \<or> strategy = ''partition_based''
      then (case read_balance (we_now env 0) u c bs of (b, bs) \<Rightarrow> (Inr b, bs))
      else (Inl (''unknown concurrency strategy: '' @ strategy), bs))"

definition deduct_funds ::
  "string \<Rightarrow> wallet_env \<Rightarrow> string \<Rightarrow> string \<Rightarrow> float64 \<Rightarrow> balances \<Rightarrow> go_error option \<times> balances" where
  "deduct_funds strategy env u c amount bs =
     (if strategy = ''pessimistic''
      then deduct_funds_pessimistic (we_lock env) (we_now env 0) u c amount bs
      else if strategy = ''optimistic''
      then deduct_funds_optimistic (we_others env) (we_waits env) (we_now env) u c amount bs
      else if strategy = ''partition_based'' then deduct_funds_partitioned (we_now env 0) u c amount bs
      else (Some (''unknown concurrency strategy: '' @ strategy), bs))"

definition refund_funds ::
  "string \<Rightarrow> wallet_env \<Rightarrow> string \<Rightarrow> string \<Rightarrow> float64 \<Rightarrow> balances \<Rightarrow> go_error option \<times> balances" where
  "refund_funds strategy env u c amount bs =
     (if strategy = ''pessimistic''
      then refund_funds_pessimistic (we_lock env) (we_now env 0) u c amount bs
      else if strategy = ''optimistic''
      then refund_funds_optimistic (we_others env) (we_waits env) (we_now env) u c amount bs
      else if strategy = ''partition_based'' then refund_funds_partitioned (we_now env 0) u c amount bs
      else (Some (''unknown concurrency strategy: '' @ strategy), bs))"

definition process_payment_requested ::
  "string \<Rightarrow> wallet_env \<Rightarrow> string \<Rightarrow> string \<Rightarrow> float64 \<Rightarrow> balances \<Rightarrow> go_error option \<times> balances" where
  "process_payment_requested strategy env u c amount bs =
     (if strategy = ''optimistic''
      then deduct_funds_optimistic (we_others env) (we_waits env) (we_now env) u c amount bs
      else if strategy = ''pessimistic''
      then deduct_funds_pessimistic (we_lock env) (we_now env 0) u c amount bs
      else (Some (''unknown concurrency control strategy: '' @ strategy), bs))"

definition set_balance :: "time \<Rightarrow> string \<Rightarrow> string \<Rightarrow> float64 \<Rightarrow> balances \<Rightarrow> balances" where
  "set_balance now u c amount bs =
     (case get_or_create_balance now u c bs of (wb, bs) \<Rightarrow>
        put_balance u c (wb\<lparr>wb_balance := amount, wb_version := wb_version wb + 1, wb_last_updated := now\<rparr>) bs)"

definition get_balance_with_version :: "time \<Rightarrow> string \<Rightarrow> string \<Rightarrow> balances \<Rightarrow> (float64 \<times> int) \<times> balances" where
  "get_balance_with_version now u c bs =
     (case get_or_create_balance now u c bs of (wb, bs) \<Rightarrow> ((wb_balance wb, wb_version wb), bs))"

definition get_balance :: "time \<Rightarrow> string \<Rightarrow> string \<Rightarrow> balances \<Rightarrow> float64 \<times> balances" where
  "get_balance now u c bs = read_balance now u c bs"

section \<open>The operations one at a time\<close>

lemma lookup_put [simp]:
  "lookup_balance (put_balance u c wb bs) v d = (if v = u \<and> d = c then Some wb else lookup_balance bs v d)"
  by (simp add: lookup_balance_def put_balance_def split: option.split)

lemma put_put [simp]: "put_balance u c wb (put_balance u c wb' bs) = put_balance u c wb bs"
  by (simp add: put_balance_def fun_upd_upd)

text \<open>What \<open>getOrCreateBalance\<close> leaves behind.\<close>

abbreviation touched :: "time \<Rightarrow> string \<Rightarrow> string \<Rightarrow> balances \<Rightarrow> balances" where
  "touched now u c bs \<equiv> snd (get_or_create_balance now u c bs)"

lemma lookup_touched: "lookup_balance (touched now u c bs) u c = Some (fst (get_or_create_balance now u c bs))"
  by (simp add: get_or_create_balance_def Let_def split: option.split)

lemma touched_known: "lookup_balance bs u c = Some wb \<Longrightarrow> get_or_create_balance now u c bs = (wb, bs)"
  by (simp add: get_or_create_balance_def)

lemma touched_twice [simp]:
  "get_or_create_balance now' u c (touched now u c bs) = get_or_create_balance now u c bs"
  using touched_known [OF lookup_touched] by simp

lemma touched_other:
  "\<not> (v = u \<and> d = c) \<Longrightarrow> lookup_balance (touched now u c bs) v d = lookup_balance bs v d"
  by (auto simp: get_or_create_balance_def Let_def split: option.split)

lemma touched_lookup: "get_or_create_balance now u c bs = (wb, bs') \<Longrightarrow> lookup_balance bs' u c = Some wb"
  using lookup_touched [of now u c bs] by simp

lemma pessimistic_partitioned:
  "deduct_funds_pessimistic None = deduct_funds_partitioned"
  "refund_funds_pessimistic None = refund_funds_partitioned"
  by (auto simp: fun_eq_iff deduct_funds_pessimistic_def deduct_funds_partitioned_def
    refund_funds_pessimistic_def refund_funds_partitioned_def)

text \<open>A commit at the version just read is the operation under a lock.\<close>

lemma deduct_read_error:
  "deduct_read now u c amount bs = (Inl x, bs') \<longleftrightarrow>
     deduct_funds_partitioned now u c amount bs = (Some x, bs')"
  by (auto simp: deduct_read_def deduct_funds_partitioned_def split: prod.splits if_splits)

lemma deduct_read_ok:
  assumes "deduct_read now u c amount bs = (Inr v, bs')"
  shows "bs' = touched now u c bs" "v = wb_version (fst (get_or_create_balance now u c bs))"
    "\<not> flt (wb_balance (fst (get_or_create_balance now u c bs))) amount"
  using assms by (auto simp: deduct_read_def split: prod.splits if_splits)

lemma commit_someD:
  assumes "commit change u c v bs = Some bs'"
  obtains wb where "lookup_balance bs u c = Some wb" "wb_version wb = v" "bs' = put_balance u c (change wb) bs"
  using assms by (auto simp: commit_def split: option.splits if_splits)

lemma commit_deduct:
  assumes "commit (debit now amount) u c v bs = Some bs'" "lookup_balance bs u c = Some wb"
    "\<not> flt (wb_balance wb) amount"
  shows "deduct_funds_partitioned now u c amount bs = (None, bs')"
  using assms by (auto simp: commit_def deduct_funds_partitioned_def get_or_create_balance_def split: if_splits)

lemma commit_refund:
  assumes "commit (credit now amount) u c v bs = Some bs'"
  shows "refund_funds_partitioned now u c amount bs = (None, bs')"
  using assms by (auto simp: commit_def refund_funds_partitioned_def get_or_create_balance_def
    split: if_splits option.splits)

text \<open>Without interference the first attempt succeeds.\<close>

lemma optimistic_quiet:
  "deduct_funds_optimistic (\<lambda>_ bs. bs) waits now u c amount bs = deduct_funds_partitioned (now 0) u c amount bs"
  "refund_funds_optimistic (\<lambda>_ bs. bs) waits now u c amount bs = refund_funds_partitioned (now 0) u c amount bs"
proof -
  obtain wb bs' where touch: "get_or_create_balance (now 0) u c bs = (wb, bs')" by (cases "get_or_create_balance (now 0) u c bs")
  note known = touched_lookup [OF touch]
  show "deduct_funds_optimistic (\<lambda>_ bs. bs) waits now u c amount bs = deduct_funds_partitioned (now 0) u c amount bs"
    using touch known unfolding deduct_funds_optimistic_def
    by (subst deduct_loop.simps) (simp add: max_attempts_def deduct_read_def deduct_funds_partitioned_def commit_def)
  show "refund_funds_optimistic (\<lambda>_ bs. bs) waits now u c amount bs = refund_funds_partitioned (now 0) u c amount bs"
    using touch known unfolding refund_funds_optimistic_def
    by (subst refund_loop.simps) (simp add: max_attempts_def refund_read_def refund_funds_partitioned_def commit_def)
qed

section \<open>Interference\<close>

text \<open>
  What a goroutine that holds the version of a balance may rely on: versions never go back, and while
  the version is the same so is the balance.  Every operation keeps it.
\<close>

definition version_rely :: "string \<Rightarrow> string \<Rightarrow> balances \<Rightarrow> balances \<Rightarrow> bool" where
  "version_rely u c bs bs' = (case lookup_balance bs u c of
     None \<Rightarrow> True
   | Some wb \<Rightarrow> (case lookup_balance bs' u c of
       None \<Rightarrow> False
     | Some wb' \<Rightarrow> wb' = wb \<or> wb_version wb < wb_version wb'))"

lemma version_rely_refl [simp]: "version_rely u c bs bs"
  by (simp add: version_rely_def split: option.split)

lemma version_rely_trans: "version_rely u c bs bs' \<Longrightarrow> version_rely u c bs' bs'' \<Longrightarrow> version_rely u c bs bs''"
  by (auto simp: version_rely_def split: option.splits)

lemma version_rely_touched [simp]: "version_rely u c bs (touched now v d bs)"
  by (auto simp: version_rely_def get_or_create_balance_def Let_def split: option.splits)

lemma version_rely_created: "get_or_create_balance now v d bs = (wb, bs') \<Longrightarrow> version_rely u c bs bs'"
  using version_rely_touched [of u c bs now v d] by simp

lemma version_rely_put:
  assumes "lookup_balance bs v d = Some wb" "wb_version wb < wb_version wb'"
  shows "version_rely u c bs (put_balance v d wb' bs)"
  using assms by (auto simp: version_rely_def split: option.splits)

lemma version_rely_change:
  assumes "get_or_create_balance now v d bs = (wb, bs')" "wb_version wb < wb_version wb'"
  shows "version_rely u c bs (put_balance v d wb' bs')"
proof (rule version_rely_trans)
  show "version_rely u c bs bs'" by (rule version_rely_created [OF assms(1)])
  show "version_rely u c bs' (put_balance v d wb' bs')"
    by (rule version_rely_put [OF touched_lookup [OF assms(1)] assms(2)])
qed

lemma changes_bump [simp]:
  "wb_version (debit now amount wb) = wb_version wb + 1" "wb_version (credit now amount wb) = wb_version wb + 1"
  by (simp_all add: debit_def credit_def)

lemma operations_rely:
  "version_rely v d bs (snd (deduct_funds_partitioned now u c amount bs))"
  "version_rely v d bs (snd (refund_funds_partitioned now u c amount bs))"
  "version_rely v d bs (set_balance now u c amount bs)"
  by (auto simp: deduct_funds_partitioned_def refund_funds_partitioned_def set_balance_def
    split: prod.split intro: version_rely_change version_rely_created)

text \<open>The states between the steps of the loops of one goroutine.\<close>

inductive interleaved ::
  "(nat \<Rightarrow> balances \<Rightarrow> balances) \<Rightarrow> (nat \<Rightarrow> balances \<Rightarrow> balances) \<Rightarrow> (nat \<Rightarrow> time) \<Rightarrow> string \<Rightarrow> string \<Rightarrow>
     balances \<Rightarrow> balances \<Rightarrow> bool"
  for others waits now u c bs where
  start: "interleaved others waits now u c bs bs"
| touch: "interleaved others waits now u c bs bs' \<Longrightarrow>
    interleaved others waits now u c bs (touched (now k) u c bs')"
| other: "interleaved others waits now u c bs bs' \<Longrightarrow> interleaved others waits now u c bs (others k bs')"
| wait: "interleaved others waits now u c bs bs' \<Longrightarrow> interleaved others waits now u c bs (waits k bs')"

definition gave_up :: "string \<Rightarrow> go_error" where
  "gave_up what = ''failed to '' @ what @ '' funds after 5 attempts due to version conflicts''"

lemma show_attempts: "show_nat max_attempts = ''5''"
  by code_simp

lemma loop_linearizable_deduct:
  assumes rely: "\<And>k bs. version_rely u c bs (others k bs)"
  shows "interleaved others waits now u c bs0 bs \<Longrightarrow>
    \<exists>bs'. interleaved others waits now u c bs0 bs' \<and>
      (deduct_loop others waits now u c amount k bs = (Some (gave_up ''deduct''), bs') \<or>
       (\<exists>j < max_attempts. deduct_loop others waits now u c amount k bs =
          deduct_funds_partitioned (now j) u c amount bs'))"
proof (induction "max_attempts - k" arbitrary: k bs)
  case 0
  then have "deduct_loop others waits now u c amount k bs = (Some (gave_up ''deduct''), bs)"
    by (subst deduct_loop.simps) (simp add: gave_up_def show_attempts)
  with 0 show ?case by blast
next
  case (Suc n)
  from Suc.hyps(2) have k: "k < max_attempts" by simp
  obtain r bs1 where read: "deduct_read (now k) u c amount bs = (r, bs1)" by (cases "deduct_read (now k) u c amount bs")
  show ?case
  proof (cases r)
    case (Inl x)
    have "deduct_loop others waits now u c amount k bs = deduct_funds_partitioned (now k) u c amount bs"
      using read k deduct_read_error [of "now k" u c amount bs x bs1] Inl by (subst deduct_loop.simps) simp
    with Suc.prems k show ?thesis by blast
  next
    case (Inr v)
    note ok = deduct_read_ok [OF read [unfolded Inr]]
    let ?bs2 = "others k bs1"
    have reached: "interleaved others waits now u c bs0 ?bs2"
      unfolding ok(1) by (intro interleaved.other interleaved.touch Suc.prems)
    show ?thesis
    proof (cases "commit (debit (now k) amount) u c v ?bs2")
      case None
      have "deduct_loop others waits now u c amount k bs = deduct_loop others waits now u c amount (k + 1) (waits k ?bs2)"
        using read Inr None k by (subst deduct_loop.simps) simp
      moreover have "n = max_attempts - (k + 1)" using Suc.hyps(2) by simp
      ultimately show ?thesis using Suc.hyps(1) interleaved.wait [OF reached] by metis
    next
      case (Some bs')
      then obtain wb where wb: "lookup_balance ?bs2 u c = Some wb" "wb_version wb = v" by (rule commit_someD)
      have "\<not> flt (wb_balance wb) amount"
        using rely [of bs1 k] wb ok lookup_touched [of "now k" u c bs]
        by (auto simp: version_rely_def split: option.splits)
      with Some wb have "deduct_funds_partitioned (now k) u c amount ?bs2 = (None, bs')"
        by (intro commit_deduct) auto
      moreover have "deduct_loop others waits now u c amount k bs = (None, bs')"
        using read Inr Some k by (subst deduct_loop.simps) simp
      ultimately show ?thesis using reached k by metis
    qed
  qed
qed

lemma loop_linearizable_refund:
  "interleaved others waits now u c bs0 bs \<Longrightarrow>
    \<exists>bs'. interleaved others waits now u c bs0 bs' \<and>
      (refund_loop others waits now u c amount k bs = (Some (gave_up ''refund''), bs') \<or>
       (\<exists>j < max_attempts. refund_loop others waits now u c amount k bs =
          refund_funds_partitioned (now j) u c amount bs'))"
proof (induction "max_attempts - k" arbitrary: k bs)
  case 0
  then have "refund_loop others waits now u c amount k bs = (Some (gave_up ''refund''), bs)"
    by (subst refund_loop.simps) (simp add: gave_up_def show_attempts)
  with 0 show ?case by blast
next
  case (Suc n)
  from Suc.hyps(2) have k: "k < max_attempts" by simp
  let ?bs2 = "others k (touched (now k) u c bs)"
  let ?v = "wb_version (fst (get_or_create_balance (now k) u c bs))"
  have read: "refund_read (now k) u c bs = (?v, touched (now k) u c bs)"
    by (simp add: refund_read_def split: prod.split)
  have reached: "interleaved others waits now u c bs0 ?bs2"
    by (intro interleaved.other interleaved.touch Suc.prems)
  show ?case
  proof (cases "commit (credit (now k) amount) u c ?v ?bs2")
    case None
    have "refund_loop others waits now u c amount k bs = refund_loop others waits now u c amount (k + 1) (waits k ?bs2)"
      using read None k by (subst refund_loop.simps) simp
    moreover have "n = max_attempts - (k + 1)" using Suc.hyps(2) by simp
    ultimately show ?thesis using Suc.hyps(1) interleaved.wait [OF reached] by metis
  next
    case (Some bs')
    have "refund_loop others waits now u c amount k bs = (None, bs')"
      using read Some k by (subst refund_loop.simps) simp
    then show ?thesis using commit_refund [OF Some] reached k by metis
  qed
qed

section \<open>Properties\<close>

text \<open>C14: whatever the other goroutines do between the steps of an optimistic operation, as long as no
  version of the balance goes back or comes twice, the operation ends after at most five attempts,
  and it has the result and the effect of the operation under a lock, executed in one go at one moment
  between its start and its end; or it gives up and has no effect.\<close>

theorem optimistic_linearizable:
  assumes "\<And>k bs. version_rely u c bs (others k bs)"
  shows "(\<exists>bs'. interleaved others waits now u c bs bs' \<and>
      (deduct_funds_optimistic others waits now u c amount bs = (Some (gave_up ''deduct''), bs') \<or>
       (\<exists>k < max_attempts. deduct_funds_optimistic others waits now u c amount bs =
          deduct_funds_pessimistic None (now k) u c amount bs'))) \<and>
    (\<exists>bs'. interleaved others waits now u c bs bs' \<and>
      (refund_funds_optimistic others waits now u c amount bs = (Some (gave_up ''refund''), bs') \<or>
       (\<exists>k < max_attempts. refund_funds_optimistic others waits now u c amount bs =
          refund_funds_pessimistic None (now k) u c amount bs')))"
  unfolding deduct_funds_optimistic_def refund_funds_optimistic_def pessimistic_partitioned
  by (intro conjI loop_linearizable_deduct loop_linearizable_refund assms interleaved.start)

definition meanwhile :: "nat \<Rightarrow> balances \<Rightarrow> balances" where
  "meanwhile k bs = snd (deduct_funds_partitioned 0 ''u'' ''USD'' (FFin 1) bs)"

lemma optimistic_linearizable_witness:
  "\<exists>bs'. interleaved meanwhile meanwhile (\<lambda>_. 0) ''u'' ''USD'' new_balances bs' \<and>
      (deduct_funds_optimistic meanwhile meanwhile (\<lambda>_. 0) ''u'' ''USD'' (FFin 5) new_balances =
         (Some (gave_up ''deduct''), bs') \<or>
       (\<exists>k < max_attempts. deduct_funds_optimistic meanwhile meanwhile (\<lambda>_. 0) ''u'' ''USD'' (FFin 5) new_balances =
          deduct_funds_pessimistic None 0 ''u'' ''USD'' (FFin 5) bs'))"
  using optimistic_linearizable [of "''u''" "''USD''" meanwhile meanwhile "\<lambda>_. 0" new_balances "FFin 5"]
  by (simp add: meanwhile_def operations_rely)

text \<open>When nobody interferes and the lock is granted the three strategies are the same service: a
  deduction, a refund and a look at the balance have the same result and leave the same balances.\<close>

theorem strategies_agree:
  assumes "strategy \<in> {''pessimistic'', ''optimistic'', ''partition_based''}"
    and "we_lock env = None" "we_others env = (\<lambda>_ bs. bs)"
  shows "deduct_funds strategy env u c amount bs =
      (case get_or_create_balance (we_now env 0) u c bs of (wb, bs) \<Rightarrow>
         if flt (wb_balance wb) amount then (Some (insufficient_error (wb_balance wb) amount), bs)
         else (None, put_balance u c (debit (we_now env 0) amount wb) bs)) \<and>
    refund_funds strategy env u c amount bs =
      (case get_or_create_balance (we_now env 0) u c bs of (wb, bs) \<Rightarrow>
         (None, put_balance u c (credit (we_now env 0) amount wb) bs)) \<and>
    check_balance strategy env u c bs =
      (case get_balance (we_now env 0) u c bs of (b, bs) \<Rightarrow> (Inr b, bs))"
  using assms
  by (auto simp: deduct_funds_def refund_funds_def check_balance_def get_balance_def optimistic_quiet
    pessimistic_partitioned deduct_funds_partitioned_def refund_funds_partitioned_def read_balance_def
    check_balance_pessimistic_def split: prod.split)

lemma strategies_agree_witness:
  "fst (deduct_funds ''optimistic'' \<lparr>we_lock = None, we_now = (\<lambda>_. 0), we_others = (\<lambda>_ bs. bs), we_waits = (\<lambda>_ bs. bs)\<rparr>
     ''u'' ''USD'' (FFin 5) (set_balance 0 ''u'' ''USD'' (FFin 7) new_balances)) = None"
  using strategies_agree [of "''optimistic''"
    "\<lparr>we_lock = None, we_now = (\<lambda>_. 0), we_others = (\<lambda>_ bs. bs), we_waits = (\<lambda>_ bs. bs)\<rparr>"
    "''u''" "''USD''" "FFin 5" "set_balance 0 ''u'' ''USD'' (FFin 7) new_balances"]
  by (simp add: set_balance_def get_or_create_balance_def new_balances_def lookup_balance_def put_balance_def Let_def)

text \<open>The balance check is blind to amounts that are not numbers and to negative ones: taking a
  NaN succeeds under every strategy, and then every later deduction does, whatever its amount; taking
  a negative amount from an empty balance succeeds and leaves a positive balance.\<close>

theorem bad_amounts_pass:
  assumes "strategy \<in> {''pessimistic'', ''optimistic'', ''partition_based''}"
    and "we_lock env = None" "we_others env = (\<lambda>_ bs. bs)"
  shows "fst (deduct_funds strategy env u c FNaN bs) = None \<and>
    fst (deduct_funds strategy env u c amount (snd (deduct_funds strategy env u c FNaN bs))) = None \<and>
    fst (deduct_funds strategy env u c (FFin (- 5)) new_balances) = None \<and>
    map_option wb_balance (lookup_balance (snd (deduct_funds strategy env u c (FFin (- 5)) new_balances)) u c) =
      Some (FFin 5)"
proof -
  have same: "deduct_funds strategy env = deduct_funds_partitioned (we_now env 0)"
    using assms by (intro ext) (auto simp: deduct_funds_def optimistic_quiet pessimistic_partitioned)
  have minus: "\<not> flt b FNaN" "fsub b FNaN = FNaN" "\<not> flt FNaN b" for b
    by (cases b; simp add: fsub_def)+
  obtain wb bs' where touch: "get_or_create_balance (we_now env 0) u c bs = (wb, bs')"
    by (cases "get_or_create_balance (we_now env 0) u c bs")
  have nan: "deduct_funds_partitioned (we_now env 0) u c FNaN bs =
      (None, put_balance u c (debit (we_now env 0) FNaN wb) bs')"
    by (simp add: deduct_funds_partitioned_def touch minus)
  have "wb_balance (debit (we_now env 0) FNaN wb) = FNaN" by (simp add: debit_def minus)
  then have again: "fst (deduct_funds_partitioned (we_now env 0) u c amount
      (put_balance u c (debit (we_now env 0) FNaN wb) bs')) = None"
    by (simp add: deduct_funds_partitioned_def get_or_create_balance_def minus)
  have "lookup_balance new_balances u c = None" by (simp add: new_balances_def lookup_balance_def)
  then have minus5: "deduct_funds_partitioned (we_now env 0) u c (FFin (- 5)) new_balances = (None, bs'')
      \<Longrightarrow> map_option wb_balance (lookup_balance bs'' u c) = Some (FFin 5)"
    "fst (deduct_funds_partitioned (we_now env 0) u c (FFin (- 5)) new_balances) = None" for bs''
    using round64_int [of 5]
    by (auto simp: deduct_funds_partitioned_def get_or_create_balance_def Let_def debit_def f0_def fsub_def)
  show ?thesis
    unfolding same using nan again minus5 by (metis prod.collapse snd_conv fst_conv)
qed

lemma bad_amounts_pass_witness:
  "fst (deduct_funds ''pessimistic'' \<lparr>we_lock = None, we_now = (\<lambda>_. 0), we_others = (\<lambda>_ bs. bs), we_waits = (\<lambda>_ bs. bs)\<rparr>
     ''u'' ''USD'' FNaN new_balances) = None"
  using bad_amounts_pass [of "''pessimistic''"
    "\<lparr>we_lock = None, we_now = (\<lambda>_. 0), we_others = (\<lambda>_ bs. bs), we_waits = (\<lambda>_ bs. bs)\<rparr>"
    "''u''" "''USD''" new_balances]
  by simp

end
