(* ===== verification/Instrumentation.thy ===== *)
theory Instrumentation
  imports Concurrent_Wallet Event_Model "HOL-Library.Sublist"
begin

text \<open>
  Metrics and tracing of \<open>pkg/observability\<close>: the collector and the services it wraps
  (\<open>metrics.go\<close>), the middleware, and the values a context carries to the log
  (\<open>context.go\<close>, \<open>logging.go\<close>).

  The vectors of counters, gauges and histograms are objects of the Prometheus library; the model
  keeps the calls made to them, in their order.  Namespace and help texts are left out, log lines
  too.  A wrapped service is a record of its methods over a state of its own.
\<close>

section \<open>The collector\<close>

text \<open>A call \<open>v.WithLabelValues(ls).Inc()\<close>, \<open>.Observe(d)\<close>, \<open>.Set(x)\<close>; durations are nanoseconds.\<close>

datatype metric_call =
    Inc (call_metric: string) (call_labels: "string list")
  | Observe (call_metric: string) (call_labels: "string list") duration
  | Set_Gauge (call_metric: string) (call_labels: "string list") float64

datatype metric_kind = Counter_Vec | Gauge_Vec | Histogram_Vec

text \<open>\<open>NewPrometheusMetrics\<close>: the vectors it registers, by subsystem and name, with their label names.\<close>

definition prometheus_metrics :: "(string \<times> metric_kind \<times> string list) list" where
  "prometheus_metrics =
    [(''payment_total'', Counter_Vec, [''status'', ''currency'', ''payment_method'']),
     (''payment_duration_seconds'', Histogram_Vec, [''status'', ''currency'']),
     (''retry_total'', Counter_Vec, [''service'', ''operation'']),
     (''wallet_operations_total'', Counter_Vec, [''operation'', ''currency'']),
     (''wallet_balance'', Gauge_Vec, [''user_id'', ''currency'']),
     (''concurrency_conflicts_total'', Counter_Vec, [''strategy'']),
     (''eventstore_events_total'', Counter_Vec, [''event_type'', ''aggregate_type'']),
     (''eventstore_processing_duration_seconds'', Histogram_Vec, [''event_type'']),
     (''eventstore_dlq_events_total'', Counter_Vec, [''reason'']),
     (''system_active_connections'', Gauge_Vec, [''service'']),
     (''system_errors_total'', Counter_Vec, [''service'', ''error_type'']),
     (''http_request_duration_seconds'', Histogram_Vec, [''method'', ''path'', ''status_code'']),
     (''http_requests_total'', Counter_Vec, [''method'', ''path'', ''status_code''])]"

definition increment_payment_counter :: "string \<Rightarrow> string \<Rightarrow> string \<Rightarrow> metric_call" where
  "increment_payment_counter status currency pm = Inc ''payment_total'' [status, currency, pm]"

definition record_payment_latency :: "duration \<Rightarrow> string \<Rightarrow> string \<Rightarrow> metric_call" where
  "record_payment_latency d status currency = Observe ''payment_duration_seconds'' [status, currency] d"

definition increment_retry_counter :: "string \<Rightarrow> string \<Rightarrow> metric_call" where
  "increment_retry_counter service operation = Inc ''retry_total'' [service, operation]"

definition increment_wallet_operation_counter :: "string \<Rightarrow> string \<Rightarrow> metric_call" where
  "increment_wallet_operation_counter operation currency = Inc ''wallet_operations_total'' [operation, currency]"

definition record_balance :: "string \<Rightarrow> string \<Rightarrow> float64 \<Rightarrow> metric_call" where
  "record_balance user currency b = Set_Gauge ''wallet_balance'' [user, currency] b"

definition increment_conflict_counter :: "string \<Rightarrow> metric_call" where
  "increment_conflict_counter strategy = Inc ''concurrency_conflicts_total'' [strategy]"

definition increment_event_counter :: "string \<Rightarrow> string \<Rightarrow> metric_call" where
  "increment_event_counter ty aggregate = Inc ''eventstore_events_total'' [ty, aggregate]"

definition record_event_latency :: "duration \<Rightarrow> string \<Rightarrow> metric_call" where
  "record_event_latency d ty = Observe ''eventstore_processing_duration_seconds'' [ty] d"

definition increment_dlq_counter :: "string \<Rightarrow> metric_call" where
  "increment_dlq_counter reason = Inc ''eventstore_dlq_events_total'' [reason]"

definition record_active_connections :: "string \<Rightarrow> int \<Rightarrow> metric_call" where
  "record_active_connections service n = Set_Gauge ''system_active_connections'' [service] (f_of_int n)"

definition increment_error_counter :: "string \<Rightarrow> string \<Rightarrow> metric_call" where
  "increment_error_counter service ty = Inc ''system_errors_total'' [service, ty]"

definition record_http_duration :: "string \<Rightarrow> string \<Rightarrow> int \<Rightarrow> duration \<Rightarrow> metric_call" where
  "record_http_duration method path code d = Observe ''http_request_duration_seconds'' [method, path, show_int code] d"

definition increment_http_counter :: "string \<Rightarrow> string \<Rightarrow> int \<Rightarrow> metric_call" where
  "increment_http_counter method path code = Inc ''http_requests_total'' [method, path, show_int code]"

section \<open>Substrings\<close>

definition substring_loop :: "string \<Rightarrow> string \<Rightarrow> bool" where
  "substring_loop s sub \<longleftrightarrow> length sub \<le> length s \<and>
     list_ex (\<lambda>i. take (length sub) (drop i s) = sub) [0..<Suc (length s - length sub)]"

definition has_text :: "string \<Rightarrow> string \<Rightarrow> bool" where
  "has_text s sub \<longleftrightarrow> length s \<ge> length sub \<and> (s = sub \<or>
     (length s > length sub \<and>
       (take (length sub) s = sub \<or> drop (length s - length sub) s = sub \<or> substring_loop s sub)))"

lemma sublist_at: "take (length sub) (drop i s) = sub \<Longrightarrow> sublist sub s"
  by (metis append_take_drop_id sublist_appendI)

lemma has_text_iff: "has_text s sub \<longleftrightarrow> sublist sub s"
proof
  assume found: "has_text s sub"
  show "sublist sub s"
  proof (cases "s = sub")
    case False
    with found consider "take (length sub) s = sub" | "drop (length s - length sub) s = sub" | "substring_loop s sub"
      unfolding has_text_def by blast
    then show ?thesis
    proof cases
      case 1
      then show ?thesis using sublist_at [of sub 0 s] by simp
    next
      case 2
      then show ?thesis using sublist_drop [of "length s - length sub" s] by simp
    next
      case 3
      then have "\<exists>i. take (length sub) (drop i s) = sub" unfolding substring_loop_def list_ex_iff by blast
      then show ?thesis using sublist_at by blast
    qed
  qed simp
next
  assume "sublist sub s"
  then obtain ps ss where s: "s = ps @ sub @ ss" by (auto simp: sublist_def)
  then have "take (length sub) (drop (length ps) s) = sub" "length ps \<in> set [0..<Suc (length s - length sub)]" by auto
  then have "\<exists>i \<in> set [0..<Suc (length s - length sub)]. take (length sub) (drop i s) = sub" by blast
  then have "substring_loop s sub" using s unfolding substring_loop_def list_ex_iff by simp
  with s show "has_text s sub" by (cases "s = sub") (auto simp: has_text_def)
qed

section \<open>The wrapped payment service\<close>

record payment_request =
  rq_payment_id :: string
  rq_user_id :: string
  rq_amount :: float64
  rq_currency :: string
  rq_payment_method :: string

definition metered_process_payment ::
  "(payment_request \<Rightarrow> 's \<Rightarrow> go_error option \<times> 's) \<Rightarrow> duration \<Rightarrow> payment_request \<Rightarrow> 's \<Rightarrow>
     go_error option \<times> 's \<times> metric_call list" where
  "metered_process_payment service d rq s =
     (case service rq s of (err, s1) \<Rightarrow>
        let status = (if err \<noteq> None then ''failed'' else ''success'')
        in (err, s1, (if err \<noteq> None then [increment_error_counter ''payment'' ''processing_error''] else []) @
             [increment_payment_counter status (rq_currency rq) (rq_payment_method rq),
              record_payment_latency d status (rq_currency rq)]))"

section \<open>The wrapped wallet service\<close>

text \<open>A balance that comes with an error counts as a number all the same.\<close>

record 's wallet_service =
  ws_check :: "string \<Rightarrow> string \<Rightarrow> 's \<Rightarrow> (float64 \<times> go_error option) \<times> 's"
  ws_deduct :: "string \<Rightarrow> string \<Rightarrow> float64 \<Rightarrow> string \<Rightarrow> 's \<Rightarrow> go_error option \<times> 's"
  ws_refund :: "string \<Rightarrow> string \<Rightarrow> float64 \<Rightarrow> string \<Rightarrow> 's \<Rightarrow> go_error option \<times> 's"

definition metered_deduct ::
  "'s wallet_service \<Rightarrow> string \<Rightarrow> string \<Rightarrow> float64 \<Rightarrow> string \<Rightarrow> 's \<Rightarrow> go_error option \<times> 's \<times> metric_call list" where
  "metered_deduct W user currency amount reason s =
     (case ws_check W user currency s of ((previous, _), s1) \<Rightarrow>
      case ws_deduct W user currency amount reason s1 of (err, s2) \<Rightarrow>
        (err, s2,
         case err of
           Some x \<Rightarrow> increment_error_counter ''wallet'' ''deduction_error'' #
             (if has_text x ''insufficient'' then [increment_error_counter ''wallet'' ''insufficient_funds''] else []) @
             (if has_text x ''version conflict'' then [increment_conflict_counter ''optimistic''] else [])
         | None \<Rightarrow> [increment_wallet_operation_counter ''deduct'' currency, record_balance user currency (fsub previous amount)]))"

definition metered_check ::
  "'s wallet_service \<Rightarrow> string \<Rightarrow> string \<Rightarrow> 's \<Rightarrow> (float64 \<times> go_error option) \<times> 's \<times> metric_call list" where
  "metered_check W user currency s =
     (case ws_check W user currency s of ((b, err), s1) \<Rightarrow>
        ((b, err), s1, if err \<noteq> None then [increment_error_counter ''wallet'' ''balance_check_error'']
                       else [record_balance user currency b]))"

definition metered_refund ::
  "'s wallet_service \<Rightarrow> string \<Rightarrow> string \<Rightarrow> float64 \<Rightarrow> string \<Rightarrow> 's \<Rightarrow> go_error option \<times> 's \<times> metric_call list" where
  "metered_refund W user currency amount reason s =
     (case ws_check W user currency s of ((previous, _), s1) \<Rightarrow>
      case ws_refund W user currency amount reason s1 of (err, s2) \<Rightarrow>
        (err, s2, if err \<noteq> None then [increment_error_counter ''wallet'' ''refund_error'']
          else [increment_wallet_operation_counter ''refund'' currency, record_balance user currency (fadd previous amount)]))"

section \<open>The wrapped event store\<close>

text \<open>The events of this package carry their data as a map; \<open>put\<close>, \<open>query\<close> are the store's methods.\<close>

record obs_event =
  se_id :: string
  se_event_type :: string
  se_aggregate_type :: string
  se_aggregate_id :: string
  se_data :: json
  se_created_at :: time

definition metered_append_event ::
  "(obs_event \<Rightarrow> 's \<Rightarrow> go_error option \<times> 's) \<Rightarrow> duration \<Rightarrow> obs_event \<Rightarrow> 's \<Rightarrow> go_error option \<times> 's \<times> metric_call list" where
  "metered_append_event put d e s =
     (case put e s of (err, s1) \<Rightarrow>
        (err, s1, if err \<noteq> None then [increment_error_counter ''eventstore'' ''append_error'']
          else [increment_event_counter (se_event_type e) (se_aggregate_type e), record_event_latency d (se_event_type e)]))"

definition metered_get_events ::
  "(string list \<Rightarrow> 's \<Rightarrow> obs_event list go_result) \<Rightarrow> duration \<Rightarrow> string list \<Rightarrow> 's \<Rightarrow>
     obs_event list go_result \<times> metric_call list" where
  "metered_get_events query d types s =
     (case query types s of
        Inl x \<Rightarrow> (Inl x, [increment_error_counter ''eventstore'' ''query_error''])
      | Inr es \<Rightarrow> (Inr es, map (\<lambda>e. increment_event_counter (se_event_type e) (se_aggregate_type e)) es @
          [record_event_latency d ''query'']))"

section \<open>The middleware\<close>

text \<open>What a handler passes to \<open>WriteHeader\<close>, in its order; the wrapper keeps the last.\<close>

definition response_status :: "int list \<Rightarrow> int" where
  "response_status codes = fold (\<lambda>code _. code) codes 200"

definition metrics_middleware :: "string \<Rightarrow> string \<Rightarrow> int list \<Rightarrow> duration \<Rightarrow> metric_call list" where
  "metrics_middleware method path codes d =
     [record_http_duration method path (response_status codes) d, increment_http_counter method path (response_status codes)]"

section \<open>Contexts\<close>

text \<open>
  The keys of a context are compared with their types: a constant of type \<open>contextKey\<close> and a plain
  string are different keys.  \<open>ctx.Value\<close> finds the last value put under a key.
\<close>

datatype context_key = Typed_Key string | Plain_Key string

datatype ctx_value = Str_Value string | Other_Value

type_synonym go_context = "(context_key \<times> ctx_value) list"

definition with_value :: "go_context \<Rightarrow> context_key \<Rightarrow> ctx_value \<Rightarrow> go_context" where
  "with_value ctx k v = (k, v) # ctx"

definition context_value :: "go_context \<Rightarrow> context_key \<Rightarrow> ctx_value option" where
  "context_value ctx k = map_of ctx k"

definition typed_string :: "go_context \<Rightarrow> string \<Rightarrow> string" where
  "typed_string ctx k = (case context_value ctx (Typed_Key k) of Some (Str_Value x) \<Rightarrow> x | _ \<Rightarrow> '''')"

definition with_trace_id :: "go_context \<Rightarrow> string \<Rightarrow> go_context" where
  "with_trace_id ctx x = with_value ctx (Typed_Key ''trace_id'') (Str_Value x)"

definition get_trace_id :: "go_context \<Rightarrow> string" where
  "get_trace_id ctx = typed_string ctx ''trace_id''"

definition with_payment_id :: "go_context \<Rightarrow> string \<Rightarrow> go_context" where
  "with_payment_id ctx x = with_value ctx (Typed_Key ''payment_id'') (Str_Value x)"

definition get_payment_id :: "go_context \<Rightarrow> string" where
  "get_payment_id ctx = typed_string ctx ''payment_id''"

definition with_user_id :: "go_context \<Rightarrow> string \<Rightarrow> go_context" where
  "with_user_id ctx x = with_value ctx (Typed_Key ''user_id'') (Str_Value x)"

definition get_user_id :: "go_context \<Rightarrow> string" where
  "get_user_id ctx = typed_string ctx ''user_id''"

definition context_with_tracing :: "go_context \<Rightarrow> string \<Rightarrow> string \<Rightarrow> string \<Rightarrow> go_context" where
  "context_with_tracing ctx trace correlation user =
     (let ctx1 = with_value ctx (Plain_Key ''trace_id'') (Str_Value trace);
          ctx2 = with_value ctx1 (Plain_Key ''correlation_id'') (Str_Value correlation)
      in if user \<noteq> '''' then with_value ctx2 (Plain_Key ''user_id'') (Str_Value user) else ctx2)"

text \<open>The fields of a log line; a value that is not a string makes the type assertion panic.\<close>

definition context_field :: "go_context \<Rightarrow> string \<Rightarrow> (string \<times> string) list \<Rightarrow> (string \<times> string) list go_run" where
  "context_field ctx k fs =
     (case context_value ctx (Plain_Key k) of
        None \<Rightarrow> Returned fs
      | Some (Str_Value x) \<Rightarrow> Returned (fs @ [(k, x)])
      | Some Other_Value \<Rightarrow> Panicked)"

definition extract_fields_from_context :: "go_context \<Rightarrow> (string \<times> string) list go_run" where
  "extract_fields_from_context ctx =
     run_bind (context_field ctx ''trace_id'' []) (\<lambda>fs.
     run_bind (context_field ctx ''correlation_id'' fs) (\<lambda>fs.
     run_bind (context_field ctx ''user_id'' fs) (\<lambda>fs. context_field ctx ''request_id'' fs)))"

section \<open>Calls the library accepts\<close>

text \<open>\<open>WithLabelValues\<close> panics unless there is a value for every label of the vector.\<close>

definition call_kind :: "metric_call \<Rightarrow> metric_kind" where
  "call_kind call = (case call of Inc _ _ \<Rightarrow> Counter_Vec | Observe _ _ _ \<Rightarrow> Histogram_Vec | Set_Gauge _ _ _ \<Rightarrow> Gauge_Vec)"

definition accepted :: "metric_call \<Rightarrow> bool" where
  "accepted call = (case map_of prometheus_metrics (call_metric call) of None \<Rightarrow> False
     | Some (kind, labels) \<Rightarrow> kind = call_kind call \<and> length labels = length (call_labels call))"

lemmas collector_defs = increment_payment_counter_def record_payment_latency_def increment_retry_counter_def
  increment_wallet_operation_counter_def record_balance_def increment_conflict_counter_def increment_event_counter_def
  record_event_latency_def increment_dlq_counter_def record_active_connections_def increment_error_counter_def
  record_http_duration_def increment_http_counter_def

lemma collector_accepted [simp]:
  "accepted (increment_payment_counter status c pm)" "accepted (record_payment_latency d status c)"
  "accepted (increment_retry_counter service operation)" "accepted (increment_wallet_operation_counter operation c)"
  "accepted (record_balance u c b)" "accepted (increment_conflict_counter strategy)"
  "accepted (increment_event_counter ty aggregate)" "accepted (record_event_latency d ty)"
  "accepted (increment_dlq_counter reason)" "accepted (record_active_connections service n)"
  "accepted (increment_error_counter service ty)" "accepted (record_http_duration method path code d)"
  "accepted (increment_http_counter method path code)"
  by (simp_all add: accepted_def call_kind_def prometheus_metrics_def collector_defs)

text \<open>Metrics do not bring a service down.  Every call that the wrapped services and the middleware make
  to the library is for a vector the collector has registered, of that kind and with a value for each of its
  labels, whatever the wrapped service answers.\<close>

theorem metric_calls_accepted:
  "list_all accepted (snd (snd (metered_process_payment service d rq s))) \<and>
   list_all accepted (snd (snd (metered_deduct W u c amount reason w))) \<and>
   list_all accepted (snd (snd (metered_refund W u c amount reason w))) \<and>
   list_all accepted (snd (snd (metered_check W u c w))) \<and>
   list_all accepted (snd (snd (metered_append_event put d e t))) \<and>
   list_all accepted (snd (metered_get_events query d types t)) \<and>
   list_all accepted (metrics_middleware method path codes d)"
proof (intro conjI)
  show "list_all accepted (snd (snd (metered_deduct W u c amount reason w)))"
    by (auto simp: metered_deduct_def split: prod.split option.split)
qed (auto simp: metered_process_payment_def metered_refund_def metered_check_def metered_append_event_def
    metered_get_events_def metrics_middleware_def Let_def list_all_iff split: prod.split sum.split)

section \<open>What the metrics of a wallet say\<close>

definition gauge_value :: "string \<Rightarrow> string list \<Rightarrow> metric_call list \<Rightarrow> float64 option" where
  "gauge_value m ls = foldl (\<lambda>v call. case call of Set_Gauge m' ls' x \<Rightarrow> if m' = m \<and> ls' = ls then Some x else v | _ \<Rightarrow> v) None"

definition counter_value :: "string \<Rightarrow> string list \<Rightarrow> metric_call list \<Rightarrow> nat" where
  "counter_value m ls calls = length (filter (\<lambda>call. call = Inc m ls) calls)"

text \<open>Requests to a metered wallet, one after the other; the calls of each follow those before it.\<close>

datatype wallet_request =
    Check_Request string string
  | Deduct_Request string string float64 string
  | Refund_Request string string float64 string

fun serve_request :: "'s wallet_service \<Rightarrow> wallet_request \<Rightarrow> 's \<Rightarrow> go_error option \<times> 's \<times> metric_call list" where
  "serve_request W (Check_Request u c) s = (case metered_check W u c s of ((b, err), s1, calls) \<Rightarrow> (err, s1, calls))"
| "serve_request W (Deduct_Request u c a reason) s = metered_deduct W u c a reason s"
| "serve_request W (Refund_Request u c a reason) s = metered_refund W u c a reason s"

fun serve_requests :: "'s wallet_service \<Rightarrow> wallet_request list \<Rightarrow> 's \<Rightarrow> go_error option list \<times> 's \<times> metric_call list" where
  "serve_requests W [] s = ([], s, [])"
| "serve_requests W (r # rs) s =
     (case serve_request W r s of (err, s1, calls) \<Rightarrow>
      case serve_requests W rs s1 of (errs, s2, rest) \<Rightarrow> (err # errs, s2, calls @ rest))"

fun request_account :: "wallet_request \<Rightarrow> string \<times> string" where
  "request_account (Check_Request u c) = (u, c)"
| "request_account (Deduct_Request u c _ _) = (u, c)"
| "request_account (Refund_Request u c _ _) = (u, c)"

fun request_operation :: "wallet_request \<Rightarrow> string" where
  "request_operation (Check_Request _ _) = ''check''"
| "request_operation (Deduct_Request _ _ _ _) = ''deduct''"
| "request_operation (Refund_Request _ _ _ _) = ''refund''"

text \<open>The successful requests among those of an account, or of an operation in a currency.\<close>

definition succeeded :: "(wallet_request \<Rightarrow> bool) \<Rightarrow> wallet_request list \<Rightarrow> go_error option list \<Rightarrow> nat" where
  "succeeded P rs errs = length (filter (\<lambda>(r, err). P r \<and> err = None) (zip rs errs))"

text \<open>
  The contract of a wallet that nobody else uses: \<open>bal\<close> is its balances; a look changes none, a
  deduction and a refund that succeed change the one balance by the amount, one that fails none.
\<close>

locale sequential_wallet =
  fixes W :: "'s wallet_service"
    and bal :: "'s \<Rightarrow> string \<Rightarrow> string \<Rightarrow> float64"
  assumes check: "\<exists>s'. ws_check W u c s = ((bal s u c, None), s') \<and> bal s' = bal s"
    and deduct_ok: "ws_deduct W u c a reason s = (None, s') \<Longrightarrow> bal s' = (bal s)(u := (bal s u)(c := fsub (bal s u c) a))"
    and deduct_error: "ws_deduct W u c a reason s = (Some x, s') \<Longrightarrow> bal s' = bal s"
    and refund_ok: "ws_refund W u c a reason s = (None, s') \<Longrightarrow> bal s' = (bal s)(u := (bal s u)(c := fadd (bal s u c) a))"
    and refund_error: "ws_refund W u c a reason s = (Some x, s') \<Longrightarrow> bal s' = bal s"
begin

text \<open>One request sets the gauge of its account to the balance, or changes nothing.\<close>

lemma serve_request_effect:
  assumes "serve_request W r s = (err, s', calls)"
  shows "case request_account r of (u, c) \<Rightarrow>
    (if err = None
     then calls = (if request_operation r = ''check'' then [] else [increment_wallet_operation_counter (request_operation r) c]) @
         [record_balance u c (bal s' u c)] \<and>
       (\<forall>v d. (v, d) \<noteq> (u, c) \<longrightarrow> bal s' v d = bal s v d)
     else bal s' = bal s \<and> list_all (\<lambda>call. \<exists>m ls. call = Inc m ls \<and> m \<noteq> ''wallet_operations_total'') calls)"
proof (cases r)
  case (Check_Request u c)
  obtain s1 where "ws_check W u c s = ((bal s u c, None), s1)" "bal s1 = bal s" using check by blast
  with assms Check_Request show ?thesis by (auto simp: metered_check_def)
next
  case (Deduct_Request u c a reason)
  obtain s1 where s1: "ws_check W u c s = ((bal s u c, None), s1)" "bal s1 = bal s" using check by blast
  obtain r2 s2 where s2: "ws_deduct W u c a reason s1 = (r2, s2)" by fastforce
  with s1 Deduct_Request assms deduct_ok [of u c a reason s1 s2] deduct_error [of u c a reason s1 _ s2] show ?thesis
    by (cases r2) (auto simp: metered_deduct_def collector_defs)
next
  case (Refund_Request u c a reason)
  obtain s1 where s1: "ws_check W u c s = ((bal s u c, None), s1)" "bal s1 = bal s" using check by blast
  obtain r2 s2 where s2: "ws_refund W u c a reason s1 = (r2, s2)" by fastforce
  with s1 Refund_Request assms refund_ok [of u c a reason s1 s2] refund_error [of u c a reason s1 _ s2] show ?thesis
    by (cases r2) (auto simp: metered_refund_def collector_defs)
qed

end

lemma gauge_value_append:
  "gauge_value m ls (xs @ ys) = (case gauge_value m ls ys of None \<Rightarrow> gauge_value m ls xs | Some v \<Rightarrow> Some v)"
  by (induction ys rule: rev_induct) (auto simp: gauge_value_def split: metric_call.split option.split)

lemma gauge_value_simps [simp]:
  "gauge_value m ls [] = None"
  "gauge_value m ls [Set_Gauge m' ls' x] = (if m' = m \<and> ls' = ls then Some x else None)"
  "gauge_value m ls [Inc m' ls'] = None" "gauge_value m ls [Observe m' ls' d] = None"
  by (simp_all add: gauge_value_def)

lemma gauge_value_counters: "list_all (\<lambda>call. \<exists>m ls. call = Inc m ls \<and> P m) calls \<Longrightarrow> gauge_value g ls calls = None"
proof (induction calls)
  case (Cons call calls)
  then have "gauge_value g ls ([call] @ calls) = None"
    unfolding gauge_value_append by (auto split: option.split)
  then show ?case by simp
qed simp

lemma counter_value_append [simp]: "counter_value m ls (xs @ ys) = counter_value m ls xs + counter_value m ls ys"
  by (simp add: counter_value_def)

lemma counter_value_other: "list_all (\<lambda>call. \<exists>m ls. call = Inc m ls \<and> m \<noteq> n) calls \<Longrightarrow> counter_value n ls calls = 0"
  by (auto simp: counter_value_def list_all_iff filter_empty_conv)

text \<open>How often an account was served, and an operation in a currency.\<close>

definition served :: "string \<Rightarrow> string \<Rightarrow> wallet_request list \<Rightarrow> go_error option list \<Rightarrow> nat" where
  "served u c = succeeded (\<lambda>r. request_account r = (u, c))"

definition performed :: "string \<Rightarrow> string \<Rightarrow> wallet_request list \<Rightarrow> go_error option list \<Rightarrow> nat" where
  "performed operation c = succeeded (\<lambda>r. request_operation r = operation \<and> snd (request_account r) = c)"

lemma succeeded_Cons: "succeeded P (r # rs) (err # errs) = (if P r \<and> err = None then 1 else 0) + succeeded P rs errs"
  by (simp add: succeeded_def)

context sequential_wallet
begin

text \<open>Requests leave a balance that no successful one was for, and the gauge of any other shows it.\<close>

lemma serve_requests_gauges:
  "serve_requests W rs s = (errs, s', calls) \<Longrightarrow>
     gauge_value ''wallet_balance'' [u, c] calls = (if served u c rs errs = 0 then None else Some (bal s' u c)) \<and>
     (served u c rs errs = 0 \<longrightarrow> bal s' u c = bal s u c)"
proof (induction rs arbitrary: s s' errs calls)
  case (Cons r rs)
  obtain err s1 now_calls where first: "serve_request W r s = (err, s1, now_calls)" by (metis prod_cases3)
  obtain errs1 s2 rest where others: "serve_requests W rs s1 = (errs1, s2, rest)" by (metis prod_cases3)
  obtain v d where acc: "request_account r = (v, d)" by fastforce
  have eq: "errs = err # errs1" "s' = s2" "calls = now_calls @ rest"
    using Cons.prems first others by simp_all
  note IH = Cons.IH [OF others]
  note effect = serve_request_effect [OF first, unfolded acc prod.case]
  show ?case
  proof (cases err)
    case None
    with effect have now: "gauge_value ''wallet_balance'' [u, c] now_calls = (if (v, d) = (u, c) then Some (bal s1 v d) else None)"
      and frame: "(u, c) \<noteq> (v, d) \<longrightarrow> bal s1 u c = bal s u c"
      by (auto simp: gauge_value_append collector_defs)
    show ?thesis
      using IH now frame acc None
      by (cases "(v, d) = (u, c)") (auto simp: eq gauge_value_append served_def succeeded_Cons)
  next
    case (Some x)
    with effect have "gauge_value ''wallet_balance'' [u, c] now_calls = None" "bal s1 = bal s"
      using gauge_value_counters [where P = "\<lambda>m. m \<noteq> ''wallet_operations_total''"] by simp_all
    with IH Some show ?thesis
      by (auto simp: eq gauge_value_append served_def succeeded_Cons split: option.split)
  qed
qed (simp add: served_def succeeded_def)

lemma serve_requests_counters:
  "serve_requests W rs s = (errs, s', calls) \<Longrightarrow> operation \<noteq> ''check'' \<Longrightarrow>
     counter_value ''wallet_operations_total'' [operation, c] calls = performed operation c rs errs"
proof (induction rs arbitrary: s s' errs calls)
  case (Cons r rs)
  obtain err s1 now_calls where first: "serve_request W r s = (err, s1, now_calls)" by (metis prod_cases3)
  obtain errs1 s2 rest where others: "serve_requests W rs s1 = (errs1, s2, rest)" by (metis prod_cases3)
  obtain v d where acc: "request_account r = (v, d)" by fastforce
  have eq: "errs = err # errs1" "calls = now_calls @ rest"
    using Cons.prems(1) first others by simp_all
  note IH = Cons.IH [OF others Cons.prems(2)]
  note effect = serve_request_effect [OF first, unfolded acc prod.case]
  have "counter_value ''wallet_operations_total'' [operation, c] now_calls =
      (if request_operation r = operation \<and> d = c \<and> err = None then 1 else 0)"
  proof (cases err)
    case None
    with effect Cons.prems(2) show ?thesis by (auto simp: counter_value_def collector_defs)
  next
    case (Some x)
    with effect show ?thesis by (simp add: counter_value_other)
  qed
  with IH acc show ?case by (simp add: eq performed_def succeeded_Cons)
qed (simp add: performed_def succeeded_def counter_value_def)

end

section \<open>The concurrent wallet service, metered\<close>

definition concurrent_wallet :: "string \<Rightarrow> wallet_env \<Rightarrow> balances wallet_service" where
  "concurrent_wallet strategy env =
     \<lparr>ws_check = (\<lambda>u c bs. case check_balance strategy env u c bs of
        (Inl x, bs1) \<Rightarrow> ((f0, Some x), bs1) | (Inr b, bs1) \<Rightarrow> ((b, None), bs1)),
      ws_deduct = (\<lambda>u c amount _ bs. deduct_funds strategy env u c amount bs),
      ws_refund = (\<lambda>u c amount _ bs. refund_funds strategy env u c amount bs)\<rparr>"

definition balance_of :: "balances \<Rightarrow> string \<Rightarrow> string \<Rightarrow> float64" where
  "balance_of bs u c = (case lookup_balance bs u c of None \<Rightarrow> f0 | Some wb \<Rightarrow> wb_balance wb)"

lemma balance_of_put [simp]:
  "balance_of (put_balance u c wb bs) = (balance_of bs)(u := (balance_of bs u)(c := wb_balance wb))"
  by (auto simp: fun_eq_iff balance_of_def lookup_balance_def put_balance_def split: option.split)

lemma balance_of_touch:
  assumes "get_or_create_balance now u c bs = (wb, bs')"
  shows "wb_balance wb = balance_of bs u c" "balance_of bs' = balance_of bs"
proof -
  show "wb_balance wb = balance_of bs u c"
    using assms by (auto simp: get_or_create_balance_def balance_of_def Let_def split: option.splits)
  show "balance_of bs' = balance_of bs"
  proof (cases "lookup_balance bs u c")
    case None
    then have "balance_of bs u c = f0" by (simp add: balance_of_def)
    moreover have "bs' = put_balance u c wb bs" "wb_balance wb = f0"
      using None assms by (simp_all add: get_or_create_balance_def Let_def) auto
    ultimately show ?thesis by (simp add: fun_upd_idem)
  next
    case (Some w)
    with assms show ?thesis by (simp add: get_or_create_balance_def)
  qed
qed

text \<open>The environment of a service that nobody else uses, whose locks are granted.\<close>

definition alone :: "wallet_env \<Rightarrow> wallet_env" where
  "alone env = env\<lparr>we_lock := None, we_others := (\<lambda>_ bs. bs)\<rparr>"

lemma sequential_concurrent:
  assumes "strategy \<in> {''pessimistic'', ''optimistic'', ''partition_based''}"
  shows "sequential_wallet (concurrent_wallet strategy (alone env)) balance_of"
proof -
  note agree = strategies_agree [OF assms, of "alone env"]
  have env: "we_lock (alone env) = None" "we_others (alone env) = (\<lambda>_ bs. bs)" by (simp_all add: alone_def)
  have deduct: "deduct_funds strategy (alone env) u c a bs =
      (case get_or_create_balance (we_now (alone env) 0) u c bs of (wb, bs) \<Rightarrow>
         if flt (wb_balance wb) a then (Some (insufficient_error (wb_balance wb) a), bs)
         else (None, put_balance u c (debit (we_now (alone env) 0) a wb) bs))"
    and refund: "refund_funds strategy (alone env) u c a bs =
      (case get_or_create_balance (we_now (alone env) 0) u c bs of (wb, bs) \<Rightarrow>
         (None, put_balance u c (credit (we_now (alone env) 0) a wb) bs))"
    and look: "check_balance strategy (alone env) u c bs =
      (case get_balance (we_now (alone env) 0) u c bs of (b, bs) \<Rightarrow> (Inr b, bs))" for u c a bs
    using agree [OF env] by blast+
  show ?thesis
  proof
    fix u c a reason and s s' :: balances and x
    obtain wb s1 where touch: "get_or_create_balance (we_now (alone env) 0) u c s = (wb, s1)" by fastforce
    note bal = balance_of_touch [OF touch]
    show "\<exists>s'. ws_check (concurrent_wallet strategy (alone env)) u c s = ((balance_of s u c, None), s') \<and> balance_of s' = balance_of s"
      using touch bal by (simp add: concurrent_wallet_def look get_balance_def read_balance_def)
    show "balance_of s' = (balance_of s)(u := (balance_of s u)(c := fsub (balance_of s u c) a))"
      if "ws_deduct (concurrent_wallet strategy (alone env)) u c a reason s = (None, s')"
      using that touch bal by (auto simp: concurrent_wallet_def deduct debit_def split: if_splits)
    show "balance_of s' = balance_of s" if "ws_deduct (concurrent_wallet strategy (alone env)) u c a reason s = (Some x, s')"
      using that touch bal by (auto simp: concurrent_wallet_def deduct split: if_splits)
    show "balance_of s' = (balance_of s)(u := (balance_of s u)(c := fadd (balance_of s u c) a))"
      if "ws_refund (concurrent_wallet strategy (alone env)) u c a reason s = (None, s')"
      using that touch bal by (auto simp: concurrent_wallet_def refund credit_def)
    show "balance_of s' = balance_of s" if "ws_refund (concurrent_wallet strategy (alone env)) u c a reason s = (Some x, s')"
      using that touch by (simp add: concurrent_wallet_def refund)
  qed
qed

interpretation pessimistic_wallet: sequential_wallet "concurrent_wallet ''pessimistic'' (alone env)" balance_of for env
  by (rule sequential_concurrent) simp

interpretation optimistic_wallet: sequential_wallet "concurrent_wallet ''optimistic'' (alone env)" balance_of for env
  by (rule sequential_concurrent) simp

interpretation partitioned_wallet: sequential_wallet "concurrent_wallet ''partition_based'' (alone env)" balance_of for env
  by (rule sequential_concurrent) simp

text \<open>C25: the metrics of a wallet tell the truth while one caller at a time uses it.  After any requests to the
  metered service, under any of the three strategies, the gauge of an account that was served shows its balance,
  and the counters of deductions and refunds in a currency show how many succeeded.\<close>

theorem wallet_metrics_exact:
  assumes "strategy \<in> {''pessimistic'', ''optimistic'', ''partition_based''}"
    and "serve_requests (concurrent_wallet strategy (alone env)) rs bs = (errs, bs', calls)"
  shows "gauge_value ''wallet_balance'' [u, c] calls = (if served u c rs errs = 0 then None else Some (balance_of bs' u c)) \<and>
    counter_value ''wallet_operations_total'' [''deduct'', c] calls = performed ''deduct'' c rs errs \<and>
    counter_value ''wallet_operations_total'' [''refund'', c] calls = performed ''refund'' c rs errs"
proof -
  from assms(1) consider "strategy = ''pessimistic''" | "strategy = ''optimistic''" | "strategy = ''partition_based''" by blast
  then show ?thesis
    using assms(2) pessimistic_wallet.serve_requests_gauges pessimistic_wallet.serve_requests_counters
      optimistic_wallet.serve_requests_gauges optimistic_wallet.serve_requests_counters
      partitioned_wallet.serve_requests_gauges partitioned_wallet.serve_requests_counters
    by cases simp_all
qed

lemma wallet_metrics_exact_witness:
  "\<exists>errs bs' calls. serve_requests (concurrent_wallet ''optimistic''
      (alone \<lparr>we_lock = None, we_now = (\<lambda>_. 0), we_others = (\<lambda>_ bs. bs), we_waits = (\<lambda>_ bs. bs)\<rparr>))
      [Refund_Request ''u'' ''USD'' (FFin 5) ''r''] new_balances = (errs, bs', calls) \<and>
    counter_value ''wallet_operations_total'' [''refund'', ''USD''] calls = performed ''refund'' ''USD'' [Refund_Request ''u'' ''USD'' (FFin 5) ''r''] errs"
proof -
  let ?W = "concurrent_wallet ''optimistic'' (alone \<lparr>we_lock = None, we_now = (\<lambda>_. 0), we_others = (\<lambda>_ bs. bs), we_waits = (\<lambda>_ bs. bs)\<rparr>)"
  obtain errs bs' calls where run: "serve_requests ?W [Refund_Request ''u'' ''USD'' (FFin 5) ''r''] new_balances = (errs, bs', calls)"
    by (metis prod_cases3)
  from wallet_metrics_exact [OF _ run] run show ?thesis by auto
qed

text \<open>With another caller between the look and the deduction the gauge shows a balance that never was.\<close>

lemma gauge_race:
  assumes "ws_check W u c s = ((b, None), s1)" "ws_deduct W u c a reason (others s1) = (None, s2)"
  shows "gauge_value ''wallet_balance'' [u, c] (snd (snd (metered_deduct
    (W\<lparr>ws_deduct := \<lambda>u c a reason s. ws_deduct W u c a reason (others s)\<rparr>) u c a reason s))) = Some (fsub b a)"
  using assms by (simp add: metered_deduct_def collector_defs gauge_value_def)

text \<open>A look that fails counts as a balance of 0: the gauge then shows the amount with its sign changed.\<close>

lemma gauge_after_failed_look:
  assumes "ws_check W u c s = ((f0, Some x), s1)" "ws_deduct W u c a reason s1 = (None, s2)"
  shows "gauge_value ''wallet_balance'' [u, c] (snd (snd (metered_deduct W u c a reason s))) = Some (fsub f0 a)"
  using assms by (simp add: metered_deduct_def collector_defs gauge_value_def)

text \<open>Reading events counts them again.\<close>

lemma reading_counts_events:
  assumes "query types s = Inr es"
  shows "counter_value ''eventstore_events_total'' [ty, aggregate] (snd (metered_get_events query d types s)) =
    length (filter (\<lambda>e. se_event_type e = ty \<and> se_aggregate_type e = aggregate) es)"
  using assms by (simp add: metered_get_events_def counter_value_def collector_defs filter_map comp_def)

section \<open>Trace ids\<close>

lemma context_value_with [simp]:
  "context_value (with_value ctx k v) k' = (if k' = k then Some v else context_value ctx k')"
  by (simp add: context_value_def with_value_def)

text \<open>The ids of the two halves of the package do not meet.  A trace, payment or user id put into a
  context with the functions of \<open>context.go\<close> is found again by them and never by the logger; one put there with
  \<open>ContextWithTracing\<close> is found by the logger and never by them.\<close>

theorem trace_ids_never_logged:
  "get_trace_id (with_trace_id ctx x) = x \<and> get_payment_id (with_payment_id ctx x) = x \<and>
   get_user_id (with_user_id ctx x) = x \<and>
   extract_fields_from_context (with_trace_id ctx x) = extract_fields_from_context ctx \<and>
   extract_fields_from_context (with_user_id ctx x) = extract_fields_from_context ctx \<and>
   get_trace_id (context_with_tracing ctx trace correlation user) = get_trace_id ctx \<and>
   get_user_id (context_with_tracing ctx trace correlation user) = get_user_id ctx \<and>
   extract_fields_from_context (context_with_tracing [] trace correlation user) =
     Returned ([(''trace_id'', trace), (''correlation_id'', correlation)] @
       (if user = '''' then [] else [(''user_id'', user)]))"
  by (simp add: get_trace_id_def get_payment_id_def get_user_id_def typed_string_def with_trace_id_def
      with_payment_id_def with_user_id_def extract_fields_from_context_def context_field_def context_with_tracing_def
      Let_def) (simp add: context_value_def)

end
