(* ===== verification/Retry.thy ===== *)
theory Retry
  imports Go_Float
begin

text \<open>
  Retries with exponential backoff: \<open>RetryConfig\<close>, \<open>ExponentialBackoffRetrier\<close> and the
  substring test of \<open>pkg/eventstore/error_handling.go\<close>.  Logging is left out.

  The retried operation works on a state \<open>'s\<close> and may depend on the number of the attempt.  What
  the environment does between two attempts is an argument: \<open>woken i\<close> is \<open>Some x\<close> if the
  context ends with error \<open>x\<close> during the wait after attempt \<open>i\<close>, and \<open>nanos i\<close> is the
  reading of the clock for the jitter.
\<close>

section \<open>Substrings\<close>

fun contains_from :: "string \<Rightarrow> string \<Rightarrow> bool" where
  "contains_from s sub = (length sub \<le> length s \<and>
     (take (length sub) s = sub \<or> (case s of [] \<Rightarrow> False | _ # s' \<Rightarrow> contains_from s' sub)))"

declare contains_from.simps [simp del]

text \<open>\<open>contains\<close>, with its shortcuts for the two ends; \<open>containsSubstring\<close> is \<open>contains_from\<close>.\<close>

definition contains_str :: "string \<Rightarrow> string \<Rightarrow> bool" where
  "contains_str s sub = (length s \<ge> length sub \<and> (s = sub \<or>
     (length s > length sub \<and>
       (take (length sub) s = sub \<or> drop (length s - length sub) s = sub \<or> contains_from s sub))))"

lemma contains_from_iff: "contains_from s sub \<longleftrightarrow> (\<exists>a b. s = a @ sub @ b)"
proof (induction s)
  case Nil
  then show ?case by (subst contains_from.simps) auto
next
  case (Cons c s)
  have "(\<exists>a b. c # s = a @ sub @ b) \<longleftrightarrow>
      take (length sub) (c # s) = sub \<and> length sub \<le> length (c # s) \<or> (\<exists>a b. s = a @ sub @ b)"
  proof
    assume "\<exists>a b. c # s = a @ sub @ b"
    then obtain a b where ab: "c # s = a @ sub @ b" by blast
    show "take (length sub) (c # s) = sub \<and> length sub \<le> length (c # s) \<or> (\<exists>a b. s = a @ sub @ b)"
      by (cases a) (use ab in auto)
  next
    assume "take (length sub) (c # s) = sub \<and> length sub \<le> length (c # s) \<or> (\<exists>a b. s = a @ sub @ b)"
    then show "\<exists>a b. c # s = a @ sub @ b"
      by (metis append_Cons append_Nil append_take_drop_id)
  qed
  with Cons.IH show ?case by (subst contains_from.simps) auto
qed

lemma contains_str_iff: "contains_str s sub \<longleftrightarrow> (\<exists>a b. s = a @ sub @ b)"
proof
  assume "contains_str s sub"
  then show "\<exists>a b. s = a @ sub @ b"
    unfolding contains_str_def contains_from_iff
    by (metis append_Nil append_Nil2 append_take_drop_id)
next
  assume "\<exists>a b. s = a @ sub @ b"
  then show "contains_str s sub"
    unfolding contains_str_def contains_from_iff by auto
qed

lemma contains_str_set: "contains_str s sub \<Longrightarrow> set sub \<subseteq> set s"
  by (auto simp: contains_str_iff)

section \<open>The retrier\<close>

record retry_config =
  rc_max_retries :: int
  rc_initial_delay :: duration
  rc_max_delay :: duration
  rc_backoff_factor :: float64
  rc_jitter :: bool
  rc_retryable_errors :: "string list"

definition millisecond :: duration where "millisecond = 1000000"

definition second :: duration where "second = 1000000000"

definition default_retry_config :: retry_config where
  "default_retry_config = \<lparr>rc_max_retries = 5, rc_initial_delay = 100 * millisecond,
     rc_max_delay = 30 * second, rc_backoff_factor = FFin 2, rc_jitter = True,
     rc_retryable_errors = [''network_error'', ''timeout'', ''service_unavailable'',
       ''rate_limit_exceeded'']\<rparr>"

definition calculate_delay :: "retry_config \<Rightarrow> nat \<Rightarrow> int \<Rightarrow> duration" where
  "calculate_delay c attempt nanos =
     (let delay = fmul (f_of_int (rc_initial_delay c)) (fpow (rc_backoff_factor c) attempt);
          delay = (if flt (f_of_int (rc_max_delay c)) delay then f_of_int (rc_max_delay c) else delay);
          delay =
            (if rc_jitter c
             then let range = fmul delay (FFin (1 / 4));
                      jitter = fsub (fdiv (fmul (fmul (FFin 2) range) (f_of_int (nanos mod 1000))) (FFin 1000)) range
                  in fadd delay jitter
             else delay)
      in f_to_int64 delay)"

definition is_retryable_error :: "retry_config \<Rightarrow> go_error \<Rightarrow> bool" where
  "is_retryable_error c err = list_ex (contains_str err) (rc_retryable_errors c)"

text \<open>
  The loop from \<open>attempt\<close> on; besides the error and the state it returns the delays it waited, in
  order.  A loop that never ran has no last error: \<open>%w\<close> then prints \<open>%!w(<nil>)\<close>.
\<close>

function retry_loop ::
  "retry_config \<Rightarrow> (nat \<Rightarrow> 's \<Rightarrow> go_error option \<times> 's) \<Rightarrow> (nat \<Rightarrow> ctx_err) \<Rightarrow> (nat \<Rightarrow> int) \<Rightarrow>
     string \<Rightarrow> nat \<Rightarrow> 's \<Rightarrow> go_error option \<times> 's \<times> duration list" where
  "retry_loop c operation woken nanos last_err attempt s =
     (if int attempt \<le> rc_max_retries c
      then (case operation attempt s of
              (None, s') \<Rightarrow> (None, s', [])
            | (Some err, s') \<Rightarrow>
                if \<not> is_retryable_error c err then (Some (''non-retryable error: '' @ err), s', [])
                else if int attempt = rc_max_retries c
                then (Some (''operation failed after '' @ show_int (rc_max_retries c + 1) @
                        '' attempts: '' @ err), s', [])
                else
                  let delay = calculate_delay c attempt (nanos attempt)
                  in (case woken attempt of
                        Some x \<Rightarrow> (Some (''context cancelled during retry: '' @ x), s', [delay])
                      | None \<Rightarrow>
                          (case retry_loop c operation woken nanos err (attempt + 1) s' of
                             (r, s'', ds) \<Rightarrow> (r, s'', delay # ds))))
      else (Some (''operation failed after '' @ show_int (rc_max_retries c + 1) @
              '' attempts: '' @ last_err), s, []))"
  by pat_completeness auto
termination
  by (relation "measure (\<lambda>(c, _, _, _, _, attempt, _). nat (rc_max_retries c + 1 - int attempt))") auto

declare retry_loop.simps [simp del]

definition execute_with_retry ::
  "retry_config \<Rightarrow> (nat \<Rightarrow> 's \<Rightarrow> go_error option \<times> 's) \<Rightarrow> (nat \<Rightarrow> ctx_err) \<Rightarrow> (nat \<Rightarrow> int) \<Rightarrow>
     's \<Rightarrow> go_error option \<times> 's \<times> duration list" where
  "execute_with_retry c operation woken nanos s =
     retry_loop c operation woken nanos ''%!w(<nil>)'' 0 s"

section \<open>Properties\<close>

text \<open>The state before attempt \<open>i\<close>, when all attempts before it have been made.\<close>

fun state_before :: "(nat \<Rightarrow> 's \<Rightarrow> go_error option \<times> 's) \<Rightarrow> nat \<Rightarrow> 's \<Rightarrow> 's" where
  "state_before operation 0 s = s"
| "state_before operation (Suc i) s = snd (operation i (state_before operation i s))"

text \<open>How the loop can end after its attempt \<open>k\<close>, with error \<open>e\<close> of that attempt.\<close>

definition retry_end ::
  "retry_config \<Rightarrow> (nat \<Rightarrow> ctx_err) \<Rightarrow> nat \<Rightarrow> go_error option \<Rightarrow> go_error option \<Rightarrow> nat \<Rightarrow> bool" where
  "retry_end c woken k result r waits = (case result of
     None \<Rightarrow> r = None \<and> waits = k
   | Some e \<Rightarrow>
       (if \<not> is_retryable_error c e then r = Some (''non-retryable error: '' @ e) \<and> waits = k
        else if int k = rc_max_retries c
        then r = Some (''operation failed after '' @ show_int (rc_max_retries c + 1) @ '' attempts: '' @ e) \<and>
             waits = k
        else (\<exists>x. woken k = Some x \<and> r = Some (''context cancelled during retry: '' @ x) \<and>
                waits = Suc k)))"

lemma retry_loop_exact:
  assumes "retry_loop c operation woken nanos last_err a (state_before operation a s) = (r, s', ds)"
    and "int a \<le> rc_max_retries c"
  shows "\<exists>k \<ge> a. int k \<le> rc_max_retries c \<and>
    (\<forall>i. a \<le> i \<longrightarrow> i < k \<longrightarrow> woken i = None \<and>
       (\<exists>e. fst (operation i (state_before operation i s)) = Some e \<and> is_retryable_error c e)) \<and>
    s' = state_before operation (Suc k) s \<and>
    ds = map (\<lambda>i. calculate_delay c i (nanos i)) [a..<a + length ds] \<and>
    retry_end c woken k (fst (operation k (state_before operation k s))) r (a + length ds)"
  using assms
proof (induction "nat (rc_max_retries c - int a)" arbitrary: a last_err r s' ds rule: less_induct)
  case less
  obtain o1 s1 where o1: "operation a (state_before operation a s) = (o1, s1)" by fastforce
  note step = less.prems(1) [unfolded retry_loop.simps [of c operation woken nanos last_err a]]
  show ?case
  proof (cases "\<exists>e. o1 = Some e \<and> is_retryable_error c e \<and> int a \<noteq> rc_max_retries c \<and> woken a = None")
    case False
    have "s' = state_before operation (Suc a) s \<and>
        ds = map (\<lambda>i. calculate_delay c i (nanos i)) [a..<a + length ds] \<and>
        retry_end c woken a o1 r (a + length ds)"
      using step less.prems(2) False o1
      by (auto simp: retry_end_def Let_def split: option.splits if_splits)
    with less.prems(2) o1 show ?thesis by (intro exI [of _ a]) auto
  next
    case True
    then obtain e where e: "o1 = Some e" "is_retryable_error c e" "int a \<noteq> rc_max_retries c" "woken a = None"
      by blast
    have s1: "s1 = state_before operation (a + 1) s" using o1 by simp
    obtain ds' where ds: "ds = calculate_delay c a (nanos a) # ds'"
      and loop: "retry_loop c operation woken nanos e (a + 1) (state_before operation (a + 1) s) = (r, s', ds')"
      using step less.prems(2) o1 e unfolding s1 [symmetric]
      by (auto simp: Let_def split: prod.splits)
    have "nat (rc_max_retries c - int (a + 1)) < nat (rc_max_retries c - int a)"
      "int (a + 1) \<le> rc_max_retries c"
      using less.prems(2) e(3) by auto
    from less.hyps [OF this(1) loop this(2)] obtain k where k: "k \<ge> a + 1" "int k \<le> rc_max_retries c"
      "\<forall>i. a + 1 \<le> i \<longrightarrow> i < k \<longrightarrow> woken i = None \<and>
         (\<exists>e. fst (operation i (state_before operation i s)) = Some e \<and> is_retryable_error c e)"
      "s' = state_before operation (Suc k) s"
      "ds' = map (\<lambda>i. calculate_delay c i (nanos i)) [a + 1..<a + 1 + length ds']"
      "retry_end c woken k (fst (operation k (state_before operation k s))) r (a + 1 + length ds')"
      by blast
    have "ds = map (\<lambda>i. calculate_delay c i (nanos i)) [a..<a + length ds]"
      unfolding ds using k(5) by (simp add: upt_conv_Cons del: upt_Suc)
    moreover have "woken i = None \<and> (\<exists>e. fst (operation i (state_before operation i s)) = Some e \<and>
        is_retryable_error c e)" if "a \<le> i" "i < k" for i
      using k(3) e o1 that by (cases "i = a") auto
    ultimately show ?thesis
      using k(1,2,4,6) ds by (intro exI [of _ k]) simp
  qed
qed

text \<open>C27: what \<open>ExecuteWithRetry\<close> does, exactly.  There is a last attempt \<open>k\<close>, within the bound; every
  attempt before it failed with a retryable error and was followed by a wait the context survived; the
  result and the number of waits follow from the last attempt: success, a final error, the bound, or
  the end of the context.  In particular it always returns, after at most \<open>MaxRetries + 1\<close> attempts.\<close>

theorem execute_with_retry_exact:
  assumes "0 \<le> rc_max_retries c" and "execute_with_retry c operation woken nanos s = (r, s', ds)"
  shows "\<exists>k. int k \<le> rc_max_retries c \<and>
    (\<forall>i < k. woken i = None \<and>
       (\<exists>e. fst (operation i (state_before operation i s)) = Some e \<and> is_retryable_error c e)) \<and>
    s' = state_before operation (Suc k) s \<and>
    ds = map (\<lambda>i. calculate_delay c i (nanos i)) [0..<length ds] \<and>
    retry_end c woken k (fst (operation k (state_before operation k s))) r (length ds)"
  using retry_loop_exact [of c operation woken nanos _ 0 s r s' ds] assms
  by (simp add: execute_with_retry_def)

lemma execute_with_retry_exact_witness:
  "\<exists>k r s' ds. int k \<le> 5 \<and>
     execute_with_retry default_retry_config (\<lambda>i n. if i < 2 then (Some ''timeout'', n + 1) else (None, n))
       (\<lambda>_. None) (\<lambda>_. 0) (0 :: nat) = (r, s', ds) \<and>
     s' = state_before (\<lambda>i n. if i < 2 then (Some ''timeout'', n + 1) else (None, n)) (Suc k) 0"
proof -
  let ?f = "\<lambda>i n. if i < 2 then (Some ''timeout'', n + 1) else (None, n :: nat)"
  obtain r s' ds where e: "execute_with_retry default_retry_config ?f (\<lambda>_. None) (\<lambda>_. 0) (0 :: nat) = (r, s', ds)"
    using prod_cases3 by blast
  have "0 \<le> rc_max_retries default_retry_config" by (simp add: default_retry_config_def)
  from execute_with_retry_exact [OF this e] e show ?thesis
    by (auto simp: default_retry_config_def)
qed

text \<open>Powers of two by the algorithm of \<open>math.Pow\<close>.\<close>

lemma fpow_two: "map (fpow (FFin 2)) [0..<12] = map (\<lambda>k. FFin (2 ^ k)) [0..<12]"
  by (simp add: upt_rec fpow_def frexp_def ilog2_small pow_loop.simps round64_small round64_one
      round64_numeral ldexp_def)

text \<open>The default backoff, without jitter: 100 ms, doubled after every attempt, never above 30 s.\<close>

theorem default_delays:
  "map (\<lambda>k. calculate_delay (default_retry_config\<lparr>rc_jitter := False\<rparr>) k 0) [0..<12] =
     map (\<lambda>d. d * millisecond) [100, 200, 400, 800, 1600, 3200, 6400, 12800, 25600, 30000, 30000, 30000]"
proof -
  let ?c = "default_retry_config\<lparr>rc_jitter := False\<rparr>"
  have pow: "fpow (FFin 2) k = FFin (2 ^ k)" if "k < 12" for k
    using arg_cong [OF fpow_two, of "\<lambda>xs. xs ! k"] that by simp
  have "calculate_delay ?c k 0 = min (100 * millisecond * 2 ^ k) (30 * second)" if "k < 12" for k
  proof -
    define p where "p = (2 :: int) ^ k"
    have p: "0 < p" "p \<le> 2 ^ 12"
      unfolding p_def using that by (simp, intro power_increasing) simp_all
    have "(2 :: rat) ^ k = of_int p" by (simp add: p_def)
    then have pow2: "fpow (FFin 2) k = FFin (of_int p)" using pow [OF that] by simp
    have "\<bar>100000000 * p\<bar> \<le> 2 ^ 53" using p by simp
    from round64_int [OF this]
    have mul: "fmul (f_of_int 100000000) (FFin (of_int p)) = FFin (of_int (100000000 * p))"
      by (simp add: f_of_int_def round64_numeral)
    have "f_of_int (30 * second) = FFin (of_int (30 * second))"
      by (simp add: f_of_int_def second_def round64_numeral)
    then have "calculate_delay ?c k 0 =
        f_to_int64 (FFin (of_int (if 30 * second < 100000000 * p then 30 * second else 100000000 * p)))"
      using mul pow2
      by (simp add: calculate_delay_def default_retry_config_def millisecond_def Let_def
          flip: of_int_less_iff [where 'a = rat])
    also have "\<dots> = min (100000000 * p) (30 * second)"
      using p by (simp add: f_to_int64_def second_def min_def del: of_int_mult)
    finally show ?thesis by (simp add: p_def millisecond_def)
  qed
  then show ?thesis by (simp add: upt_rec millisecond_def second_def)
qed

end
