(* ===== verification/Dead_Letter_Queue.thy ===== *)
theory Dead_Letter_Queue
  imports Event_Model
begin

text \<open>
  The dead letter queue of \<open>pkg/eventstore/error_handling.go\<close>: failed events kept in memory up to a
  maximum and written to a storage.  The storage is an interface without an implementation in the
  repository; it is a record of operations over a state \<open>'t\<close>.  Logging is left out.  The mutex
  makes each operation one step.
\<close>

record failed_event =
  fe_original_event :: event
  fe_failure_reason :: string
  fe_failure_count :: int
  fe_first_failed_at :: time
  fe_last_failed_at :: time
  fe_last_error :: string
  fe_processing_meta :: "(string \<times> json) list"

record dlq =
  dlq_events :: "failed_event list"
  dlq_max_size :: int

record 't dlq_storage_ops =
  ds_store :: "ctx_err \<Rightarrow> failed_event \<Rightarrow> 't \<Rightarrow> go_error option \<times> 't"
  ds_remove :: "ctx_err \<Rightarrow> string \<Rightarrow> 't \<Rightarrow> go_error option \<times> 't"

definition new_dead_letter_queue :: "int \<Rightarrow> dlq" where
  "new_dead_letter_queue max_size = \<lparr>dlq_events = [], dlq_max_size = max_size\<rparr>"

definition event_id_is :: "string \<Rightarrow> failed_event \<Rightarrow> bool" where
  "event_id_is i f = (ev_id (fe_original_event f) = i)"

text \<open>
  The range loop over the queue: the entries before the first one with the id, that entry, and the
  ones behind it.
\<close>

fun split_at_id :: "string \<Rightarrow> failed_event list \<Rightarrow> (failed_event list \<times> failed_event \<times> failed_event list) option" where
  "split_at_id i [] = None"
| "split_at_id i (f # fs) =
     (if event_id_is i f then Some ([], f, fs)
      else case split_at_id i fs of None \<Rightarrow> None | Some (pre, g, post) \<Rightarrow> Some (f # pre, g, post))"

text \<open>
  \<open>SendToDLQ\<close>: the entry is built first, and asks the error for its text, so a nil error panics.
  The times are the four readings of the clock.
\<close>

definition send_to_dlq ::
  "'t dlq_storage_ops \<Rightarrow> ctx_err \<Rightarrow> time \<times> time \<times> time \<times> time \<Rightarrow> event \<Rightarrow> string \<Rightarrow> go_error option \<Rightarrow>
     int \<Rightarrow> dlq \<Rightarrow> 't \<Rightarrow> (go_error option \<times> dlq \<times> 't) go_run" where
  "send_to_dlq DS ctx clocks e reason last_error count q t =
     (case clocks of (t1, t2, t3, t4) \<Rightarrow>
      case last_error of None \<Rightarrow> Panicked
      | Some err \<Rightarrow>
         let failed = \<lparr>fe_original_event = e, fe_failure_reason = reason, fe_failure_count = count,
               fe_first_failed_at = t1, fe_last_failed_at = t2, fe_last_error = err,
               fe_processing_meta = [(''aggregate_id'', JStr (ev_aggregate_id e)),
                 (''correlation_id'', JStr (ev_correlation_id e)), (''dlq_timestamp'', JTime t3),
                 (''event_type'', JStr (ev_type e))]\<rparr>
         in case split_at_id (ev_id e) (dlq_events q) of
              Some (pre, f, post) \<Rightarrow>
                let f' = f\<lparr>fe_failure_count := count, fe_last_failed_at := t4, fe_last_error := err\<rparr>;
                    q' = q\<lparr>dlq_events := pre @ f' # post\<rparr>
                in (case ds_store DS ctx f' t of (r, t') \<Rightarrow> Returned (r, q', t'))
            | None \<Rightarrow>
                let es = dlq_events q @ [failed];
                    q' = q\<lparr>dlq_events := (if int (length es) > dlq_max_size q then tl es else es)\<rparr>
                in (case ds_store DS ctx failed t of
                      (Some x, t') \<Rightarrow> Returned (Some (''failed to persist to DLQ storage: '' @ x), q', t')
                    | (None, t') \<Rightarrow> Returned (None, q', t')))"

definition get_failed_events :: "int \<Rightarrow> dlq \<Rightarrow> failed_event list" where
  "get_failed_events limit q =
     (let n = (if limit \<le> 0 \<or> limit > int (length (dlq_events q)) then int (length (dlq_events q)) else limit)
      in take (nat n) (dlq_events q))"

text \<open>\<open>RetryFromDLQ\<close>: the processor works on a state of its own; a failed removal is only logged.\<close>

definition retry_from_dlq ::
  "'t dlq_storage_ops \<Rightarrow> ctx_err \<Rightarrow> string \<Rightarrow> (event \<Rightarrow> 'p \<Rightarrow> go_error option \<times> 'p) \<Rightarrow> dlq \<Rightarrow> 't \<Rightarrow> 'p \<Rightarrow>
     go_error option \<times> dlq \<times> 't \<times> 'p" where
  "retry_from_dlq DS ctx i processor q t p =
     (case split_at_id i (dlq_events q) of
        None \<Rightarrow> (Some (''event not found in DLQ: '' @ i), q, t, p)
      | Some (pre, f, post) \<Rightarrow>
         (case processor (fe_original_event f) p of
            (Some x, p') \<Rightarrow> (Some (''failed to retry event: '' @ x), q, t, p')
          | (None, p') \<Rightarrow> (None, q\<lparr>dlq_events := pre @ post\<rparr>, snd (ds_remove DS ctx i t), p')))"

section \<open>Facts\<close>

lemma split_at_id_None: "split_at_id i fs = None \<longleftrightarrow> (\<forall>f \<in> set fs. \<not> event_id_is i f)"
  by (induction fs) (auto split: option.split)

lemma split_at_id_Some:
  "split_at_id i fs = Some (pre, f, post) \<Longrightarrow>
     fs = pre @ f # post \<and> event_id_is i f \<and> (\<forall>g \<in> set pre. \<not> event_id_is i g)"
  by (induction fs arbitrary: pre) (auto split: if_splits option.splits)

text \<open>No event is queued twice, and the queue stays within its size.\<close>

definition dlq_inv :: "dlq \<Rightarrow> bool" where
  "dlq_inv q = (distinct (map (\<lambda>f. ev_id (fe_original_event f)) (dlq_events q)) \<and>
     int (length (dlq_events q)) \<le> max 0 (dlq_max_size q))"

lemma dlq_inv_new: "dlq_inv (new_dead_letter_queue n)"
  by (simp add: dlq_inv_def new_dead_letter_queue_def)

lemma send_returns:
  "last_error = Some err \<Longrightarrow> \<exists>r q' t'. send_to_dlq DS ctx clocks e reason last_error count q t = Returned (r, q', t')"
  by (auto simp: send_to_dlq_def Let_def split: prod.split option.split)

text \<open>The queue after a send, whatever the storage says.\<close>

lemma send_queue:
  assumes "send_to_dlq DS ctx (t1, t2, t3, t4) e reason (Some err) count q t = Returned (r, q', t')"
  shows "dlq_max_size q' = dlq_max_size q \<and>
    (case split_at_id (ev_id e) (dlq_events q) of
       Some (pre, f, post) \<Rightarrow> dlq_events q' = pre @ f\<lparr>fe_failure_count := count,
         fe_last_failed_at := t4, fe_last_error := err\<rparr> # post
     | None \<Rightarrow> (\<exists>f. event_id_is (ev_id e) f \<and> fe_original_event f = e \<and> fe_last_error f = err \<and>
         dlq_events q' = (if int (length (dlq_events q)) + 1 > dlq_max_size q
           then tl (dlq_events q @ [f]) else dlq_events q @ [f])))"
proof (cases "split_at_id (ev_id e) (dlq_events q)")
  case (Some pfp)
  with assms show ?thesis by (cases pfp) (auto simp: send_to_dlq_def Let_def split: prod.splits)
next
  case None
  define f where "f = \<lparr>fe_original_event = e, fe_failure_reason = reason, fe_failure_count = count,
    fe_first_failed_at = t1, fe_last_failed_at = t2, fe_last_error = err,
    fe_processing_meta = [(''aggregate_id'', JStr (ev_aggregate_id e)),
      (''correlation_id'', JStr (ev_correlation_id e)), (''dlq_timestamp'', JTime t3),
      (''event_type'', JStr (ev_type e))]\<rparr>"
  have f: "event_id_is (ev_id e) f" "fe_original_event f = e" "fe_last_error f = err"
    by (simp_all add: f_def event_id_is_def)
  obtain sr st where "ds_store DS ctx f t = (sr, st)" by fastforce
  with assms None have "q' = q\<lparr>dlq_events := (if int (length (dlq_events q @ [f])) > dlq_max_size q
      then tl (dlq_events q @ [f]) else dlq_events q @ [f])\<rparr>"
    unfolding f_def by (cases sr) (auto simp: send_to_dlq_def Let_def)
  with f None show ?thesis by (auto simp: add.commute)
qed

section \<open>Properties\<close>

text \<open>C29: sending keeps the queue free of duplicates and within its size; a second failure of an
  event updates its entry in place; a new event is queued last, at the price of the oldest entry when
  the queue is full.\<close>

theorem send_to_dlq_invariant:
  assumes inv: "dlq_inv q" and "send_to_dlq DS ctx clocks e reason (Some err) count q t = Returned (r, q', t')"
  shows "dlq_inv q' \<and> (dlq_max_size q > 0 \<longrightarrow> (\<exists>f \<in> set (dlq_events q'). ev_id (fe_original_event f) = ev_id e \<and>
    fe_last_error f = err))"
proof -
  obtain t1 t2 t3 t4 where "clocks = (t1, t2, t3, t4)" by (cases clocks)
  note queue = send_queue [OF assms(2) [unfolded this]]
  show ?thesis
  proof (cases "split_at_id (ev_id e) (dlq_events q)")
    case (Some pfp)
    obtain pre f post where pfp: "pfp = (pre, f, post)" by (cases pfp)
    from split_at_id_Some [OF Some [unfolded pfp]] have "dlq_events q = pre @ f # post" "ev_id (fe_original_event f) = ev_id e"
      by (simp_all add: event_id_is_def)
    with inv queue Some pfp show ?thesis by (auto simp: dlq_inv_def)
  next
    case None
    then have new: "ev_id e \<notin> (\<lambda>f. ev_id (fe_original_event f)) ` set (dlq_events q)"
      by (auto simp: split_at_id_None event_id_is_def)
    from queue None obtain f where f: "ev_id (fe_original_event f) = ev_id e" "fe_last_error f = err"
      and q': "dlq_max_size q' = dlq_max_size q" "dlq_events q' = (if int (length (dlq_events q)) + 1 > dlq_max_size q
           then tl (dlq_events q @ [f]) else dlq_events q @ [f])"
      by (auto simp: event_id_is_def)
    have "distinct (map (\<lambda>f. ev_id (fe_original_event f)) (dlq_events q @ [f]))"
      using inv new f(1) by (simp add: dlq_inv_def)
    then have "distinct (map (\<lambda>f. ev_id (fe_original_event f)) (dlq_events q'))"
      unfolding q'(2) by (cases "int (length (dlq_events q)) + 1 > dlq_max_size q")
        (simp_all only: if_True if_False simp_thms map_tl distinct_tl)
    moreover have "int (length (dlq_events q')) \<le> max 0 (dlq_max_size q')"
      using inv q' by (auto simp: dlq_inv_def)
    moreover have "f \<in> set (dlq_events q')" if "dlq_max_size q > 0"
    proof (cases "dlq_events q")
      case Nil
      with that q'(2) show ?thesis by simp
    next
      case (Cons g gs)
      with q'(2) show ?thesis by simp
    qed
    ultimately show ?thesis using f by (auto simp: dlq_inv_def)
  qed
qed

lemma send_to_dlq_invariant_witness:
  "\<exists>r q' t'. send_to_dlq \<lparr>ds_store = (\<lambda>_ _ t. (None, t)), ds_remove = (\<lambda>_ _ t. (None, t))\<rparr> None (1, 2, 3, 4)
     (example_event ''w'' 1) ''r'' (Some ''x'') 1 (new_dead_letter_queue 5) () = Returned (r, q', t') \<and> dlq_inv q'"
proof -
  let ?DS = "\<lparr>ds_store = (\<lambda>_ _ t. (None, t)), ds_remove = (\<lambda>_ _ t. (None, t))\<rparr>"
  obtain r q' t' where s: "send_to_dlq ?DS None (1, 2, 3, 4) (example_event ''w'' 1) ''r'' (Some ''x'') 1
      (new_dead_letter_queue 5) () = Returned (r, q', t')"
    using send_returns [OF refl, of ?DS None "(1, 2, 3, 4)" "example_event ''w'' 1" "''r''" "''x''" 1
        "new_dead_letter_queue 5" "()"] by (elim exE) (rule that)
  have "dlq_inv q'" using send_to_dlq_invariant [OF dlq_inv_new s] by (rule conjunct1)
  with s show ?thesis by blast
qed

text \<open>A retry hands the queued event to the processor and takes it out of the queue exactly when
  the processor succeeds; every other entry stays, in order.\<close>

theorem retry_from_dlq_exact:
  assumes inv: "dlq_inv q" and f: "f \<in> set (dlq_events q)" and i: "ev_id (fe_original_event f) = i"
    and run: "processor (fe_original_event f) p = (pr, p')"
  shows "\<exists>r q' t'. retry_from_dlq DS ctx i processor q t p = (r, q', t', p') \<and>
    (r = None \<longleftrightarrow> pr = None) \<and> dlq_inv q' \<and>
    dlq_events q' = (if pr = None then filter (\<lambda>g. ev_id (fe_original_event g) \<noteq> i) (dlq_events q) else dlq_events q)"
proof -
  from f i have "split_at_id i (dlq_events q) \<noteq> None"
    by (auto simp: split_at_id_None event_id_is_def)
  then obtain pre g post where sp: "split_at_id i (dlq_events q) = Some (pre, g, post)" by auto
  note parts = split_at_id_Some [OF sp]
  have dist: "distinct (map (\<lambda>f. ev_id (fe_original_event f)) (pre @ g # post))"
    using inv parts by (simp add: dlq_inv_def)
  have "g = f"
    using f i parts dist by (auto simp: event_id_is_def image_iff)
  moreover have "filter (\<lambda>g. ev_id (fe_original_event g) \<noteq> i) (dlq_events q) = pre @ post"
    using parts dist by (auto simp: event_id_is_def filter_id_conv image_iff)
  ultimately show ?thesis
    using sp run parts inv by (cases pr) (auto simp: retry_from_dlq_def dlq_inv_def)
qed

lemma retry_from_dlq_exact_witness:
  "\<exists>r q' t'. retry_from_dlq \<lparr>ds_store = (\<lambda>_ _ t. (None, t)), ds_remove = (\<lambda>_ _ t. (None, t))\<rparr> None ''e1''
     (\<lambda>e n. (None, n + 1)) \<lparr>dlq_events = [\<lparr>fe_original_event = example_event ''w'' 1, fe_failure_reason = ''r'',
        fe_failure_count = 1, fe_first_failed_at = 1, fe_last_failed_at = 1, fe_last_error = ''x'',
        fe_processing_meta = []\<rparr>], dlq_max_size = 5\<rparr> () (0 :: nat) = (r, q', t', 1) \<and> dlq_events q' = []"
proof -
  let ?DS = "\<lparr>ds_store = (\<lambda>_ _ t. (None, t)), ds_remove = (\<lambda>_ _ t. (None, t))\<rparr>"
  let ?f = "\<lparr>fe_original_event = example_event ''w'' 1, fe_failure_reason = ''r'',
        fe_failure_count = 1, fe_first_failed_at = 1, fe_last_failed_at = 1, fe_last_error = ''x'',
        fe_processing_meta = []\<rparr>"
  let ?q = "\<lparr>dlq_events = [?f], dlq_max_size = 5\<rparr>"
  have "\<exists>r q' t'. retry_from_dlq ?DS None ''e1'' (\<lambda>e n. (None, n + 1)) ?q () (0 :: nat) = (r, q', t', 1) \<and>
      (r = None \<longleftrightarrow> None = (None :: go_error option)) \<and> dlq_inv q' \<and>
      dlq_events q' = (if None = (None :: go_error option) then filter (\<lambda>g. ev_id (fe_original_event g) \<noteq> ''e1'') (dlq_events ?q)
        else dlq_events ?q)"
    by (rule retry_from_dlq_exact [of ?q ?f]) (simp_all add: dlq_inv_def example_event_def)
  then show ?thesis by (auto simp: example_event_def)
qed

end
