(* ===== verification/Compensation.thy ===== *)
theory Compensation
  imports Retry Dead_Letter_Queue Payment_Saga
begin

text \<open>
  \<open>CompensationManager\<close> of \<open>pkg/eventstore/error_handling.go\<close>: undoing the completed steps of a
  failed payment, each with retries, with the dead letter queue for what cannot be undone.

  What the manager calls is a record of operations: the store's \<open>AppendEvent\<close> over a state
  \<open>'s\<close>, the wallet's \<open>RefundFunds\<close> over \<open>'w\<close>, the event bus over \<open>'b\<close> and the storage of
  the queue over \<open>'t\<close>; the last three are interfaces.  A call that panics ends in
  \<open>Panicked\<close>.  Logging and the simulated gateway call are left out.
\<close>

record ('s, 'w, 'b, 't) manager_ops =
  mo_append :: "'s append_op"
  mo_refund :: "ctx_err \<Rightarrow> string \<Rightarrow> string \<Rightarrow> float64 \<Rightarrow> string \<Rightarrow> 'w \<Rightarrow> go_error option \<times> 'w"
  mo_publish :: "ctx_err \<Rightarrow> event \<Rightarrow> 'b \<Rightarrow> go_error option \<times> 'b"
  mo_storage :: "'t dlq_storage_ops"
  mo_retry :: retry_config

record compensation_step =
  cs_step_name :: string
  cs_action :: string
  cs_status :: string
  cs_executed_at :: time
  cs_error :: string
  cs_retry_count :: int

record compensation_record =
  cr_saga_id :: string
  cr_payment_id :: string
  cr_steps :: "compensation_step list"
  cr_status :: string
  cr_created_at :: time
  cr_completed_at :: "time option"
  cr_metadata :: "(string \<times> json) list"

record ('s, 'w, 'b, 't) manager =
  cm_store :: 's
  cm_wallet :: 'w
  cm_bus :: 'b
  cm_storage :: 't
  cm_dlq :: dlq
  cm_compensations :: "string \<rightharpoonup> compensation_record"

text \<open>What one attempt of a step meets, and what one step meets.\<close>

record attempt_env =
  ae_ctx_refund :: ctx_err
  ae_ctx_append :: ctx_err
  ae_ctx_publish :: ctx_err
  ae_reverted_at :: time
  ae_event_id :: uuid
  ae_t1 :: time
  ae_t2 :: time
  ae_now :: time

record step_env =
  st_attempts :: "nat \<Rightarrow> attempt_env"
  st_woken :: "nat \<Rightarrow> ctx_err"
  st_nanos :: "nat \<Rightarrow> int"
  st_executed_at :: time
  st_ctx :: ctx_err
  st_event_id :: uuid
  st_created_at :: time
  st_dlq_times :: "time \<times> time \<times> time \<times> time"

definition encode_funds_reverted ::
  "string \<Rightarrow> string \<Rightarrow> float64 \<Rightarrow> string \<Rightarrow> string \<Rightarrow> time \<Rightarrow> string \<Rightarrow> json go_result" where
  "encode_funds_reverted payment_id user_id amount currency saga_id reverted_at reason = j_struct
     [(''payment_id'', j_str payment_id), (''user_id'', j_str user_id), (''amount'', j_float amount),
      (''currency'', j_str currency), (''saga_id'', j_str saga_id),
      (''reverted_at'', j_time reverted_at), (''reason'', j_str reason)]"

definition execute_refund_funds ::
  "('s, 'w, 'b, 't) manager_ops \<Rightarrow> payment_saga \<Rightarrow> attempt_env \<Rightarrow> ('s, 'w, 'b, 't) manager \<Rightarrow>
     go_error option \<times> ('s, 'w, 'b, 't) manager" where
  "execute_refund_funds MO saga env cm =
     (case mo_refund MO (ae_ctx_refund env) (ps_user_id saga) (ps_currency saga)
             (f_of_int (ps_amount saga)) (''Compensation for failed payment '' @ ps_payment_id saga)
             (cm_wallet cm) of
        (Some x, w) \<Rightarrow> (Some (''failed to refund funds: '' @ x), cm\<lparr>cm_wallet := w\<rparr>)
      | (None, w) \<Rightarrow>
          let cm = cm\<lparr>cm_wallet := w\<rparr>
          in (case new_event (ps_user_id saga) ''PaymentSaga'' ''FundsReverted''
                 (encode_funds_reverted (ps_payment_id saga) (ps_user_id saga) (f_of_int (ps_amount saga))
                    (ps_currency saga) (ps_saga_id saga) (ae_reverted_at env)
                    ''Payment compensation - external payment failed'')
                 (ps_user_id saga) (ps_saga_id saga) (ae_event_id env) (ae_t1 env) (ae_t2 env) of
                Inl x \<Rightarrow> (Some (''failed to create FundsReverted event: '' @ x), cm)
              | Inr e \<Rightarrow>
                 (case mo_append MO (ae_ctx_append env) (ae_now env) e (cm_store cm) of
                    (Some x, s, _) \<Rightarrow> (Some (''failed to store FundsReverted event: '' @ x), cm\<lparr>cm_store := s\<rparr>)
                  | (None, s, e') \<Rightarrow>
                      let cm = cm\<lparr>cm_store := s\<rparr>
                      in (case mo_publish MO (ae_ctx_publish env) e' (cm_bus cm) of
                            (Some x, b) \<Rightarrow> (Some (''failed to publish FundsReverted event: '' @ x), cm\<lparr>cm_bus := b\<rparr>)
                          | (None, b) \<Rightarrow> (None, cm\<lparr>cm_bus := b\<rparr>)))))"

definition execute_cancel_gateway_payment ::
  "('s, 'w, 'b, 't) manager \<Rightarrow> go_error option \<times> ('s, 'w, 'b, 't) manager" where
  "execute_cancel_gateway_payment cm = (None, cm)"

definition step_operation ::
  "('s, 'w, 'b, 't) manager_ops \<Rightarrow> payment_saga \<Rightarrow> step_env \<Rightarrow> compensation_step \<Rightarrow> nat \<Rightarrow>
     ('s, 'w, 'b, 't) manager \<Rightarrow> go_error option \<times> ('s, 'w, 'b, 't) manager" where
  "step_operation MO saga env step attempt cm =
     (if cs_action step = ''refund_funds'' then execute_refund_funds MO saga (st_attempts env attempt) cm
      else if cs_action step = ''cancel_gateway_payment'' then execute_cancel_gateway_payment cm
      else (Some (''unknown compensation action: '' @ cs_action step), cm))"

text \<open>\<open>updateCompensationStep\<close>: the first recorded step of that name is replaced, or the step added.\<close>

fun put_step :: "compensation_step \<Rightarrow> compensation_step list \<Rightarrow> compensation_step list" where
  "put_step st [] = [st]"
| "put_step st (s # ss) = (if cs_step_name s = cs_step_name st then st # ss else s # put_step st ss)"

definition update_compensation_step ::
  "string \<Rightarrow> compensation_step \<Rightarrow> (string \<rightharpoonup> compensation_record) \<Rightarrow> (string \<rightharpoonup> compensation_record)" where
  "update_compensation_step i step cs =
     (case cs i of None \<Rightarrow> cs | Some r \<Rightarrow> cs(i \<mapsto> r\<lparr>cr_steps := put_step step (cr_steps r)\<rparr>))"

definition update_compensation_status ::
  "string \<Rightarrow> string \<Rightarrow> time \<Rightarrow> (string \<rightharpoonup> compensation_record) \<Rightarrow> (string \<rightharpoonup> compensation_record)" where
  "update_compensation_status i status now cs =
     (case cs i of None \<Rightarrow> cs
      | Some r \<Rightarrow> cs(i \<mapsto> r\<lparr>cr_status := status, cr_completed_at :=
          (if status = ''completed'' \<or> status = ''failed'' then Some now else cr_completed_at r)\<rparr>))"

text \<open>
  \<open>executeCompensationStep\<close>.  Inside the branch for a failed retry the code declares a second
  \<open>err\<close>, the result of \<open>json.Marshal\<close>, and it is this one that it sends to the queue and returns.
\<close>

definition execute_compensation_step ::
  "('s, 'w, 'b, 't) manager_ops \<Rightarrow> payment_saga \<Rightarrow> step_env \<Rightarrow> compensation_step \<Rightarrow> string \<Rightarrow>
     ('s, 'w, 'b, 't) manager \<Rightarrow> (go_error option \<times> ('s, 'w, 'b, 't) manager) go_run" where
  "execute_compensation_step MO saga env step i cm =
     (let step = step\<lparr>cs_executed_at := st_executed_at env\<rparr>
      in case execute_with_retry (mo_retry MO) (step_operation MO saga env step) (st_woken env)
                (st_nanos env) cm of
        (Some x, cm, _) \<Rightarrow>
          (let step = step\<lparr>cs_status := ''failed'', cs_error := x\<rparr>
           in case j_struct [(''action'', j_str (cs_action step)), (''error'', j_str (cs_error step)),
                  (''executed_at'', j_time (cs_executed_at step)),
                  (''retry_count'', j_int (cs_retry_count step)), (''status'', j_str (cs_status step)),
                  (''step_name'', j_str (cs_step_name step))] of
                Inl y \<Rightarrow> Returned (Some (''failed to marshal compensation step data: '' @ y), cm)
              | Inr event_data \<Rightarrow>
                  let err = None;
                      e = \<lparr>ev_id = st_event_id env, ev_aggregate_id = ps_payment_id saga,
                        ev_aggregate_type = ''compensation'', ev_type = ''CompensationStepFailed'',
                        ev_version = 0, ev_seq = 0, ev_data = event_data, ev_metadata = JNull,
                        ev_created_at = st_created_at env, ev_caused_by = '''',
                        ev_correlation_id = ps_saga_id saga\<rparr>
                  in run_bind (send_to_dlq (mo_storage MO) (st_ctx env) (st_dlq_times env) e
                         ''compensation_step_failed'' err (cs_retry_count step) (cm_dlq cm) (cm_storage cm))
                       (\<lambda>(_, q, t). Returned (err, cm\<lparr>cm_dlq := q, cm_storage := t\<rparr>)))
      | (None, cm, _) \<Rightarrow>
          Returned (None, cm\<lparr>cm_compensations := update_compensation_step i
            (step\<lparr>cs_status := ''completed''\<rparr>) (cm_compensations cm)\<rparr>))"

definition compensation_step_for :: "string \<Rightarrow> compensation_step list" where
  "compensation_step_for completed =
     (if completed = ''funds_deducted''
      then [\<lparr>cs_step_name = ''revert_funds_deduction'', cs_action = ''refund_funds'',
             cs_status = ''pending'', cs_executed_at = 0, cs_error = '''', cs_retry_count = 0\<rparr>]
      else if completed = ''external_processing''
      then [\<lparr>cs_step_name = ''cancel_external_payment'', cs_action = ''cancel_gateway_payment'',
             cs_status = ''pending'', cs_executed_at = 0, cs_error = '''', cs_retry_count = 0\<rparr>]
      else [])"

definition build_compensation_steps :: "payment_saga \<Rightarrow> compensation_step list" where
  "build_compensation_steps saga = concat (map compensation_step_for (rev (ps_completed_steps saga)))"

text \<open>The loop over the steps; each step has its own environment.\<close>

fun run_compensation_steps ::
  "('s, 'w, 'b, 't) manager_ops \<Rightarrow> payment_saga \<Rightarrow> (nat \<Rightarrow> step_env) \<Rightarrow> string \<Rightarrow> time \<Rightarrow> nat \<Rightarrow>
     compensation_step list \<Rightarrow> ('s, 'w, 'b, 't) manager \<Rightarrow> (go_error option \<times> ('s, 'w, 'b, 't) manager) go_run" where
  "run_compensation_steps MO saga envs i now n [] cm =
     Returned (None, cm\<lparr>cm_compensations := update_compensation_status i ''completed'' now (cm_compensations cm)\<rparr>)"
| "run_compensation_steps MO saga envs i now n (st # sts) cm =
     run_bind (execute_compensation_step MO saga (envs n) st i cm) (\<lambda>(r, cm).
       case r of
         Some x \<Rightarrow> Returned (Some (''compensation failed at step '' @ cs_step_name st @ '': '' @ x),
           cm\<lparr>cm_compensations := update_compensation_status i ''failed'' now (cm_compensations cm)\<rparr>)
       | None \<Rightarrow> run_compensation_steps MO saga envs i now (Suc n) sts cm)"

text \<open>\<open>CompensatePaymentFailure\<close>; the original error is asked for its text.\<close>

definition compensate_payment_failure ::
  "('s, 'w, 'b, 't) manager_ops \<Rightarrow> (nat \<Rightarrow> step_env) \<Rightarrow> uuid \<Rightarrow> time \<Rightarrow> time \<Rightarrow> payment_saga \<Rightarrow> string \<Rightarrow>
     go_error option \<Rightarrow> ('s, 'w, 'b, 't) manager \<Rightarrow> (go_error option \<times> ('s, 'w, 'b, 't) manager) go_run" where
  "compensate_payment_failure MO envs i created now saga failure_reason original_error cm =
     (case original_error of None \<Rightarrow> Panicked
      | Some x \<Rightarrow>
         let r = \<lparr>cr_saga_id = ps_saga_id saga, cr_payment_id = ps_payment_id saga, cr_steps = [],
               cr_status = ''in_progress'', cr_created_at = created, cr_completed_at = None,
               cr_metadata = [(''compensation_id'', JStr i), (''failure_reason'', JStr failure_reason),
                 (''original_error'', JStr x)]\<rparr>
         in run_compensation_steps MO saga envs i now 0 (build_compensation_steps saga)
              (cm\<lparr>cm_compensations := (cm_compensations cm)(i \<mapsto> r)\<rparr>))"

section \<open>Properties\<close>

lemma execute_step_cases:
  "execute_compensation_step MO saga env step i cm =
     (case execute_with_retry (mo_retry MO) (step_operation MO saga env step) (st_woken env) (st_nanos env) cm of
        (Some x, cm', _) \<Rightarrow> Panicked
      | (None, cm', _) \<Rightarrow> Returned (None, cm'\<lparr>cm_compensations := update_compensation_step i
          (step\<lparr>cs_executed_at := st_executed_at env, cs_status := ''completed''\<rparr>) (cm_compensations cm')\<rparr>))"
proof -
  have "step_operation MO saga env (step\<lparr>cs_executed_at := st_executed_at env\<rparr>) = step_operation MO saga env step"
    by (simp add: step_operation_def fun_eq_iff)
  then show ?thesis
    by (simp add: execute_compensation_step_def send_to_dlq_def j_struct_def Let_def
        split: prod.split option.split)
qed

text \<open>A compensation step that fails for good never reaches the dead letter queue and never reports
  its failure: the error variable is shadowed, the queue is handed nil, and asking nil for its text
  panics.  A step panics exactly when its retries end in an error, and otherwise succeeds.\<close>

theorem failed_step_panics:
  "(execute_compensation_step MO saga env step i cm = Panicked) =
     (fst (execute_with_retry (mo_retry MO) (step_operation MO saga env step) (st_woken env) (st_nanos env) cm) \<noteq> None) \<and>
   (\<forall>x cm'. execute_compensation_step MO saga env step i cm \<noteq> Returned (Some x, cm'))"
  unfolding execute_step_cases by (auto split: prod.split option.split)

lemma put_step_status:
  "cs_status st = ''completed'' \<Longrightarrow> (\<forall>s \<in> set ss. cs_status s = ''completed'') \<Longrightarrow>
     (\<forall>s \<in> set (put_step st ss). cs_status s = ''completed'')"
  by (induction ss) auto

definition record_ok :: "string \<Rightarrow> ('s, 'w, 'b, 't) manager \<Rightarrow> bool" where
  "record_ok i cm = (\<exists>r. cm_compensations cm i = Some r \<and> (\<forall>s \<in> set (cr_steps r). cs_status s = ''completed''))"

lemma step_operation_frame:
  "step_operation MO saga env step k cm = (r, cm') \<Longrightarrow> cm_compensations cm' = cm_compensations cm"
  by (auto simp: step_operation_def execute_refund_funds_def execute_cancel_gateway_payment_def Let_def
      split: if_splits prod.splits option.splits sum.splits)

lemma state_before_frame:
  "cm_compensations (state_before (step_operation MO saga env step) k cm) = cm_compensations cm"
  by (induction k) (simp_all add: step_operation_frame [OF surjective_pairing])

lemma retry_frame:
  assumes "execute_with_retry c (step_operation MO saga env step) woken nanos cm = (r, cm', ds)"
  shows "cm_compensations cm' = cm_compensations cm"
proof (cases "0 \<le> rc_max_retries c")
  case True
  from assms have "retry_loop c (step_operation MO saga env step) woken nanos ''%!w(<nil>)'' 0
      (state_before (step_operation MO saga env step) 0 cm) = (r, cm', ds)"
    by (simp add: execute_with_retry_def)
  from retry_loop_exact [OF this] True
  obtain k where "cm' = state_before (step_operation MO saga env step) (Suc k) cm" by auto
  then show ?thesis by (simp only: state_before_frame)
next
  case False
  with assms show ?thesis
    by (simp add: execute_with_retry_def retry_loop.simps)
qed

lemma run_steps_outcome:
  assumes "run_compensation_steps MO saga envs i now n sts cm = Returned (r, cm')" "record_ok i cm"
  shows "r = None \<and> record_ok i cm' \<and> (\<exists>rec. cm_compensations cm' i = Some rec \<and>
    cr_status rec = ''completed'' \<and> cr_completed_at rec = Some now)"
  using assms
proof (induction sts arbitrary: n cm)
  case Nil
  then show ?case by (auto simp: update_compensation_status_def record_ok_def)
next
  case (Cons st sts)
  obtain r1 cm1 ds where e: "execute_with_retry (mo_retry MO) (step_operation MO saga (envs n) st)
      (st_woken (envs n)) (st_nanos (envs n)) cm = (r1, cm1, ds)" using prod_cases3 by blast
  have r1: "r1 = None" using Cons.prems(1) e by (cases r1) (simp_all add: execute_step_cases)
  let ?cm = "cm1\<lparr>cm_compensations := update_compensation_step i
    (st\<lparr>cs_executed_at := st_executed_at (envs n), cs_status := ''completed''\<rparr>) (cm_compensations cm1)\<rparr>"
  from Cons.prems(2) obtain rec where rec: "cm_compensations cm1 i = Some rec"
    "\<forall>s \<in> set (cr_steps rec). cs_status s = ''completed''"
    unfolding retry_frame [OF e] record_ok_def by blast
  let ?st = "st\<lparr>cs_executed_at := st_executed_at (envs n), cs_status := ''completed''\<rparr>"
  have "\<forall>s \<in> set (put_step ?st (cr_steps rec)). cs_status s = ''completed''"
    by (rule put_step_status) (simp, rule rec(2))
  moreover have "cm_compensations ?cm i = Some (rec\<lparr>cr_steps := put_step ?st (cr_steps rec)\<rparr>)"
    using rec(1) by (simp add: update_compensation_step_def)
  ultimately have "record_ok i ?cm"
    unfolding record_ok_def by (intro exI [of _ "rec\<lparr>cr_steps := put_step ?st (cr_steps rec)\<rparr>"]) simp
  moreover have "run_compensation_steps MO saga envs i now (Suc n) sts ?cm = Returned (r, cm')"
    using Cons.prems(1) e r1 by (simp add: execute_step_cases)
  ultimately show ?case using Cons.IH by blast
qed

text \<open>C32: so a compensation that returns has succeeded, and its record says so: status
  \<open>completed\<close>, with the time, and every recorded step completed.  The branch that marks a
  compensation as failed is never taken.\<close>

theorem compensation_returns_completed:
  assumes "compensate_payment_failure MO envs i created now saga reason (Some x) cm = Returned (r, cm')"
  shows "r = None \<and> (\<exists>rec. cm_compensations cm' i = Some rec \<and> cr_status rec = ''completed'' \<and>
    cr_completed_at rec = Some now \<and> (\<forall>s \<in> set (cr_steps rec). cs_status s = ''completed''))"
proof -
  obtain cm0 where run: "run_compensation_steps MO saga envs i now 0 (build_compensation_steps saga) cm0 = Returned (r, cm')"
    and cm0: "record_ok i cm0"
    using assms by (auto simp: compensate_payment_failure_def record_ok_def)
  from run_steps_outcome [OF this] show ?thesis by (auto simp: record_ok_def)
qed

section \<open>Refunds are repeated\<close>

text \<open>
  A wallet that counts its refunds, the in-memory store, and a bus whose next \<open>n\<close> publications time
  out; the default retries.
\<close>

definition counting_ops :: "(mem_store, nat, nat, unit) manager_ops" where
  "counting_ops = \<lparr>mo_append = mem_append_event, mo_refund = (\<lambda>_ _ _ _ _ w. (None, w + 1)),
     mo_publish = (\<lambda>_ _ b. if b = 0 then (None, 0) else (Some ''timeout'', b - 1)),
     mo_storage = \<lparr>ds_store = (\<lambda>_ _ t. (None, t)), ds_remove = (\<lambda>_ _ t. (None, t))\<rparr>,
     mo_retry = default_retry_config\<rparr>"

lemma counting_refund:
  assumes "mem_inv (cm_store cm)" "\<not> ms_closed (cm_store cm)" "ps_user_id saga \<noteq> ''''"
    and "\<bar>ps_amount saga\<bar> \<le> 2 ^ 53" "ae_ctx_append env = None"
  shows "\<exists>cm'. execute_refund_funds counting_ops saga env cm =
      (if cm_bus cm = 0 then None else Some (''failed to publish FundsReverted event: timeout''), cm') \<and>
    cm_wallet cm' = cm_wallet cm + 1 \<and> cm_bus cm' = cm_bus cm - 1 \<and> mem_inv (cm_store cm') \<and>
    \<not> ms_closed (cm_store cm') \<and>
    length (stream_of (cm_store cm') (ps_user_id saga)) = length (stream_of (cm_store cm) (ps_user_id saga)) + 1"
proof -
  obtain j where j: "encode_funds_reverted (ps_payment_id saga) (ps_user_id saga) (f_of_int (ps_amount saga))
      (ps_currency saga) (ps_saga_id saga) (ae_reverted_at env) ''Payment compensation - external payment failed'' = Inr j"
    using round64_int [OF assms(4)] by (simp add: encode_funds_reverted_def j_struct_def f_of_int_def)
  obtain e where e: "new_event (ps_user_id saga) ''PaymentSaga'' ''FundsReverted'' (Inr j)
      (ps_user_id saga) (ps_saga_id saga) (ae_event_id env) (ae_t1 env) (ae_t2 env) = Inr e"
    and fields: "ev_version e = 0" "ev_aggregate_id e = ps_user_id saga" "ev_aggregate_type e = ''PaymentSaga''"
      "ev_type e = ''FundsReverted''"
    by simp
  have nonempty: "ev_aggregate_id e \<noteq> ''''" "ev_aggregate_type e \<noteq> ''''" "ev_type e \<noteq> ''''"
    using fields assms(3) by simp_all
  obtain m' e' where "mem_append_event None (ae_now env) e (cm_store cm) = (None, m', e')" "mem_inv m'" "\<not> ms_closed m'"
    "stream_of m' = (stream_of (cm_store cm))(ev_aggregate_id e := stream_of (cm_store cm) (ev_aggregate_id e) @ [e'])"
    by (rule mem_append_unversioned [OF assms(1,2) fields(1) nonempty, of "ae_now env"])
  with j e fields(2) assms(5) show ?thesis
    by (simp add: execute_refund_funds_def counting_ops_def Let_def)
qed

lemma timeout_retryable: "is_retryable_error default_retry_config ''failed to publish FundsReverted event: timeout''"
proof -
  have "''failed to publish FundsReverted event: timeout'' = ''failed to publish FundsReverted event: '' @ ''timeout'' @ []"
    by simp
  then have "contains_str ''failed to publish FundsReverted event: timeout'' ''timeout''"
    unfolding contains_str_iff by blast
  then show ?thesis by (simp add: is_retryable_error_def default_retry_config_def)
qed

lemma counting_retries:
  assumes "mem_inv (cm_store cm)" "\<not> ms_closed (cm_store cm)" "ps_user_id saga \<noteq> ''''"
    and "\<bar>ps_amount saga\<bar> \<le> 2 ^ 53" "\<forall>k. ae_ctx_append (st_attempts env k) = None"
    and "cs_action step = ''refund_funds''" "\<forall>k. st_woken env k = None" "a + cm_bus cm \<le> 5"
  shows "\<exists>cm' ds. retry_loop default_retry_config (step_operation counting_ops saga env step) (st_woken env)
      (st_nanos env) last_err a cm = (None, cm', ds) \<and>
    cm_wallet cm' = cm_wallet cm + cm_bus cm + 1 \<and>
    length (stream_of (cm_store cm') (ps_user_id saga)) = length (stream_of (cm_store cm) (ps_user_id saga)) + cm_bus cm + 1"
  using assms
proof (induction "cm_bus cm" arbitrary: cm a last_err)
  case 0
  obtain cm' where "execute_refund_funds counting_ops saga (st_attempts env a) cm = (None, cm')"
    "cm_wallet cm' = cm_wallet cm + 1"
    "length (stream_of (cm_store cm') (ps_user_id saga)) = length (stream_of (cm_store cm) (ps_user_id saga)) + 1"
    using counting_refund [of cm saga "st_attempts env a"] 0 by auto
  with 0 show ?case
    by (subst retry_loop.simps) (simp add: step_operation_def default_retry_config_def)
next
  case (Suc n)
  obtain cm1 where cm1: "execute_refund_funds counting_ops saga (st_attempts env a) cm =
      (Some ''failed to publish FundsReverted event: timeout'', cm1)" "cm_wallet cm1 = cm_wallet cm + 1"
    "cm_bus cm1 = n" "mem_inv (cm_store cm1)" "\<not> ms_closed (cm_store cm1)"
    "length (stream_of (cm_store cm1) (ps_user_id saga)) = length (stream_of (cm_store cm) (ps_user_id saga)) + 1"
    using counting_refund [of cm saga "st_attempts env a"] Suc.prems Suc.hyps(2) by (auto split: if_splits)
  have "\<exists>cm' ds. retry_loop default_retry_config (step_operation counting_ops saga env step) (st_woken env)
      (st_nanos env) ''failed to publish FundsReverted event: timeout'' (a + 1) cm1 = (None, cm', ds) \<and>
    cm_wallet cm' = cm_wallet cm1 + cm_bus cm1 + 1 \<and>
    length (stream_of (cm_store cm') (ps_user_id saga)) = length (stream_of (cm_store cm1) (ps_user_id saga)) + cm_bus cm1 + 1"
    by (rule Suc.hyps(1)) (use Suc.prems Suc.hyps(2) cm1 in simp_all)
  moreover have "int a \<le> rc_max_retries default_retry_config" "int a \<noteq> rc_max_retries default_retry_config"
    using Suc.prems(8) Suc.hyps(2) by (simp_all add: default_retry_config_def)
  ultimately show ?case
    using cm1 Suc.prems(6,7) Suc.hyps(2) timeout_retryable
    by (subst retry_loop.simps) (auto simp: step_operation_def Let_def split: prod.splits)
qed

text \<open>The refund is not idempotent and is inside the retried operation.  When the publication of
  the event times out \<open>n\<close> times, at most 5, the compensation step succeeds in the end and has
  refunded the user \<open>n + 1\<close> times, with as many events in the store.\<close>

theorem refund_repeated:
  assumes "mem_inv (cm_store cm)" "\<not> ms_closed (cm_store cm)" "ps_user_id saga \<noteq> ''''"
    and "\<bar>ps_amount saga\<bar> \<le> 2 ^ 53" "\<forall>k. ae_ctx_append (st_attempts env k) = None"
    and "cs_action step = ''refund_funds''" "\<forall>k. st_woken env k = None" "cm_bus cm \<le> 5"
  shows "\<exists>cm'. execute_compensation_step counting_ops saga env step i cm = Returned (None, cm') \<and>
    cm_wallet cm' = cm_wallet cm + cm_bus cm + 1 \<and>
    length (stream_of (cm_store cm') (ps_user_id saga)) = length (stream_of (cm_store cm) (ps_user_id saga)) + cm_bus cm + 1"
proof -
  have "mo_retry counting_ops = default_retry_config" by (simp add: counting_ops_def)
  moreover have "0 + cm_bus cm \<le> 5" using assms(8) by simp
  from counting_retries [OF assms(1-7) this] obtain cm' ds where
    "retry_loop default_retry_config (step_operation counting_ops saga env step) (st_woken env)
      (st_nanos env) ''%!w(<nil>)'' 0 cm = (None, cm', ds)"
    "cm_wallet cm' = cm_wallet cm + cm_bus cm + 1"
    "length (stream_of (cm_store cm') (ps_user_id saga)) = length (stream_of (cm_store cm) (ps_user_id saga)) + cm_bus cm + 1"
    by blast
  ultimately show ?thesis
    by (simp add: execute_step_cases execute_with_retry_def)
qed

definition example_saga :: payment_saga where
  "example_saga = \<lparr>ps_id = ''i'', ps_saga_id = nil_uuid, ps_payment_id = ''p'', ps_user_id = ''u'',
     ps_amount = 100, ps_currency = ''USD'', ps_status = ''failed'', ps_steps = [],
     ps_completed_steps = [''funds_deducted''], ps_created_at = 1, ps_updated_at = 1,
     ps_completed_at = None, ps_error_message = ''''\<rparr>"

definition example_step_env :: step_env where
  "example_step_env = \<lparr>st_attempts = (\<lambda>k. \<lparr>ae_ctx_refund = None, ae_ctx_append = None,
       ae_ctx_publish = None, ae_reverted_at = 1, ae_event_id = ''e'', ae_t1 = 2, ae_t2 = 3, ae_now = 4\<rparr>),
     st_woken = (\<lambda>_. None), st_nanos = (\<lambda>_. 0), st_executed_at = 1, st_ctx = None,
     st_event_id = ''f'', st_created_at = 5, st_dlq_times = (1, 2, 3, 4)\<rparr>"

definition example_manager :: "nat \<Rightarrow> (mem_store, nat, nat, unit) manager" where
  "example_manager n = \<lparr>cm_store = new_memory_event_store, cm_wallet = 0, cm_bus = n, cm_storage = (),
     cm_dlq = new_dead_letter_queue 10, cm_compensations = Map.empty\<rparr>"

lemma compensation_returns_completed_witness:
  "\<exists>r cm'. compensate_payment_failure counting_ops (\<lambda>_. example_step_env) ''k'' 1 2
      (get_saga 1 1 ''s'') ''r'' (Some ''x'') (example_manager 0) = Returned (r, cm') \<and> r = None"
proof -
  have "\<exists>r cm'. compensate_payment_failure counting_ops (\<lambda>_. example_step_env) ''k'' 1 2 (get_saga 1 1 ''s'') ''r'' (Some ''x'') (example_manager 0) = Returned (r, cm')"
    by (simp add: compensate_payment_failure_def build_compensation_steps_def get_saga_def)
  then obtain r cm' where e: "compensate_payment_failure counting_ops (\<lambda>_. example_step_env) ''k'' 1 2 (get_saga 1 1 ''s'') ''r'' (Some ''x'') (example_manager 0) =
      Returned (r, cm')" by blast
  from compensation_returns_completed [OF e] e show ?thesis by blast
qed

lemma refund_repeated_witness:
  "\<exists>cm'. execute_compensation_step counting_ops example_saga example_step_env
      (hd (compensation_step_for ''funds_deducted'')) ''k'' (example_manager 2) = Returned (None, cm') \<and> cm_wallet cm' = 3"
  using refund_repeated [of "example_manager 2" example_saga example_step_env
      "hd (compensation_step_for ''funds_deducted'')" "''k''"]
  by (auto simp: example_manager_def example_saga_def example_step_env_def compensation_step_for_def mem_inv_new)

section \<open>Conflicts are not retried\<close>

text \<open>What is printed of a number are digits and the sign.\<close>

lemma show_nat_digits: "c \<in> set (show_nat n) \<Longrightarrow> 48 \<le> (of_char c :: nat) \<and> (of_char c :: nat) \<le> 57"
proof (induction n rule: show_nat.induct)
  case (1 n)
  have digit: "48 \<le> (of_char (digit_char d) :: nat) \<and> (of_char (digit_char d) :: nat) \<le> 57" if "d < 10" for d
    using that by (simp add: digit_char_def)
  show ?case
  proof (cases "n < 10")
    case True
    with 1 digit [OF True] show ?thesis by (simp add: show_nat.simps [of n])
  next
    case False
    with 1 digit [of "n mod 10"] show ?thesis by (auto simp: show_nat.simps [of n])
  qed
qed

lemma show_number_chars:
  "CHR ''m'' \<notin> set (show_nat k)" "CHR ''_'' \<notin> set (show_nat k)"
  "CHR ''m'' \<notin> set (show_int i)" "CHR ''_'' \<notin> set (show_int i)"
  using show_nat_digits [of "CHR ''m''"] show_nat_digits [of "CHR ''_''"]
  by (auto simp: show_int_def)

lemma not_retryable_chars:
  assumes "CHR ''m'' \<notin> set x" "CHR ''_'' \<notin> set x"
  shows "\<not> is_retryable_error default_retry_config x"
proof -
  have "\<not> contains_str x sub" if "CHR ''m'' \<in> set sub \<or> CHR ''_'' \<in> set sub" for sub
    using contains_str_set [of x sub] that assms by blast
  then show ?thesis by (simp add: is_retryable_error_def default_retry_config_def)
qed

text \<open>The default retries give up at once on a version conflict of the event store, the one
  error that trying again would cure: neither the text of the conflict nor what the callers put before it
  contains one of the retryable words.\<close>

theorem conflicts_not_retried:
  "\<not> is_retryable_error default_retry_config (conflict_error expected got) \<and>
   \<not> is_retryable_error default_retry_config (conflict_at_error n expected got) \<and>
   \<not> is_retryable_error default_retry_config (''failed to store FundsReverted event: '' @ conflict_error expected got) \<and>
   \<not> is_retryable_error default_retry_config (''failed to save aggregate events: '' @ conflict_at_error n expected got)"
  by (intro conjI not_retryable_chars)
    (simp_all add: conflict_error_def conflict_at_error_def show_number_chars)

end
