(* ===== verification/Wallet_Interleavings.thy ===== *)
theory Wallet_Interleavings
  imports Concurrent_Wallet
begin

text \<open>
  Many goroutines on one \<open>ConcurrentWalletService\<close>: a step relation whose steps are the critical
  sections of \<open>pkg/eventstore/concurrency_control.go\<close>.  A goroutine runs an operation under a lock (or
  in its partition) in one step; an optimistic one reads, commits or finds a conflict in steps of its
  own, with the steps of all other goroutines between them.  The log of the critical sections is a
  ghost: no step reads it.
\<close>

datatype wallet_op =
    Deduct string string float64
  | Refund string string float64
  | Set_Balance string string float64
  | Look string string

text \<open>One critical section: the operation under the mutex of the balance.\<close>

fun run_op :: "time \<Rightarrow> wallet_op \<Rightarrow> balances \<Rightarrow> go_error option \<times> balances" where
  "run_op now (Deduct u c amount) bs = deduct_funds_partitioned now u c amount bs"
| "run_op now (Refund u c amount) bs = refund_funds_partitioned now u c amount bs"
| "run_op now (Set_Balance u c amount) bs = (None, set_balance now u c amount bs)"
| "run_op now (Look u c) bs = (None, snd (get_balance_with_version now u c bs))"

text \<open>Where the optimistic loop of a goroutine stands.\<close>

datatype progress =
    Ready
  | Deducting string string float64 nat        \<comment> \<open>before the read of attempt \<open>k\<close>\<close>
  | Deduct_Loaded string string float64 nat int \<comment> \<open>after it, with the version read\<close>
  | Refunding string string float64 nat
  | Refund_Loaded string string float64 nat int

type_synonym op_log = "(time \<times> wallet_op \<times> go_error option) list"

record service =
  sv_balances :: balances
  sv_procs :: "nat \<Rightarrow> progress"
  sv_log :: op_log

definition new_service :: service where
  "new_service = \<lparr>sv_balances = new_balances, sv_procs = (\<lambda>_. Ready), sv_log = []\<rparr>"

definition move :: "nat \<Rightarrow> progress \<Rightarrow> service \<Rightarrow> service" where
  "move p st s = s\<lparr>sv_procs := (sv_procs s)(p := st)\<rparr>"

definition effect :: "time \<Rightarrow> wallet_op \<Rightarrow> go_error option \<Rightarrow> balances \<Rightarrow> service \<Rightarrow> service" where
  "effect now op r bs s = s\<lparr>sv_balances := bs, sv_log := sv_log s @ [(now, op, r)]\<rparr>"

inductive service_step :: "service \<Rightarrow> service \<Rightarrow> bool" where
  locked: "sv_procs s p = Ready \<Longrightarrow> run_op now op (sv_balances s) = (r, bs) \<Longrightarrow>
    service_step s (effect now op r bs s)"
| start_deduct: "sv_procs s p = Ready \<Longrightarrow> service_step s (move p (Deducting u c amount 0) s)"
| start_refund: "sv_procs s p = Ready \<Longrightarrow> service_step s (move p (Refunding u c amount 0) s)"
| read_deduct: "sv_procs s p = Deducting u c amount k \<Longrightarrow> k < max_attempts \<Longrightarrow>
    deduct_read now u c amount (sv_balances s) = (Inr v, bs) \<Longrightarrow>
    service_step s (move p (Deduct_Loaded u c amount k v) (effect now (Look u c) None bs s))"
| refuse: "sv_procs s p = Deducting u c amount k \<Longrightarrow> k < max_attempts \<Longrightarrow>
    deduct_read now u c amount (sv_balances s) = (Inl x, bs) \<Longrightarrow>
    service_step s (move p Ready (effect now (Deduct u c amount) (Some x) bs s))"
| read_refund: "sv_procs s p = Refunding u c amount k \<Longrightarrow> k < max_attempts \<Longrightarrow>
    refund_read now u c (sv_balances s) = (v, bs) \<Longrightarrow>
    service_step s (move p (Refund_Loaded u c amount k v) (effect now (Look u c) None bs s))"
| commit_deduct: "sv_procs s p = Deduct_Loaded u c amount k v \<Longrightarrow>
    commit (debit now amount) u c v (sv_balances s) = Some bs \<Longrightarrow>
    service_step s (move p Ready (effect now (Deduct u c amount) None bs s))"
| commit_refund: "sv_procs s p = Refund_Loaded u c amount k v \<Longrightarrow>
    commit (credit now amount) u c v (sv_balances s) = Some bs \<Longrightarrow>
    service_step s (move p Ready (effect now (Refund u c amount) None bs s))"
| conflict_deduct: "sv_procs s p = Deduct_Loaded u c amount k v \<Longrightarrow>
    commit (debit now amount) u c v (sv_balances s) = None \<Longrightarrow>
    service_step s (move p (Deducting u c amount (k + 1)) s)"
| conflict_refund: "sv_procs s p = Refund_Loaded u c amount k v \<Longrightarrow>
    commit (credit now amount) u c v (sv_balances s) = None \<Longrightarrow>
    service_step s (move p (Refunding u c amount (k + 1)) s)"
| give_up_deduct: "sv_procs s p = Deducting u c amount k \<Longrightarrow> \<not> k < max_attempts \<Longrightarrow>
    service_step s (move p Ready s)"
| give_up_refund: "sv_procs s p = Refunding u c amount k \<Longrightarrow> \<not> k < max_attempts \<Longrightarrow>
    service_step s (move p Ready s)"

inductive service_reachable :: "service \<Rightarrow> bool" where
  init: "service_reachable new_service"
| step: "service_reachable s \<Longrightarrow> service_step s s' \<Longrightarrow> service_reachable s'"

section \<open>The sequential specification\<close>

text \<open>The operations of a log, one after the other on one thread.\<close>

fun serial_run :: "(time \<times> wallet_op) list \<Rightarrow> balances \<Rightarrow> go_error option list \<times> balances" where
  "serial_run [] bs = ([], bs)"
| "serial_run ((now, op) # ops) bs =
     (case run_op now op bs of (r, bs) \<Rightarrow> (case serial_run ops bs of (rs, bs) \<Rightarrow> (r # rs, bs)))"

definition explains :: "op_log \<Rightarrow> balances \<Rightarrow> bool" where
  "explains h bs \<longleftrightarrow>
     serial_run (map (\<lambda>(now, op, _). (now, op)) h) new_balances = (map (\<lambda>(_, _, r). r) h, bs)"

lemma serial_run_snoc:
  "serial_run (ops @ [(now, op)]) bs =
     (case serial_run ops bs of (rs, bs) \<Rightarrow> (case run_op now op bs of (r, bs) \<Rightarrow> (rs @ [r], bs)))"
  by (induction ops arbitrary: bs) (auto split: prod.splits)

lemma explains_nil: "explains [] new_balances"
  by (simp add: explains_def)

lemma explains_snoc:
  "explains h bs \<Longrightarrow> run_op now op bs = (r, bs') \<Longrightarrow> explains (h @ [(now, op, r)]) bs'"
  by (simp add: explains_def serial_run_snoc)

lemma run_op_rely: "version_rely u c bs (snd (run_op now op bs))"
proof (cases op)
  case (Look v d)
  then show ?thesis
    by (simp add: get_balance_with_version_def version_rely_created split: prod.split)
qed (simp_all add: operations_rely)

section \<open>Every interleaving is a sequential run\<close>

text \<open>A loaded version is not ahead, and while it is current the check made with it stands.\<close>

definition loaded_ok :: "balances \<Rightarrow> progress \<Rightarrow> bool" where
  "loaded_ok bs st = (case st of
     Deduct_Loaded u c amount k v \<Rightarrow>
       (case lookup_balance bs u c of
          None \<Rightarrow> False
        | Some wb \<Rightarrow> v \<le> wb_version wb \<and> (wb_version wb = v \<longrightarrow> \<not> flt (wb_balance wb) amount))
   | _ \<Rightarrow> True)"

lemma loaded_ok_rely: "loaded_ok bs st \<Longrightarrow> (\<And>u c. version_rely u c bs bs') \<Longrightarrow> loaded_ok bs' st"
  by (cases st) (fastforce simp: loaded_ok_def version_rely_def split: option.splits)+

definition service_inv :: "service \<Rightarrow> bool" where
  "service_inv s \<longleftrightarrow> explains (sv_log s) (sv_balances s) \<and> (\<forall>p. loaded_ok (sv_balances s) (sv_procs s p))"

lemma effect_inv:
  assumes "service_inv s" "run_op now op (sv_balances s) = (r, bs)"
  shows "service_inv (effect now op r bs s)"
proof -
  have "version_rely u c (sv_balances s) bs" for u c
    using run_op_rely [of u c "sv_balances s" now op] assms(2) by simp
  with assms show ?thesis
    by (auto simp: service_inv_def effect_def intro: explains_snoc loaded_ok_rely)
qed

lemma move_inv: "service_inv s \<Longrightarrow> loaded_ok (sv_balances s) st \<Longrightarrow> service_inv (move p st s)"
  by (simp add: service_inv_def move_def)

lemma effect_balances [simp]: "sv_balances (effect now op r bs s) = bs"
  by (simp add: effect_def)

lemma loaded_ok_trivial [simp]:
  "loaded_ok bs Ready" "loaded_ok bs (Deducting u c amount k)" "loaded_ok bs (Refunding u c amount k)"
  "loaded_ok bs (Refund_Loaded u c amount k v)"
  by (simp_all add: loaded_ok_def)

lemma look_is_touch: "run_op now (Look u c) bs = (None, touched now u c bs)"
  by (simp add: get_balance_with_version_def split: prod.split)

lemma service_inv_step: "service_step s s' \<Longrightarrow> service_inv s \<Longrightarrow> service_inv s'"
proof (induction rule: service_step.induct)
  case (read_deduct s p u c amount k now v bs)
  note ok = deduct_read_ok [OF read_deduct(3)]
  show ?case
    using ok lookup_touched [of now u c "sv_balances s"]
    by (intro move_inv effect_inv read_deduct) (simp_all add: look_is_touch loaded_ok_def del: run_op.simps)
next
  case (refuse s p u c amount k now x bs)
  then show ?case by (intro move_inv effect_inv) (simp_all add: deduct_read_error)
next
  case (read_refund s p u c amount k now v bs)
  then show ?case
    by (intro move_inv effect_inv) (auto simp: look_is_touch refund_read_def simp del: run_op.simps split: prod.splits)
next
  case (commit_deduct s p u c amount k v now bs)
  obtain wb where wb: "lookup_balance (sv_balances s) u c = Some wb" "wb_version wb = v"
    using commit_deduct(2) by (rule commit_someD)
  have "loaded_ok (sv_balances s) (sv_procs s p)" using commit_deduct.prems by (simp add: service_inv_def)
  with wb commit_deduct(1) have "\<not> flt (wb_balance wb) amount" by (simp add: loaded_ok_def)
  then show ?case
    by (intro move_inv effect_inv commit_deduct.prems)
      (simp_all add: Concurrent_Wallet.commit_deduct [OF commit_deduct(2) wb(1)])
next
  case (commit_refund s p u c amount k v now bs)
  then show ?case by (intro move_inv effect_inv) (simp_all add: Concurrent_Wallet.commit_refund)
qed (simp_all add: move_inv effect_inv)

lemma service_inv_new: "service_inv new_service"
  by (simp add: service_inv_def new_service_def explains_nil)

lemma service_inv_reachable: "service_reachable s \<Longrightarrow> service_inv s"
  by (induction rule: service_reachable.induct) (blast intro: service_inv_new service_inv_step)+

lemma explained: "service_reachable s \<Longrightarrow> explains (sv_log s) (sv_balances s)"
  using service_inv_reachable by (simp add: service_inv_def)

section \<open>No update is lost\<close>

fun changes :: "string \<Rightarrow> string \<Rightarrow> wallet_op \<Rightarrow> bool" where
  "changes u c (Deduct v d _) = (v = u \<and> d = c)"
| "changes u c (Refund v d _) = (v = u \<and> d = c)"
| "changes u c (Set_Balance v d _) = (v = u \<and> d = c)"
| "changes u c (Look _ _) = False"

text \<open>The operations of a log that changed a balance.\<close>

definition changed :: "string \<Rightarrow> string \<Rightarrow> op_log \<Rightarrow> op_log" where
  "changed u c h = filter (\<lambda>(now, op, r). changes u c op \<and> r = None) h"

text \<open>The state of a balance, absent ones as they would be created.\<close>

definition version_of :: "balances \<Rightarrow> string \<Rightarrow> string \<Rightarrow> int" where
  "version_of bs u c = (case lookup_balance bs u c of None \<Rightarrow> 1 | Some wb \<Rightarrow> wb_version wb)"

lemma version_created [simp]: "version_of (touched now v d bs) u c = version_of bs u c"
  by (auto simp: version_of_def get_or_create_balance_def Let_def split: option.splits)

lemma version_put [simp]:
  "version_of (put_balance v d wb bs) u c = (if u = v \<and> c = d then wb_version wb else version_of bs u c)"
  by (simp add: version_of_def)

lemma version_looked_up:
  "get_or_create_balance now u c bs = (wb, bs') \<Longrightarrow> wb_version wb = version_of bs u c \<and>
     (\<forall>v d. version_of bs' v d = version_of bs v d)"
  using lookup_touched [of now u c bs] version_created [of now u c bs u c] version_created [of now u c bs]
  unfolding version_of_def [of "touched now u c bs" u c] by auto

lemma run_op_version:
  assumes "run_op now op bs = (r, bs')"
  shows "version_of bs' u c = version_of bs u c + (if changes u c op \<and> r = None then 1 else 0)"
  using assms
  by (cases op) (auto simp: deduct_funds_partitioned_def refund_funds_partitioned_def set_balance_def
    get_balance_with_version_def dest!: version_looked_up split: prod.splits if_splits)

lemma explains_version:
  "explains h bs \<Longrightarrow> version_of bs u c = 1 + int (length (changed u c h))"
proof (induction h arbitrary: bs rule: rev_induct)
  case Nil
  then have "bs = new_balances" by (simp add: explains_def)
  then show ?case by (simp add: version_of_def new_balances_def lookup_balance_def changed_def)
next
  case (snoc x h)
  obtain now op r where x: "x = (now, op, r)" by (rule prod_cases3)
  obtain bs0 where "explains h bs0" "run_op now op bs0 = (r, bs)"
    using snoc.prems by (auto simp: x explains_def serial_run_snoc split: prod.splits)
  with snoc.IH [of bs0] run_op_version [of now op bs0 r bs u c] show ?case
    by (simp add: x changed_def)
qed

section \<open>Balances stay usable\<close>

fun sane_op :: "wallet_op \<Rightarrow> bool" where
  "sane_op (Deduct _ _ a) = nonneg64 a"
| "sane_op (Refund _ _ a) = nonneg64 a"
| "sane_op (Set_Balance _ _ a) = nonneg64 a"
| "sane_op (Look _ _) = True"

text \<open>Not negative; an overflow to infinity is possible, a NaN is not.\<close>

definition sane_balances :: "balances \<Rightarrow> bool" where
  "sane_balances bs \<longleftrightarrow> (\<forall>u c wb. lookup_balance bs u c = Some wb \<longrightarrow> fle f0 (wb_balance wb))"

lemma fle_zero: "fle f0 b \<longleftrightarrow> b = FPosInf \<or> (\<exists>r \<ge> 0. b = FFin r)"
  by (cases b) (auto simp: fle_def f0_def)

lemma nonneg64_iff: "nonneg64 a \<longleftrightarrow> (\<exists>r \<ge> 0. a = FFin r)"
  by (cases a) (auto simp: nonneg64_def)

lemma round64_sane: "0 \<le> r \<Longrightarrow> fle f0 (round64 r)"
  using round64_nonneg [of r] by (auto simp: fle_zero)

lemma fsub_sane:
  assumes "nonneg64 a" "fle f0 b" "\<not> flt b a"
  shows "fle f0 (fsub b a)"
proof -
  obtain r where r: "a = FFin r" "0 \<le> r" using assms(1) by (auto simp: nonneg64_iff)
  show ?thesis
    using assms(2,3) r unfolding fle_zero [of b]
    by (elim disjE exE conjE) (simp_all add: fsub_def fle_zero [of FPosInf] round64_sane)
qed

lemma fadd_sane:
  assumes "nonneg64 a" "fle f0 b"
  shows "fle f0 (fadd b a)"
proof -
  obtain r where r: "a = FFin r" "0 \<le> r" using assms(1) by (auto simp: nonneg64_iff)
  show ?thesis
    using assms(2) r unfolding fle_zero [of b] by (elim disjE exE conjE) (simp_all add: fle_zero [of FPosInf] round64_sane)
qed

lemma nonneg_sane: "nonneg64 a \<Longrightarrow> fle f0 a"
  by (auto simp: nonneg64_iff fle_zero)

lemma sane_put: "sane_balances bs \<Longrightarrow> fle f0 (wb_balance wb) \<Longrightarrow> sane_balances (put_balance u c wb bs)"
  by (simp add: sane_balances_def)

lemma sane_touched:
  assumes "get_or_create_balance now u c bs = (wb, bs')" "sane_balances bs"
  shows "sane_balances bs' \<and> fle f0 (wb_balance wb)"
proof (cases "lookup_balance bs u c")
  case None
  have "fle f0 f0" by (simp add: fle_def f0_def)
  with None assms show ?thesis by (auto simp: get_or_create_balance_def Let_def intro: sane_put)
next
  case (Some x)
  with assms show ?thesis by (simp add: touched_known) (auto simp: sane_balances_def)
qed

lemma sane_run_op:
  assumes "run_op now op bs = (r, bs')" "sane_balances bs" "sane_op op"
  shows "sane_balances bs'"
  using assms
  by (cases op) (auto simp: deduct_funds_partitioned_def refund_funds_partitioned_def set_balance_def
    get_balance_with_version_def debit_def credit_def dest!: sane_touched
    intro!: sane_put fsub_sane fadd_sane intro: nonneg_sane split: prod.splits if_splits)

lemma explains_sane:
  "explains h bs \<Longrightarrow> (\<forall>(now, op, r) \<in> set h. sane_op op) \<Longrightarrow> sane_balances bs"
proof (induction h arbitrary: bs rule: rev_induct)
  case Nil
  then have "bs = new_balances" by (simp add: explains_def)
  then show ?case by (simp add: sane_balances_def new_balances_def lookup_balance_def)
next
  case (snoc x h)
  obtain now op r where x: "x = (now, op, r)" by (rule prod_cases3)
  obtain bs0 where "explains h bs0" "run_op now op bs0 = (r, bs)"
    using snoc.prems by (auto simp: x explains_def serial_run_snoc split: prod.splits)
  with snoc show ?case by (auto simp: x intro: sane_run_op)
qed

section \<open>Properties\<close>

text \<open>C2: every interleaving of goroutines on the wallet service, under locks, in partitions and
  optimistic ones with their conflicts, is a sequential run: the operations in the order of their
  critical sections, executed one after the other, give every operation the result it had and end in
  the balances that are there.\<close>

theorem wallets_serializable:
  assumes "service_reachable s"
  shows "serial_run (map (\<lambda>(now, op, _). (now, op)) (sv_log s)) new_balances =
    (map (\<lambda>(_, _, r). r) (sv_log s), sv_balances s)"
  using explained [OF assms] by (simp add: explains_def)

definition contended :: service where
  "contended = \<lparr>
     sv_balances = put_balance ''u'' ''USD'' \<lparr>wb_user_id = ''u'', wb_currency = ''USD'', wb_balance = FFin 4,
       wb_version = 2, wb_last_updated = 0, wb_transaction_count = 1\<rparr> new_balances,
     sv_procs = (\<lambda>_. Ready)(0 := Refund_Loaded ''u'' ''USD'' (FFin 3) 0 1),
     sv_log = [(0, Look ''u'' ''USD'', None), (0, Refund ''u'' ''USD'' (FFin 4), None)]\<rparr>"

lemma round64_4: "round64 4 = FFin 4"
  using round64_int [of 4] by simp

lemma contended_reachable: "service_reachable contended"
proof -
  let ?s1 = "move 0 (Refunding ''u'' ''USD'' (FFin 3) 0) new_service"
  obtain v bs where read: "refund_read 0 ''u'' ''USD'' new_balances = (v, bs)" by (cases "refund_read 0 ''u'' ''USD'' new_balances")
  let ?s2 = "move 0 (Refund_Loaded ''u'' ''USD'' (FFin 3) 0 v) (effect 0 (Look ''u'' ''USD'') None bs ?s1)"
  obtain r bs' where run: "run_op 0 (Refund ''u'' ''USD'' (FFin 4)) bs = (r, bs')" by (cases "run_op 0 (Refund ''u'' ''USD'' (FFin 4)) bs")
  let ?s3 = "effect 0 (Refund ''u'' ''USD'' (FFin 4)) r bs' ?s2"
  have "service_step new_service ?s1" by (rule start_refund) (simp add: new_service_def)
  moreover have "service_step ?s1 ?s2"
    by (rule read_refund) (simp_all add: move_def max_attempts_def new_service_def read)
  moreover have "service_step ?s2 ?s3"
    by (rule locked [where p = 1]) (use run in \<open>simp_all add: move_def effect_def new_service_def\<close>)
  ultimately have "service_reachable ?s3" by (meson service_reachable.intros)
  moreover have "?s3 = contended"
    using read run
    by (auto simp: contended_def move_def effect_def new_service_def refund_read_def refund_funds_partitioned_def
      get_or_create_balance_def Let_def credit_def f0_def new_balances_def round64_4 lookup_balance_def
      put_balance_def split: prod.splits)
  ultimately show ?thesis by simp
qed

lemma wallets_serializable_witness:
  "serial_run [(0, Look ''u'' ''USD''), (0, Refund ''u'' ''USD'' (FFin 4))] new_balances =
    ([None, None], sv_balances contended)"
  using wallets_serializable [OF contended_reachable] by (simp add: contended_def)

text \<open>No update is lost: at every moment of every interleaving the version of a balance is one more
  than the number of operations that changed it.\<close>

theorem no_lost_updates:
  assumes "service_reachable s" "lookup_balance (sv_balances s) u c = Some wb"
  shows "wb_version wb = 1 + int (length (changed u c (sv_log s)))"
  using explains_version [OF explained [OF assms(1)], of u c] assms(2) by (simp add: version_of_def)

lemma no_lost_updates_witness:
  "(2 :: int) = 1 + int (length (changed ''u'' ''USD'' (sv_log contended)))"
  using no_lost_updates [OF contended_reachable, of "''u''" "''USD''"] by (simp add: contended_def)

text \<open>C30: as long as every operation so far had an amount that is finite and not negative, no
  interleaving makes a balance negative or a NaN.\<close>

theorem balances_stay_nonneg:
  assumes "service_reachable s" "\<forall>(now, op, r) \<in> set (sv_log s). sane_op op"
    and "lookup_balance (sv_balances s) u c = Some wb"
  shows "fle f0 (wb_balance wb)"
  using explains_sane [OF explained [OF assms(1)] assms(2)] assms(3) by (auto simp: sane_balances_def)

lemma balances_stay_nonneg_witness: "fle f0 (FFin 4)"
  using balances_stay_nonneg [OF contended_reachable, of "''u''" "''USD''"]
  by (simp add: contended_def nonneg64_def)

end
