(* ===== verification/Event_Partitions.thy ===== *)
theory Event_Partitions
  imports Concurrent_Wallet Event_Model "HOL-Library.AList"
begin

text \<open>
  \<open>PartitionedEventProcessor\<close> of \<open>pkg/eventstore/concurrency_control.go\<close>: events are routed to a
  worker by a hash of the user who caused them; every worker takes them from a buffered channel, one
  at a time.  The wallet service a worker holds is never used, and all that processing an event does is
  log and sleep, so the effect of a worker is the list of the events it has processed.
\<close>

record partition_worker =
  pw_events :: "event list"      \<comment> \<open>\<open>eventChan\<close>\<close>
  pw_current :: "event option"   \<comment> \<open>the event in \<open>processEvent\<close>\<close>
  pw_processed :: "event list"
  pw_stopping :: bool            \<comment> \<open>\<open>stopChan\<close> is closed\<close>
  pw_ended :: bool               \<comment> \<open>\<open>start\<close> has returned\<close>

type_synonym processor = "(int \<times> partition_worker) list"

definition channel_capacity :: nat where
  "channel_capacity = 100"

definition new_worker :: partition_worker where
  "new_worker = \<lparr>pw_events = [], pw_current = None, pw_processed = [], pw_stopping = False, pw_ended = False\<rparr>"

definition new_partitioned_processor :: "int \<Rightarrow> processor" where
  "new_partitioned_processor n = map (\<lambda>i. (i, new_worker)) [1..n]"

text \<open>The partition of a user; with no partitions Go's remainder panics.\<close>

definition partition_for_user :: "processor \<Rightarrow> string \<Rightarrow> int go_run" where
  "partition_for_user pep user =
     (let n = int (length pep)
      in if n = 0 then Panicked else Returned (go_rem (sint (user_hash user)) n + 1))"

definition partition_not_found :: "int \<Rightarrow> go_error" where
  "partition_not_found i = ''partition '' @ show_int i @ '' not found''"

definition partition_full :: "int \<Rightarrow> go_error" where
  "partition_full i = ''partition '' @ show_int i @ '' event channel full''"

definition process_event :: "event \<Rightarrow> processor \<Rightarrow> (go_error option \<times> processor) go_run" where
  "process_event e pep =
     (if ev_caused_by e = '''' then Returned (Some ''event missing userID for partitioning'', pep)
      else run_bind (partition_for_user pep (ev_caused_by e)) (\<lambda>i.
        case map_of pep i of
          None \<Rightarrow> Returned (Some (partition_not_found i), pep)
        | Some w \<Rightarrow>
            if length (pw_events w) < channel_capacity
            then Returned (None, AList.update i (w\<lparr>pw_events := pw_events w @ [e]\<rparr>) pep)
            else Returned (Some (partition_full i), pep)))"

text \<open>One turn of \<open>start\<close>: take an event, finish it, or see the closed \<open>stopChan\<close> and return.\<close>

inductive worker_step :: "partition_worker \<Rightarrow> partition_worker \<Rightarrow> bool" where
  take: "\<not> pw_ended w \<Longrightarrow> pw_current w = None \<Longrightarrow> pw_events w = e # es \<Longrightarrow>
    worker_step w (w\<lparr>pw_events := es, pw_current := Some e\<rparr>)"
| finish: "pw_current w = Some e \<Longrightarrow>
    worker_step w (w\<lparr>pw_current := None, pw_processed := pw_processed w @ [e]\<rparr>)"
| quit: "\<not> pw_ended w \<Longrightarrow> pw_current w = None \<Longrightarrow> pw_stopping w \<Longrightarrow> worker_step w (w\<lparr>pw_ended := True\<rparr>)"

text \<open>\<open>Stop\<close> closes every \<open>stopChan\<close>; closing one again panics.\<close>

definition stop_processor :: "processor \<Rightarrow> processor go_run" where
  "stop_processor pep =
     (if \<exists>(i, w) \<in> set pep. pw_stopping w then Panicked
      else Returned (map (\<lambda>(i, w). (i, w\<lparr>pw_stopping := True\<rparr>)) pep))"

section \<open>Runs\<close>

text \<open>The processor together with the events it has accepted, in order.\<close>

inductive partition_step :: "processor \<times> event list \<Rightarrow> processor \<times> event list \<Rightarrow> bool" where
  accept: "process_event e pep = Returned (None, pep') \<Longrightarrow> partition_step (pep, acc) (pep', acc @ [e])"
| work: "map_of pep i = Some w \<Longrightarrow> worker_step w w' \<Longrightarrow>
    partition_step (pep, acc) (AList.update i w' pep, acc)"
| stop: "stop_processor pep = Returned pep' \<Longrightarrow> partition_step (pep, acc) (pep', acc)"

inductive partition_reachable :: "int \<Rightarrow> processor \<times> event list \<Rightarrow> bool" for n where
  init: "partition_reachable n (new_partitioned_processor n, [])"
| step: "partition_reachable n s \<Longrightarrow> partition_step s s' \<Longrightarrow> partition_reachable n s'"

section \<open>Where a user goes\<close>

lemma go_rem_cases:
  assumes "0 < b"
  obtains m where "0 \<le> m" "m < b" "m = 0 \<longleftrightarrow> b dvd a" "go_rem a b = (if a < 0 then - m else m)"
proof (rule that [of "\<bar>a\<bar> mod b"])
  show "0 \<le> \<bar>a\<bar> mod b" "\<bar>a\<bar> mod b < b" using assms by simp_all
  show "\<bar>a\<bar> mod b = 0 \<longleftrightarrow> b dvd a" by (simp add: mod_eq_0_iff_dvd)
  show "go_rem a b = (if a < 0 then - (\<bar>a\<bar> mod b) else \<bar>a\<bar> mod b)"
    using assms by (simp add: go_rem_def sgn_if)
qed

lemma go_rem_bounds: "0 < b \<Longrightarrow> - b < go_rem a b \<and> go_rem a b < b"
  by (rule go_rem_cases [of b a]) auto

lemma go_rem_nonneg: "0 < b \<Longrightarrow> 0 \<le> go_rem a b \<longleftrightarrow> 0 \<le> a \<or> b dvd a"
  by (rule go_rem_cases [of b a]) auto

text \<open>What is routed to a partition: the events of a worker, oldest first.\<close>

definition worker_events :: "partition_worker \<Rightarrow> event list" where
  "worker_events w = pw_processed w @ (case pw_current w of None \<Rightarrow> [] | Some e \<Rightarrow> [e]) @ pw_events w"

lemma worker_step_events: "worker_step w w' \<Longrightarrow> worker_events w' = worker_events w"
  by (induction rule: worker_step.induct) (simp_all add: worker_events_def)

lemma worker_step_bounded:
  "worker_step w w' \<Longrightarrow> length (pw_events w) \<le> channel_capacity \<Longrightarrow> length (pw_events w') \<le> channel_capacity"
  by (induction rule: worker_step.induct) simp_all

definition partition_inv :: "int \<Rightarrow> processor \<times> event list \<Rightarrow> bool" where
  "partition_inv n = (\<lambda>(pep, acc). map fst pep = [1..n] \<and>
     (\<forall>i w. map_of pep i = Some w \<longrightarrow>
        length (pw_events w) \<le> channel_capacity \<and>
        worker_events w = filter (\<lambda>e. go_rem (sint (user_hash (ev_caused_by e))) n + 1 = i) acc))"

lemma map_fst_update: "map_of pep i = Some w \<Longrightarrow> map fst (AList.update i w' pep) = map fst pep"
  by (induction pep) auto

lemma process_event_accepts:
  assumes "process_event e pep = Returned (None, pep')"
  obtains i w where "partition_for_user pep (ev_caused_by e) = Returned i" "map_of pep i = Some w"
    "length (pw_events w) < channel_capacity" "pep' = AList.update i (w\<lparr>pw_events := pw_events w @ [e]\<rparr>) pep"
  using assms
  by (cases "partition_for_user pep (ev_caused_by e)") (auto simp: process_event_def split: if_splits option.splits)

lemma processor_size:
  assumes "map fst pep = [1..n]" "map_of pep i = Some w"
  shows "int (length pep) = n"
proof -
  have "pep \<noteq> []" using assms(2) by auto
  moreover have "length pep = nat n" using arg_cong [OF assms(1), of length] by simp
  ultimately show ?thesis by (cases "0 \<le> n") auto
qed

lemma partition_inv_step: "partition_step s s' \<Longrightarrow> partition_inv n s \<Longrightarrow> partition_inv n s'"
proof (induction rule: partition_step.induct)
  case (accept e pep pep' acc)
  obtain i w where i: "partition_for_user pep (ev_caused_by e) = Returned i" "map_of pep i = Some w"
    "length (pw_events w) < channel_capacity" "pep' = AList.update i (w\<lparr>pw_events := pw_events w @ [e]\<rparr>) pep"
    using accept.hyps by (rule process_event_accepts)
  have keys: "map fst pep = [1..n]" using accept.prems by (simp add: partition_inv_def)
  have n: "int (length pep) = n" by (rule processor_size [OF keys i(2)])
  have i_eq: "i = go_rem (sint (user_hash (ev_caused_by e))) n + 1"
    using i(1) n by (auto simp: partition_for_user_def Let_def split: if_splits)
  have "map fst pep' = [1..n]" using i(2,4) keys by (simp add: map_fst_update)
  moreover have "length (pw_events v) \<le> channel_capacity \<and>
      worker_events v = filter (\<lambda>e. go_rem (sint (user_hash (ev_caused_by e))) n + 1 = j) (acc @ [e])"
    if v: "map_of pep' j = Some v" for j v
  proof (cases "j = i")
    case True
    then have "v = w\<lparr>pw_events := pw_events w @ [e]\<rparr>" using v i(4) by (simp add: update_conv)
    then show ?thesis using accept.prems i(2,3) i_eq True by (simp add: partition_inv_def worker_events_def)
  next
    case False
    then have "map_of pep j = Some v" using v i(4) by (simp add: update_conv)
    then show ?thesis using accept.prems i_eq False by (simp add: partition_inv_def)
  qed
  ultimately show ?case by (simp add: partition_inv_def)
next
  case (work pep i w w' acc)
  then show ?case
    using worker_step_events [OF work.hyps(2)] worker_step_bounded [OF work.hyps(2)]
    by (auto simp: partition_inv_def map_fst_update update_conv)
next
  case (stop pep pep' acc)
  then have "pep' = map (\<lambda>(i, w). (i, w\<lparr>pw_stopping := True\<rparr>)) pep"
    by (simp add: stop_processor_def split: if_splits)
  moreover have "map_of (map (\<lambda>(i, w). (i, w\<lparr>pw_stopping := True\<rparr>)) pep) i =
      map_option (\<lambda>w. w\<lparr>pw_stopping := True\<rparr>) (map_of pep i)" for i
    by (induction pep) auto
  ultimately show ?case
    using stop.prems by (auto simp: partition_inv_def worker_events_def comp_def case_prod_beta)
qed

lemma partition_inv_new: "partition_inv n (new_partitioned_processor n, [])"
  by (auto simp: partition_inv_def new_partitioned_processor_def new_worker_def worker_events_def comp_def
    dest!: map_of_SomeD)

lemma partition_inv_reachable: "partition_reachable n s \<Longrightarrow> partition_inv n s"
  by (induction rule: partition_reachable.induct) (blast intro: partition_inv_new partition_inv_step)+

section \<open>Properties\<close>

text \<open>C15: order per user: in every run, the events of a user that were accepted are, in the order they
  were accepted, the events of that user at the one partition the user hashes to, those processed first,
  then the one in progress, then those in the channel; no other partition sees any, and no channel
  holds more than a hundred events.\<close>

theorem user_events_in_order:
  assumes "partition_reachable n (pep, acc)" "map_of pep i = Some w"
  shows "filter (\<lambda>e. ev_caused_by e = u) (worker_events w) =
      (if i = go_rem (sint (user_hash u)) n + 1 then filter (\<lambda>e. ev_caused_by e = u) acc else []) \<and>
    length (pw_events w) \<le> 100"
proof -
  have "worker_events w = filter (\<lambda>e. go_rem (sint (user_hash (ev_caused_by e))) n + 1 = i) acc"
    "length (pw_events w) \<le> channel_capacity"
    using partition_inv_reachable [OF assms(1)] assms(2) by (simp_all add: partition_inv_def)
  then show ?thesis by (auto simp: channel_capacity_def filter_empty_conv intro!: filter_cong)
qed

definition user1_event :: event where
  "user1_event = (example_event ''w'' 1)\<lparr>ev_caused_by := ''user-1''\<rparr>"

lemma user1_hash: "user_hash ''user-1'' = 3458935471"
  by code_simp

lemma user1_accepted:
  "process_event user1_event (new_partitioned_processor 4) =
    Returned (None, AList.update 4 (new_worker\<lparr>pw_events := [user1_event]\<rparr>) (new_partitioned_processor 4))"
proof -
  have "[1..4] = [1, 2, 3, 4 :: int]" by code_simp
  then show ?thesis
    by (simp add: process_event_def user1_event_def partition_for_user_def user1_hash go_rem_def
      new_partitioned_processor_def new_worker_def channel_capacity_def)
qed

lemma user_events_in_order_witness:
  "filter (\<lambda>e. ev_caused_by e = ''user-1'') [user1_event] = [user1_event]"
proof -
  have "partition_reachable 4 (AList.update 4 (new_worker\<lparr>pw_events := [user1_event]\<rparr>) (new_partitioned_processor 4),
      [] @ [user1_event])"
    by (intro partition_reachable.step [OF partition_reachable.init] accept user1_accepted)
  from user_events_in_order [OF this, of 4 _ "''user-1''"] show ?thesis
    by (simp add: update_conv worker_events_def new_worker_def user1_hash go_rem_def user1_event_def)
qed

text \<open>C40: the partition of a user need not exist: when the 64-bit hash of the user id wraps to a
  negative number that the number of partitions does not divide, the remainder is negative, the
  partition number is not positive, and every event of that user is refused; with no partitions at
  all the call panics.\<close>

theorem negative_hash_refused:
  assumes "0 < n" "map fst pep = [1..n]" "ev_caused_by e = u" "u \<noteq> ''''"
    and "sint (user_hash u) < 0" "\<not> n dvd sint (user_hash u)"
  shows "go_rem (sint (user_hash u)) n + 1 \<le> 0 \<and>
    process_event e pep = Returned (Some (partition_not_found (go_rem (sint (user_hash u)) n + 1)), pep) \<and>
    process_event e [] = Panicked"
proof -
  have neg: "go_rem (sint (user_hash u)) n + 1 \<le> 0"
    using go_rem_nonneg [OF assms(1), of "sint (user_hash u)"] assms(5,6) by linarith
  have "length pep = nat n" using arg_cong [OF assms(2), of length] by simp
  then have "partition_for_user pep u = Returned (go_rem (sint (user_hash u)) n + 1)"
    using assms(1) by (simp add: partition_for_user_def)
  moreover have "map_of pep (go_rem (sint (user_hash u)) n + 1) = None"
    using neg assms(2) by (simp add: map_of_eq_None_iff flip: set_map)
  ultimately show ?thesis
    using neg assms(3,4) by (simp add: process_event_def partition_for_user_def)
qed

lemma uuid_hash: "sint (user_hash ''550e8400-e29b-41d4-a716-446655440000'') = - 7367939282728386611"
  by code_simp

lemma negative_hash_refused_witness:
  "process_event ((example_event ''w'' 1)\<lparr>ev_caused_by := ''550e8400-e29b-41d4-a716-446655440000''\<rparr>) (new_partitioned_processor 4) =
    Returned (Some (partition_not_found (- 2)), new_partitioned_processor 4)"
  using negative_hash_refused [of 4 "new_partitioned_processor 4"
    "(example_event ''w'' 1)\<lparr>ev_caused_by := ''550e8400-e29b-41d4-a716-446655440000''\<rparr>"
    "''550e8400-e29b-41d4-a716-446655440000''"]
  by (simp add: uuid_hash go_rem_def new_partitioned_processor_def comp_def)

end
