(* ===== verification/Kafka_Events.thy ===== *)
theory Kafka_Events
  imports Go_Json
begin

text \<open>
  \<open>internal/events\<close>: the events of the services (\<open>types.go\<close>), what \<open>KafkaPublisher\<close> writes
  (\<open>publisher.go\<close>) and what \<open>KafkaSubscriber\<close> does with a message (\<open>subscriber.go\<close>).

  The broker is not modelled: a write returns an error or not, as an argument says.  The formatting of
  times (\<open>RFC3339\<close>) and the text form of uuids belong to libraries; \<open>format_time\<close> is an argument,
  a uuid is its text.
\<close>

section \<open>Events\<close>

definition PaymentInitiated :: string where "PaymentInitiated = ''payment.initiated''"
definition PaymentCompleted :: string where "PaymentCompleted = ''payment.completed''"
definition PaymentFailed :: string where "PaymentFailed = ''payment.failed''"
definition WalletDeducted :: string where "WalletDeducted = ''wallet.deducted''"
definition WalletRefunded :: string where "WalletRefunded = ''wallet.refunded''"
definition WalletValidated :: string where "WalletValidated = ''wallet.validated''"
definition WalletInsufficient :: string where "WalletInsufficient = ''wallet.insufficient_funds''"
definition GatewayRequestSent :: string where "GatewayRequestSent = ''gateway.request_sent''"
definition GatewayResponseReceived :: string where "GatewayResponseReceived = ''gateway.response_received''"
definition GatewayError :: string where "GatewayError = ''gateway.error''"
definition MetricsCollected :: string where "MetricsCollected = ''metrics.collected''"
definition AlertTriggered :: string where "AlertTriggered = ''alert.triggered''"

lemmas event_types = PaymentInitiated_def PaymentCompleted_def PaymentFailed_def WalletDeducted_def
  WalletRefunded_def WalletValidated_def WalletInsufficient_def GatewayRequestSent_def
  GatewayResponseReceived_def GatewayError_def MetricsCollected_def AlertTriggered_def

type_synonym metadata = "(string \<times> json) list"

record base_event =
  be_id :: uuid
  be_type :: string
  be_aggregate_id :: uuid
  be_version :: int
  be_timestamp :: time
  be_correlation_id :: uuid
  be_metadata :: metadata

text \<open>The structs that embed \<open>BaseEvent\<close>, one constructor each, with their fields in order.\<close>

record payment_initiated =
  pi_user_id :: uuid
  pi_amount :: int64
  pi_currency :: string
  pi_service_id :: string
  pi_description :: string

record payment_completed =
  pc_user_id :: uuid
  pc_amount :: int64
  pc_currency :: string
  pc_gateway_txn_id :: string
  pc_processed_at :: time

record payment_failed =
  pf_user_id :: uuid
  pf_amount :: int64
  pf_currency :: string
  pf_reason :: string
  pf_error_code :: string

record wallet_changed =
  wc_user_id :: uuid
  wc_amount :: int64
  wc_currency :: string
  wc_previous_balance :: int64
  wc_new_balance :: int64
  wc_payment_id :: uuid

record gateway_response_received =
  gr_payment_id :: uuid
  gr_gateway_txn_id :: string
  gr_status :: string
  gr_response_code :: string
  gr_response_data :: metadata
  gr_processing_time :: duration

record metrics_collected =
  mc_metric_type :: string
  mc_metric_name :: string
  mc_value :: float64
  mc_labels :: metadata
  mc_dimensions :: metadata

datatype domain_event =
    Base_Event base_event
  | Payment_Initiated_Event base_event payment_initiated
  | Payment_Completed_Event base_event payment_completed
  | Payment_Failed_Event base_event payment_failed
  | Wallet_Deducted_Event base_event wallet_changed
  | Wallet_Refunded_Event base_event wallet_changed string
  | Gateway_Response_Event base_event gateway_response_received
  | Metrics_Collected_Event base_event metrics_collected

section \<open>Encoding and decoding\<close>

text \<open>Of a map the values are checked, at any depth: a float that is no number has no form in JSON.\<close>

fun json_error :: "json \<Rightarrow> go_error option" where
  "json_error (JFloat f) = (case j_float f of Inl x \<Rightarrow> Some x | Inr _ \<Rightarrow> None)"
| "json_error (JArr js) = (case filter (\<lambda>x. x \<noteq> None) (map json_error js) of [] \<Rightarrow> None | x # _ \<Rightarrow> x)"
| "json_error (JObj kvs) =
     (case filter (\<lambda>x. x \<noteq> None) (map (\<lambda>(k, j). json_error j) kvs) of [] \<Rightarrow> None | x # _ \<Rightarrow> x)"
| "json_error j = None"

definition j_map :: "metadata \<Rightarrow> json go_result" where
  "j_map kvs = (case json_error (JObj kvs) of Some x \<Rightarrow> Inl x | None \<Rightarrow> Inr (JObj kvs))"

text \<open>Decoded into an \<open>interface{}\<close> every number is a \<open>float64\<close>.\<close>

fun generic :: "json \<Rightarrow> json" where
  "generic (JInt i) = JFloat (f_of_int i)"
| "generic (JArr js) = JArr (map generic js)"
| "generic (JObj kvs) = JObj (map (\<lambda>(k, j). (k, generic j)) kvs)"
| "generic j = j"

fun d_map :: "json \<Rightarrow> metadata go_result" where
  "d_map (JObj kvs) = Inr (map (\<lambda>(k, j). (k, generic j)) kvs)"
| "d_map JNull = Inr []"
| "d_map _ = Inl type_mismatch"

fun d_str_map :: "json \<Rightarrow> metadata go_result" where
  "d_str_map (JObj kvs) = rmap_list (\<lambda>(k, j). rbind (d_str j) (\<lambda>s. Inr (k, JStr s))) kvs"
| "d_str_map JNull = Inr []"
| "d_str_map _ = Inl type_mismatch"

definition j_i64 :: "int64 \<Rightarrow> json go_result" where
  "j_i64 w = j_int (sint w)"

text \<open>A number that does not fit an \<open>int64\<close> field is an error.\<close>

definition d_i64 :: "json \<Rightarrow> int64 go_result" where
  "d_i64 j = rbind (d_int j) (\<lambda>i. if - (2 ^ 63) \<le> i \<and> i < 2 ^ 63 then Inr (word_of_int i) else Inl type_mismatch)"

text \<open>The fields of the embedded \<open>BaseEvent\<close> are fields of the struct; empty metadata are left out.\<close>

definition base_fields :: "base_event \<Rightarrow> (string \<times> json go_result) list" where
  "base_fields b =
     [(''id'', j_str (be_id b)), (''type'', j_str (be_type b)), (''aggregate_id'', j_str (be_aggregate_id b)),
      (''version'', j_int (be_version b)), (''timestamp'', j_time (be_timestamp b)),
      (''correlation_id'', j_str (be_correlation_id b))] @
     (if be_metadata b = [] then [] else [(''metadata'', j_map (be_metadata b))])"

definition decode_base :: "(string \<times> json) list \<Rightarrow> base_event go_result" where
  "decode_base kvs =
     rbind (d_str (j_field kvs ''id'')) (\<lambda>i. rbind (d_str (j_field kvs ''type'')) (\<lambda>t.
     rbind (d_str (j_field kvs ''aggregate_id'')) (\<lambda>a. rbind (d_int (j_field kvs ''version'')) (\<lambda>v.
     rbind (d_time (j_field kvs ''timestamp'')) (\<lambda>ts. rbind (d_str (j_field kvs ''correlation_id'')) (\<lambda>c.
     rbind (d_map (j_field kvs ''metadata'')) (\<lambda>m.
       Inr \<lparr>be_id = i, be_type = t, be_aggregate_id = a, be_version = v, be_timestamp = ts,
            be_correlation_id = c, be_metadata = m\<rparr>)))))))"

definition wallet_fields :: "wallet_changed \<Rightarrow> (string \<times> json go_result) list" where
  "wallet_fields w =
     [(''user_id'', j_str (wc_user_id w)), (''amount'', j_i64 (wc_amount w)), (''currency'', j_str (wc_currency w)),
      (''previous_balance'', j_i64 (wc_previous_balance w)), (''new_balance'', j_i64 (wc_new_balance w)),
      (''payment_id'', j_str (wc_payment_id w))]"

definition decode_wallet :: "(string \<times> json) list \<Rightarrow> wallet_changed go_result" where
  "decode_wallet kvs =
     rbind (d_str (j_field kvs ''user_id'')) (\<lambda>u. rbind (d_i64 (j_field kvs ''amount'')) (\<lambda>a.
     rbind (d_str (j_field kvs ''currency'')) (\<lambda>c. rbind (d_i64 (j_field kvs ''previous_balance'')) (\<lambda>pb.
     rbind (d_i64 (j_field kvs ''new_balance'')) (\<lambda>nb. rbind (d_str (j_field kvs ''payment_id'')) (\<lambda>p.
       Inr \<lparr>wc_user_id = u, wc_amount = a, wc_currency = c, wc_previous_balance = pb, wc_new_balance = nb,
            wc_payment_id = p\<rparr>))))))"

fun encode_event :: "domain_event \<Rightarrow> json go_result" where
  "encode_event (Base_Event b) = j_struct (base_fields b)"
| "encode_event (Payment_Initiated_Event b e) = j_struct (base_fields b @
     [(''user_id'', j_str (pi_user_id e)), (''amount'', j_i64 (pi_amount e)), (''currency'', j_str (pi_currency e)),
      (''service_id'', j_str (pi_service_id e)), (''description'', j_str (pi_description e))])"
| "encode_event (Payment_Completed_Event b e) = j_struct (base_fields b @
     [(''user_id'', j_str (pc_user_id e)), (''amount'', j_i64 (pc_amount e)), (''currency'', j_str (pc_currency e)),
      (''gateway_txn_id'', j_str (pc_gateway_txn_id e)), (''processed_at'', j_time (pc_processed_at e))])"
| "encode_event (Payment_Failed_Event b e) = j_struct (base_fields b @
     [(''user_id'', j_str (pf_user_id e)), (''amount'', j_i64 (pf_amount e)), (''currency'', j_str (pf_currency e)),
      (''reason'', j_str (pf_reason e)), (''error_code'', j_str (pf_error_code e))])"
| "encode_event (Wallet_Deducted_Event b e) = j_struct (base_fields b @ wallet_fields e)"
| "encode_event (Wallet_Refunded_Event b e reason) =
     j_struct (base_fields b @ wallet_fields e @ [(''reason'', j_str reason)])"
| "encode_event (Gateway_Response_Event b e) = j_struct (base_fields b @
     [(''payment_id'', j_str (gr_payment_id e)), (''gateway_txn_id'', j_str (gr_gateway_txn_id e)),
      (''status'', j_str (gr_status e)), (''response_code'', j_str (gr_response_code e)),
      (''response_data'', j_map (gr_response_data e)), (''processing_time'', j_int (gr_processing_time e))])"
| "encode_event (Metrics_Collected_Event b e) = j_struct (base_fields b @
     [(''metric_type'', j_str (mc_metric_type e)), (''metric_name'', j_str (mc_metric_name e)),
      (''value'', j_float (mc_value e)), (''labels'', j_map (mc_labels e)), (''dimensions'', j_map (mc_dimensions e))])"

section \<open>Publishing\<close>

record kafka_message =
  km_key :: string
  km_value :: json
  km_headers :: "(string \<times> string) list"

definition kafka_message_of :: "(time \<Rightarrow> string) \<Rightarrow> base_event \<Rightarrow> json \<Rightarrow> kafka_message" where
  "kafka_message_of format_time b data =
     \<lparr>km_key = be_aggregate_id b, km_value = data,
      km_headers = [(''event_type'', be_type b), (''correlation_id'', be_correlation_id b),
        (''timestamp'', format_time (be_timestamp b))]\<rparr>"

text \<open>The type assertion to \<open>BaseEvent\<close> holds for that type alone, not for a struct that embeds it.\<close>

fun as_base_event :: "domain_event \<Rightarrow> base_event option" where
  "as_base_event (Base_Event b) = Some b"
| "as_base_event _ = None"

text \<open>The result, and the messages handed to the writer.\<close>

definition publish ::
  "(time \<Rightarrow> string) \<Rightarrow> go_error option \<Rightarrow> domain_event \<Rightarrow> go_error option \<times> kafka_message list" where
  "publish format_time write_err e =
     (case as_base_event e of
        None \<Rightarrow> (Some ''event must embed BaseEvent'', [])
      | Some b \<Rightarrow>
          (case encode_event e of
             Inl x \<Rightarrow> (Some (''failed to marshal event: '' @ x), [])
           | Inr data \<Rightarrow>
               (case write_err of
                  Some x \<Rightarrow> (Some (''failed to publish event: '' @ x), [kafka_message_of format_time b data])
                | None \<Rightarrow> (None, [kafka_message_of format_time b data]))))"

fun batch_messages :: "(time \<Rightarrow> string) \<Rightarrow> domain_event list \<Rightarrow> kafka_message list option" where
  "batch_messages format_time [] = Some []"
| "batch_messages format_time (e # es) =
     (case as_base_event e of
        None \<Rightarrow> None
      | Some b \<Rightarrow>
          (case encode_event e of
             Inl _ \<Rightarrow> batch_messages format_time es
           | Inr data \<Rightarrow> map_option ((#) (kafka_message_of format_time b data)) (batch_messages format_time es)))"

definition publish_batch ::
  "(time \<Rightarrow> string) \<Rightarrow> go_error option \<Rightarrow> domain_event list \<Rightarrow> go_error option \<times> kafka_message list" where
  "publish_batch format_time write_err es =
     (case batch_messages format_time es of
        None \<Rightarrow> (Some ''all events must embed BaseEvent'', [])
      | Some ms \<Rightarrow>
          (case write_err of
             Some x \<Rightarrow> (Some (''failed to publish event batch: '' @ x), ms)
           | None \<Rightarrow> (None, ms)))"

section \<open>Subscribing\<close>

definition deserialize_event :: "string \<Rightarrow> json \<Rightarrow> domain_event go_result" where
  "deserialize_event t data =
     (if t = PaymentInitiated then
        rbind (d_struct data) (\<lambda>kvs. rbind (decode_base kvs) (\<lambda>b.
        rbind (d_str (j_field kvs ''user_id'')) (\<lambda>u. rbind (d_i64 (j_field kvs ''amount'')) (\<lambda>a.
        rbind (d_str (j_field kvs ''currency'')) (\<lambda>c. rbind (d_str (j_field kvs ''service_id'')) (\<lambda>s.
        rbind (d_str (j_field kvs ''description'')) (\<lambda>d.
          Inr (Payment_Initiated_Event b \<lparr>pi_user_id = u, pi_amount = a, pi_currency = c, pi_service_id = s,
            pi_description = d\<rparr>))))))))
      else if t = PaymentCompleted then
        rbind (d_struct data) (\<lambda>kvs. rbind (decode_base kvs) (\<lambda>b.
        rbind (d_str (j_field kvs ''user_id'')) (\<lambda>u. rbind (d_i64 (j_field kvs ''amount'')) (\<lambda>a.
        rbind (d_str (j_field kvs ''currency'')) (\<lambda>c. rbind (d_str (j_field kvs ''gateway_txn_id'')) (\<lambda>g.
        rbind (d_time (j_field kvs ''processed_at'')) (\<lambda>p.
          Inr (Payment_Completed_Event b \<lparr>pc_user_id = u, pc_amount = a, pc_currency = c, pc_gateway_txn_id = g,
            pc_processed_at = p\<rparr>))))))))
      else if t = PaymentFailed then
        rbind (d_struct data) (\<lambda>kvs. rbind (decode_base kvs) (\<lambda>b.
        rbind (d_str (j_field kvs ''user_id'')) (\<lambda>u. rbind (d_i64 (j_field kvs ''amount'')) (\<lambda>a.
        rbind (d_str (j_field kvs ''currency'')) (\<lambda>c. rbind (d_str (j_field kvs ''reason'')) (\<lambda>r.
        rbind (d_str (j_field kvs ''error_code'')) (\<lambda>x.
          Inr (Payment_Failed_Event b \<lparr>pf_user_id = u, pf_amount = a, pf_currency = c, pf_reason = r,
            pf_error_code = x\<rparr>))))))))
      else if t = WalletDeducted then
        rbind (d_struct data) (\<lambda>kvs. rbind (decode_base kvs) (\<lambda>b. rbind (decode_wallet kvs) (\<lambda>w.
          Inr (Wallet_Deducted_Event b w))))
      else if t = WalletRefunded then
        rbind (d_struct data) (\<lambda>kvs. rbind (decode_base kvs) (\<lambda>b. rbind (decode_wallet kvs) (\<lambda>w.
        rbind (d_str (j_field kvs ''reason'')) (\<lambda>r. Inr (Wallet_Refunded_Event b w r)))))
      else if t = GatewayResponseReceived then
        rbind (d_struct data) (\<lambda>kvs. rbind (decode_base kvs) (\<lambda>b.
        rbind (d_str (j_field kvs ''payment_id'')) (\<lambda>p. rbind (d_str (j_field kvs ''gateway_txn_id'')) (\<lambda>g.
        rbind (d_str (j_field kvs ''status'')) (\<lambda>s. rbind (d_str (j_field kvs ''response_code'')) (\<lambda>r.
        rbind (d_map (j_field kvs ''response_data'')) (\<lambda>d. rbind (d_int (j_field kvs ''processing_time'')) (\<lambda>pt.
          Inr (Gateway_Response_Event b \<lparr>gr_payment_id = p, gr_gateway_txn_id = g, gr_status = s,
            gr_response_code = r, gr_response_data = d, gr_processing_time = pt\<rparr>)))))))))
      else if t = MetricsCollected then
        rbind (d_struct data) (\<lambda>kvs. rbind (decode_base kvs) (\<lambda>b.
        rbind (d_str (j_field kvs ''metric_type'')) (\<lambda>mt. rbind (d_str (j_field kvs ''metric_name'')) (\<lambda>mn.
        rbind (d_float (j_field kvs ''value'')) (\<lambda>v. rbind (d_str_map (j_field kvs ''labels'')) (\<lambda>l.
        rbind (d_map (j_field kvs ''dimensions'')) (\<lambda>d.
          Inr (Metrics_Collected_Event b \<lparr>mc_metric_type = mt, mc_metric_name = mn, mc_value = v, mc_labels = l,
            mc_dimensions = d\<rparr>))))))))
      else Inl (''unknown event type: '' @ t))"

text \<open>The handlers per event type, in the order they were registered; \<open>'h\<close> names a handler.\<close>

type_synonym 'h handlers = "string \<Rightarrow> 'h list"

definition subscribe :: "string \<Rightarrow> 'h \<Rightarrow> 'h handlers \<Rightarrow> 'h handlers" where
  "subscribe t h hs = hs(t := hs t @ [h])"

text \<open>The result, and the handlers run with the event they are given; their errors are only logged.\<close>

definition process_message ::
  "'h handlers \<Rightarrow> kafka_message \<Rightarrow> go_error option \<times> ('h \<times> domain_event) list" where
  "process_message hs msg =
     (let t = (case map_of (km_headers msg) ''event_type'' of None \<Rightarrow> '''' | Some t \<Rightarrow> t)
      in if t = '''' then (Some ''event_type header not found'', [])
         else if hs t = [] then (None, [])
         else (case deserialize_event t (km_value msg) of
                 Inl x \<Rightarrow> (Some (''failed to deserialize event: '' @ x), [])
               | Inr e \<Rightarrow> (None, map (\<lambda>h. (h, e)) (hs t))))"

text \<open>The loop of \<open>Start\<close> over what \<open>ReadMessage\<close> returns until the subscriber is stopped.\<close>

fun subscriber_loop :: "'h handlers \<Rightarrow> kafka_message go_result list \<Rightarrow> ('h \<times> domain_event) list" where
  "subscriber_loop hs [] = []"
| "subscriber_loop hs (Inl _ # ms) = subscriber_loop hs ms"
| "subscriber_loop hs (Inr msg # ms) = snd (process_message hs msg) @ subscriber_loop hs ms"

section \<open>The handlers of the server\<close>

text \<open>\<open>registerMetricsEventHandlers\<close> of \<open>cmd/main.go\<close> and \<open>Start\<close> of the saga orchestrator.\<close>

datatype server_handler = Metrics_Handler string | Saga_Handler string

definition register_metrics_event_handlers :: "server_handler handlers \<Rightarrow> server_handler handlers" where
  "register_metrics_event_handlers =
     subscribe GatewayResponseReceived (Metrics_Handler GatewayResponseReceived) \<circ>
     subscribe WalletRefunded (Metrics_Handler WalletRefunded) \<circ>
     subscribe WalletDeducted (Metrics_Handler WalletDeducted) \<circ>
     subscribe PaymentFailed (Metrics_Handler PaymentFailed) \<circ>
     subscribe PaymentCompleted (Metrics_Handler PaymentCompleted) \<circ>
     subscribe PaymentInitiated (Metrics_Handler PaymentInitiated)"

definition start_orchestrator_handlers :: "server_handler handlers \<Rightarrow> server_handler handlers" where
  "start_orchestrator_handlers =
     subscribe PaymentFailed (Saga_Handler PaymentFailed) \<circ>
     subscribe PaymentInitiated (Saga_Handler PaymentInitiated)"

definition server_handlers :: "server_handler handlers" where
  "server_handlers = start_orchestrator_handlers (register_metrics_event_handlers (\<lambda>_. []))"

lemmas handler_defs = server_handlers_def start_orchestrator_handlers_def register_metrics_event_handlers_def
  subscribe_def

section \<open>What gets through\<close>

lemma published_message:
  assumes "msg \<in> set (snd (publish format_time write_err e))"
  obtains b data where "e = Base_Event b" "msg = kafka_message_of format_time b data"
  using assms by (cases e) (auto simp: publish_def split: sum.splits option.splits)

lemma batch_message:
  assumes "batch_messages format_time es = Some ms" "msg \<in> set ms"
  obtains b data where "Base_Event b \<in> set es" "msg = kafka_message_of format_time b data"
proof -
  have "\<exists>b data. Base_Event b \<in> set es \<and> msg = kafka_message_of format_time b data"
    using assms
  proof (induction es arbitrary: ms)
    case (Cons e es)
    then show ?case
      by (cases e) (fastforce split: sum.splits option.splits)+
  qed simp
  then show ?thesis using that by blast
qed

lemma kafka_type [simp]: "map_of (km_headers (kafka_message_of format_time b data)) ''event_type'' = Some (be_type b)"
  by (simp add: kafka_message_of_def)

lemma no_handler:
  assumes "t \<in> {WalletValidated, WalletInsufficient, GatewayRequestSent, GatewayError, AlertTriggered}"
  shows "server_handlers t = []" "t \<noteq> ''''"
  using assms by (auto simp: event_types handler_defs)

lemma message_ignored:
  assumes "be_type b \<in> {WalletValidated, WalletInsufficient, GatewayRequestSent, GatewayError, AlertTriggered}"
  shows "process_message server_handlers (kafka_message_of format_time b data) = (None, [])"
  using no_handler [OF assms] by (simp add: process_message_def)

end
