(* ===== verification/Saga_Orchestrator.thy ===== *)
theory Saga_Orchestrator
  imports Kafka_Events
begin

text \<open>
  \<open>internal/saga/orchestrator.go\<close>, with the repository of \<open>pkg/database/repositories.go\<close>: a saga
  executes its steps in order, retries them, and compensates the completed ones when a step fails.

  The repository and the executors are the Go interfaces, records of operations on a state; the clock
  reads that state.  An executor does not change the step it is given.  The number of retries of a step
  is not negative.  Logging is left out.
\<close>

definition StateStarted :: string where "StateStarted = ''started''"
definition StateInProgress :: string where "StateInProgress = ''in_progress''"
definition StateCompleted :: string where "StateCompleted = ''completed''"
definition StateFailed :: string where "StateFailed = ''failed''"
definition StateCompensated :: string where "StateCompensated = ''compensated''"

definition StepPending :: string where "StepPending = ''pending''"
definition StepExecuting :: string where "StepExecuting = ''executing''"
definition StepCompleted :: string where "StepCompleted = ''completed''"
definition StepFailed :: string where "StepFailed = ''failed''"
definition StepCompensated :: string where "StepCompensated = ''compensated''"

lemmas saga_states = StateStarted_def StateInProgress_def StateCompleted_def StateFailed_def StateCompensated_def
lemmas step_states = StepPending_def StepExecuting_def StepCompleted_def StepFailed_def StepCompensated_def

record saga_step =
  st_id :: uuid
  st_name :: string
  st_service_name :: string
  st_action :: string
  st_compensate_action :: string
  st_status :: string
  st_input :: metadata
  st_output :: "metadata option"
  st_error :: string
  st_executed_at :: "time option"
  st_compensated_at :: "time option"
  st_retry_count :: nat
  st_max_retries :: nat

record saga =
  sg_id :: uuid
  sg_type :: string
  sg_state :: string
  sg_steps :: "saga_step list"
  sg_current_step :: nat
  sg_context :: metadata
  sg_created_at :: time
  sg_updated_at :: time
  sg_completed_at :: "time option"
  sg_correlation_id :: uuid
  sg_user_id :: uuid

text \<open>The interfaces.  \<open>UpdateStepStatus\<close> gets an output that may be nil and an error text.\<close>

record 's saga_repo =
  sp_save :: "saga \<Rightarrow> 's \<Rightarrow> go_error option \<times> 's"
  sp_get :: "uuid \<Rightarrow> 's \<Rightarrow> saga go_result \<times> 's"
  sp_update_state :: "uuid \<Rightarrow> string \<Rightarrow> 's \<Rightarrow> 's"
  sp_update_step :: "uuid \<Rightarrow> uuid \<Rightarrow> string \<Rightarrow> metadata option \<Rightarrow> string \<Rightarrow> 's \<Rightarrow> 's"
  sp_pending :: "'s \<Rightarrow> saga list go_result \<times> 's"

record 's executor =
  ex_execute :: "saga_step \<Rightarrow> 's \<Rightarrow> metadata go_result \<times> 's"
  ex_compensate :: "saga_step \<Rightarrow> 's \<Rightarrow> go_error option \<times> 's"

record 's orchestrator =
  or_repo :: "'s saga_repo"
  or_executors :: "string \<Rightarrow> 's executor option"
  or_clock :: "'s \<Rightarrow> time"

definition new_orchestrator :: "'s saga_repo \<Rightarrow> ('s \<Rightarrow> time) \<Rightarrow> 's orchestrator" where
  "new_orchestrator repo clock = \<lparr>or_repo = repo, or_executors = Map.empty, or_clock = clock\<rparr>"

definition register_step_executor :: "string \<Rightarrow> 's executor \<Rightarrow> 's orchestrator \<Rightarrow> 's orchestrator" where
  "register_step_executor service ex orch = orch\<lparr>or_executors := (or_executors orch)(service \<mapsto> ex)\<rparr>"

section \<open>A step\<close>

text \<open>
  The attempts from number \<open>k\<close> on, \<open>left\<close> of them after it; \<open>ctx k\<close> says whether the context
  ends during the wait before attempt \<open>k\<close>.  The value is the output, or the error to report and
  whether it came from the context.
\<close>

fun attempt_step ::
  "'s executor \<Rightarrow> (nat \<Rightarrow> ctx_err) \<Rightarrow> nat \<Rightarrow> nat \<Rightarrow> saga_step \<Rightarrow> 's \<Rightarrow>
     ((metadata + go_error \<times> bool) \<times> saga_step) \<times> 's" where
  "attempt_step ex ctx k left step s =
     (case (if 0 < k then ctx k else None) of
        Some x \<Rightarrow> ((Inr (x, True), step), s)
      | None \<Rightarrow>
          (case ex_execute ex step s of
             (Inr out, s) \<Rightarrow> ((Inl out, step\<lparr>st_status := StepCompleted, st_output := Some out, st_retry_count := k\<rparr>), s)
           | (Inl x, s) \<Rightarrow>
               (let step = step\<lparr>st_retry_count := k + 1\<rparr>
                in case left of
                     0 \<Rightarrow> ((Inr (x, False), step), s)
                   | Suc l \<Rightarrow> attempt_step ex ctx (k + 1) l step s)))"

declare attempt_step.simps [simp del]

definition execute_step ::
  "'s orchestrator \<Rightarrow> (nat \<Rightarrow> ctx_err) \<Rightarrow> uuid \<Rightarrow> saga_step \<Rightarrow> 's \<Rightarrow> (go_error option \<times> saga_step) \<times> 's" where
  "execute_step orch ctx saga_id step s =
     (case or_executors orch (st_service_name step) of
        None \<Rightarrow> ((Some (''no executor found for service: '' @ st_service_name step), step), s)
      | Some ex \<Rightarrow>
          (let step = step\<lparr>st_status := StepExecuting, st_executed_at := Some (or_clock orch s)\<rparr>;
               s = sp_update_step (or_repo orch) saga_id (st_id step) StepExecuting None '''' s
           in case attempt_step ex ctx 0 (st_max_retries step) step s of
                ((Inl out, step), s) \<Rightarrow>
                  ((None, step), sp_update_step (or_repo orch) saga_id (st_id step) StepCompleted (Some out) '''' s)
              | ((Inr (x, True), step), s) \<Rightarrow> ((Some x, step), s)
              | ((Inr (x, False), step), s) \<Rightarrow>
                  ((Some (''step failed after '' @ show_nat (st_max_retries step + 1) @ '' attempts: '' @ x),
                    step\<lparr>st_status := StepFailed, st_error := x\<rparr>),
                   sp_update_step (or_repo orch) saga_id (st_id step) StepFailed None x s)))"

section \<open>Compensation\<close>

definition compensate_step ::
  "'s orchestrator \<Rightarrow> uuid \<Rightarrow> saga_step \<Rightarrow> 's \<Rightarrow> saga_step \<times> 's" where
  "compensate_step orch saga_id step s =
     (if st_status step \<noteq> StepCompleted \<or> st_compensate_action step = '''' then (step, s)
      else
        (case or_executors orch (st_service_name step) of
           None \<Rightarrow> (step, s)
         | Some ex \<Rightarrow>
             (case ex_compensate ex step s of
                (Some x, s) \<Rightarrow> (step, s)
              | (None, s) \<Rightarrow>
                  (step\<lparr>st_status := StepCompensated, st_compensated_at := Some (or_clock orch s)\<rparr>,
                   sp_update_step (or_repo orch) saga_id (st_id step) StepCompensated None '''' s))))"

text \<open>The loop runs downwards, from the step before the current one.\<close>

fun compensate_from :: "'s orchestrator \<Rightarrow> uuid \<Rightarrow> nat \<Rightarrow> saga_step list \<Rightarrow> 's \<Rightarrow> saga_step list \<times> 's" where
  "compensate_from orch saga_id 0 steps s = (steps, s)"
| "compensate_from orch saga_id (Suc i) steps s =
     (case compensate_step orch saga_id (steps ! i) s of
        (step, s) \<Rightarrow> compensate_from orch saga_id i (steps[i := step]) s)"

definition compensate_saga :: "'s orchestrator \<Rightarrow> saga \<Rightarrow> 's \<Rightarrow> saga \<times> 's" where
  "compensate_saga orch sg s =
     (let s = sp_update_state (or_repo orch) (sg_id sg) StateFailed s
      in case compensate_from orch (sg_id sg) (sg_current_step sg) (sg_steps sg) s of
           (steps, s) \<Rightarrow>
             (sg\<lparr>sg_state := StateCompensated, sg_steps := steps\<rparr>,
              sp_update_state (or_repo orch) (sg_id sg) StateCompensated s))"

section \<open>A saga\<close>

text \<open>The loop over the steps, from the current one on.\<close>

function execute_from :: "'s orchestrator \<Rightarrow> (nat \<Rightarrow> ctx_err) \<Rightarrow> saga \<Rightarrow> 's \<Rightarrow> (go_error option \<times> saga) \<times> 's" where
  "execute_from orch ctx sg s =
     (if sg_current_step sg < length (sg_steps sg)
      then (case execute_step orch ctx (sg_id sg) (sg_steps sg ! sg_current_step sg) s of
              ((r, step), s) \<Rightarrow>
                (let sg = sg\<lparr>sg_steps := (sg_steps sg)[sg_current_step sg := step]\<rparr>
                 in case r of
                      Some x \<Rightarrow> ((Some x, sg), s)
                    | None \<Rightarrow> execute_from orch ctx (sg\<lparr>sg_current_step := sg_current_step sg + 1\<rparr>) s))
      else ((None, sg), s))"
  by pat_completeness auto
termination
  by (relation "measure (\<lambda>(_, _, sg, _). length (sg_steps sg) - sg_current_step sg)") auto

declare execute_from.simps [simp del]

definition execute_saga :: "'s orchestrator \<Rightarrow> (nat \<Rightarrow> ctx_err) \<Rightarrow> saga \<Rightarrow> 's \<Rightarrow> saga \<times> 's" where
  "execute_saga orch ctx sg s =
     (let sg = sg\<lparr>sg_state := StateInProgress\<rparr>;
          s = sp_update_state (or_repo orch) (sg_id sg) StateInProgress s
      in case execute_from orch ctx sg s of
           ((Some x, sg), s) \<Rightarrow> compensate_saga orch sg s
         | ((None, sg), s) \<Rightarrow>
             (sg\<lparr>sg_state := StateCompleted, sg_completed_at := Some (or_clock orch s),
                 sg_updated_at := or_clock orch s\<rparr>,
              sp_update_state (or_repo orch) (sg_id sg) StateCompleted s))"

section \<open>The payment saga\<close>

definition payment_step ::
  "uuid \<Rightarrow> string \<Rightarrow> string \<Rightarrow> string \<Rightarrow> string \<Rightarrow> metadata \<Rightarrow> nat \<Rightarrow> saga_step" where
  "payment_step i name service action compensate input retries =
     \<lparr>st_id = i, st_name = name, st_service_name = service, st_action = action,
      st_compensate_action = compensate, st_status = StepPending, st_input = input, st_output = None,
      st_error = '''', st_executed_at = None, st_compensated_at = None, st_retry_count = 0,
      st_max_retries = retries\<rparr>"

definition payment_steps :: "(nat \<Rightarrow> uuid) \<Rightarrow> uuid \<Rightarrow> uuid \<Rightarrow> int64 \<Rightarrow> string \<Rightarrow> saga_step list" where
  "payment_steps uuid_of payment_id user amount currency =
     [payment_step (uuid_of 2) ''validate_wallet_balance'' ''wallet'' ''validate_balance'' ''''
        [(''user_id'', JStr user), (''amount'', JInt (sint amount)), (''currency'', JStr currency)] 3,
      payment_step (uuid_of 3) ''deduct_wallet_balance'' ''wallet'' ''deduct_balance'' ''refund_balance''
        [(''user_id'', JStr user), (''amount'', JInt (sint amount)), (''currency'', JStr currency),
         (''payment_id'', JStr payment_id)] 3,
      payment_step (uuid_of 4) ''process_gateway_payment'' ''gateway'' ''process_payment'' ''''
        [(''payment_id'', JStr payment_id), (''amount'', JInt (sint amount)), (''currency'', JStr currency),
         (''user_id'', JStr user)] 2,
      payment_step (uuid_of 5) ''update_payment_status'' ''payment'' ''update_status'' ''mark_failed''
        [(''payment_id'', JStr payment_id), (''status'', JStr ''completed'')] 3]"

definition new_payment_saga ::
  "(nat \<Rightarrow> uuid) \<Rightarrow> time \<Rightarrow> uuid \<Rightarrow> uuid \<Rightarrow> int64 \<Rightarrow> string \<Rightarrow> saga" where
  "new_payment_saga uuid_of now payment_id user amount currency =
     \<lparr>sg_id = uuid_of 0, sg_type = ''payment'', sg_state = StateStarted,
      sg_steps = payment_steps uuid_of payment_id user amount currency, sg_current_step = 0,
      sg_context = [(''payment_id'', JStr payment_id), (''user_id'', JStr user),
        (''amount'', JInt (sint amount)), (''currency'', JStr currency)],
      sg_created_at = now, sg_updated_at = now, sg_completed_at = None, sg_correlation_id = uuid_of 1,
      sg_user_id = user\<rparr>"

text \<open>The saga is saved, and when that succeeds a goroutine executes it.\<close>

definition start_saga ::
  "'s orchestrator \<Rightarrow> (nat \<Rightarrow> uuid) \<Rightarrow> uuid \<Rightarrow> uuid \<Rightarrow> int64 \<Rightarrow> string \<Rightarrow> 's \<Rightarrow> saga go_result \<times> 's" where
  "start_saga orch uuid_of payment_id user amount currency s =
     (let sg = new_payment_saga uuid_of (or_clock orch s) payment_id user amount currency
      in case sp_save (or_repo orch) sg s of
           (Some x, s) \<Rightarrow> (Inl (''failed to save saga: '' @ x), s)
         | (None, s) \<Rightarrow> (Inr sg, s))"

section \<open>Recovery\<close>

datatype recovery = Resume saga | Undo saga

text \<open>The goroutines recovery starts, in order; a saga in any other state is left alone.\<close>

definition recover_pending_sagas :: "'s orchestrator \<Rightarrow> 's \<Rightarrow> recovery list go_result \<times> 's" where
  "recover_pending_sagas orch s =
     (case sp_pending (or_repo orch) s of
        (Inl x, s) \<Rightarrow> (Inl (''failed to get pending sagas: '' @ x), s)
      | (Inr sgs, s) \<Rightarrow>
          (Inr (concat (map (\<lambda>sg. if sg_state sg = StateInProgress then [Resume sg]
             else if sg_state sg = StateFailed then [Undo sg] else []) sgs)), s))"

fun run_recovery :: "'s orchestrator \<Rightarrow> recovery \<Rightarrow> 's \<Rightarrow> saga \<times> 's" where
  "run_recovery orch (Resume sg) s = execute_saga orch (\<lambda>_. None) sg s"
| "run_recovery orch (Undo sg) s = compensate_saga orch sg s"

section \<open>Its event handlers\<close>

text \<open>The two handlers \<open>Start\<close> registers look at the type of the event and do nothing.\<close>

fun handle_payment_initiated :: "domain_event \<Rightarrow> go_error option" where
  "handle_payment_initiated (Payment_Initiated_Event b e) = None"
| "handle_payment_initiated _ = Some ''invalid event type''"

fun handle_payment_failed :: "domain_event \<Rightarrow> go_error option" where
  "handle_payment_failed (Payment_Failed_Event b e) = None"
| "handle_payment_failed _ = Some ''invalid event type''"

section \<open>The repository\<close>

text \<open>
  \<open>SagaRepository\<close> on the table \<open>sagas\<close>: steps and context are JSON, so what is read back has
  floats for its numbers.  \<open>w\<close> is the rest of the world; the database is reachable.
\<close>

record 'w saga_world =
  sw_sagas :: "saga list"
  sw_world :: 'w

definition read_back :: "metadata \<Rightarrow> metadata" where
  "read_back kvs = map (\<lambda>(k, j). (k, generic j)) kvs"

definition load_saga :: "saga \<Rightarrow> saga" where
  "load_saga r = r\<lparr>sg_steps := map (\<lambda>st. st\<lparr>st_input := read_back (st_input st),
       st_output := map_option read_back (st_output st)\<rparr>) (sg_steps r), sg_context := read_back (sg_context r)\<rparr>"

text \<open>Insert, or on a conflict of the id update all but the type, the owner and the time of creation.\<close>

definition save_saga :: "time \<Rightarrow> saga \<Rightarrow> 'w saga_world \<Rightarrow> go_error option \<times> 'w saga_world" where
  "save_saga now sg s =
     (None, s\<lparr>sw_sagas :=
        (if sg_id sg \<in> sg_id ` set (sw_sagas s)
         then map (\<lambda>r. if sg_id r = sg_id sg
                then r\<lparr>sg_state := sg_state sg, sg_steps := sg_steps sg, sg_current_step := sg_current_step sg,
                       sg_context := sg_context sg, sg_updated_at := now, sg_completed_at := sg_completed_at sg\<rparr>
                else r) (sw_sagas s)
         else sw_sagas s @ [sg])\<rparr>)"

definition get_saga_row :: "uuid \<Rightarrow> 'w saga_world \<Rightarrow> saga go_result \<times> 'w saga_world" where
  "get_saga_row i s =
     (case find (\<lambda>r. sg_id r = i) (sw_sagas s) of
        None \<Rightarrow> Inl ''sql: no rows in result set''
      | Some r \<Rightarrow> Inr (load_saga r), s)"

definition update_saga_state :: "time \<Rightarrow> uuid \<Rightarrow> string \<Rightarrow> 'w saga_world \<Rightarrow> 'w saga_world" where
  "update_saga_state now i st s = s\<lparr>sw_sagas :=
     map (\<lambda>r. if sg_id r = i then r\<lparr>sg_state := st, sg_updated_at := now\<rparr> else r) (sw_sagas s)\<rparr>"

text \<open>The first step with the id gets the status, the output unless it is nil, the error unless it is empty.\<close>

fun set_step :: "uuid \<Rightarrow> string \<Rightarrow> metadata option \<Rightarrow> string \<Rightarrow> saga_step list \<Rightarrow> saga_step list" where
  "set_step i st out err [] = []"
| "set_step i st out err (step # steps) =
     (if st_id step = i
      then step\<lparr>st_status := st, st_output := (if out = None then st_output step else out),
             st_error := (if err = '''' then st_error step else err)\<rparr> # steps
      else step # set_step i st out err steps)"

definition update_step_status ::
  "time \<Rightarrow> uuid \<Rightarrow> uuid \<Rightarrow> string \<Rightarrow> metadata option \<Rightarrow> string \<Rightarrow> 'w saga_world \<Rightarrow> 'w saga_world" where
  "update_step_status now i step st out err s =
     (case get_saga_row i s of
        (Inl x, s) \<Rightarrow> s
      | (Inr sg, s) \<Rightarrow> snd (save_saga now (sg\<lparr>sg_steps := set_step step st out err (sg_steps sg)\<rparr>) s))"

definition get_pending_rows :: "'w saga_world \<Rightarrow> saga list go_result \<times> 'w saga_world" where
  "get_pending_rows s =
     (Inr (map load_saga (sort_key sg_created_at
        (filter (\<lambda>r. sg_state r \<in> {''started'', ''in_progress'', ''failed''}) (sw_sagas s)))), s)"

definition saga_repository :: "('w saga_world \<Rightarrow> time) \<Rightarrow> 'w saga_world saga_repo" where
  "saga_repository clock =
     \<lparr>sp_save = (\<lambda>sg s. save_saga (clock s) sg s), sp_get = get_saga_row,
      sp_update_state = (\<lambda>i st s. update_saga_state (clock s) i st s),
      sp_update_step = (\<lambda>i step st out err s. update_step_status (clock s) i step st out err s),
      sp_pending = get_pending_rows\<rparr>"

section \<open>What a run calls\<close>

text \<open>Executors that write down their calls; the answers come from an oracle, by the number of the call.\<close>

datatype saga_call = Did string | Undid string

definition oracle_executor ::
  "(nat \<Rightarrow> metadata go_result) \<Rightarrow> (nat \<Rightarrow> go_error option) \<Rightarrow> saga_call list saga_world executor" where
  "oracle_executor answer undo_answer =
     \<lparr>ex_execute = (\<lambda>step s. (answer (length (sw_world s)), s\<lparr>sw_world := sw_world s @ [Did (st_name step)]\<rparr>)),
      ex_compensate = (\<lambda>step s.
        (undo_answer (length (sw_world s)), s\<lparr>sw_world := sw_world s @ [Undid (st_name step)]\<rparr>))\<rparr>"

definition oracle_orchestrator ::
  "(saga_call list saga_world \<Rightarrow> time) \<Rightarrow> (nat \<Rightarrow> metadata go_result) \<Rightarrow> (nat \<Rightarrow> go_error option) \<Rightarrow>
     saga_call list saga_world orchestrator" where
  "oracle_orchestrator clock answer undo_answer =
     \<lparr>or_repo = saga_repository clock, or_executors = (\<lambda>_. Some (oracle_executor answer undo_answer)),
      or_clock = clock\<rparr>"

lemma oracle_simps [simp]:
  "ex_execute (oracle_executor answer undo) step s =
     (answer (length (sw_world s)), s\<lparr>sw_world := sw_world s @ [Did (st_name step)]\<rparr>)"
  "ex_compensate (oracle_executor answer undo) step s =
     (undo (length (sw_world s)), s\<lparr>sw_world := sw_world s @ [Undid (st_name step)]\<rparr>)"
  "or_repo (oracle_orchestrator clock answer undo) = saga_repository clock"
  "or_executors (oracle_orchestrator clock answer undo) i = Some (oracle_executor answer undo)"
  "or_clock (oracle_orchestrator clock answer undo) = clock"
  by (simp_all add: oracle_executor_def oracle_orchestrator_def)

text \<open>The repository does not touch the world.\<close>

lemma repository_world [simp]:
  "sw_world (sp_update_state (saga_repository clock) i st s) = sw_world s"
  "sw_world (sp_update_step (saga_repository clock) i step st out err s) = sw_world s"
  by (simp_all add: saga_repository_def update_saga_state_def update_step_status_def get_saga_row_def save_saga_def
    split: option.split)

text \<open>The fields of a step that never change.\<close>

abbreviation same_step :: "saga_step \<Rightarrow> saga_step \<Rightarrow> bool" where
  "same_step st st' \<equiv> st_name st = st_name st' \<and> st_service_name st = st_service_name st' \<and>
     st_compensate_action st = st_compensate_action st' \<and> st_max_retries st = st_max_retries st' \<and> st_id st = st_id st'"

lemma attempts:
  assumes "attempt_step (oracle_executor answer undo) (\<lambda>_. None) k left step s = ((r, step'), s')"
  shows "same_step step' step \<and> sw_sagas s' = sw_sagas s \<and>
    (case r of
       Inl out \<Rightarrow> st_status step' = StepCompleted \<and>
         (\<exists>n. 1 \<le> n \<and> n \<le> left + 1 \<and> sw_world s' = sw_world s @ replicate n (Did (st_name step)))
     | Inr (x, c) \<Rightarrow> \<not> c \<and> sw_world s' = sw_world s @ replicate (left + 1) (Did (st_name step)))"
  using assms
proof (induction left arbitrary: k step s)
  case 0
  then show ?case
    by (subst (asm) attempt_step.simps) (auto simp: Let_def split: sum.splits)
next
  case (Suc left)
  show ?case
  proof (cases "answer (length (sw_world s))")
    case (Inl x)
    have "attempt_step (oracle_executor answer undo) (\<lambda>_. None) (k + 1) left (step\<lparr>st_retry_count := k + 1\<rparr>)
        (s\<lparr>sw_world := sw_world s @ [Did (st_name step)]\<rparr>) = ((r, step'), s')"
      using Suc.prems Inl by (subst (asm) attempt_step.simps) (simp add: Let_def)
    note IH = Suc.IH [OF this]
    show ?thesis
    proof (cases r)
      case (Inl out)
      with IH obtain n where "1 \<le> n" "n \<le> left + 1"
        "sw_world s' = (sw_world s @ [Did (st_name step)]) @ replicate n (Did (st_name step))" by auto
      then have "1 \<le> Suc n \<and> Suc n \<le> Suc left + 1 \<and> sw_world s' = sw_world s @ replicate (Suc n) (Did (st_name step))"
        by simp
      with IH Inl show ?thesis by auto
    next
      case (Inr x)
      with IH show ?thesis by (cases x) simp
    qed
  next
    case (Inr out)
    have "r = Inl out" "step' = step\<lparr>st_status := StepCompleted, st_output := Some out, st_retry_count := k\<rparr>"
      "s' = s\<lparr>sw_world := sw_world s @ [Did (st_name step)]\<rparr>"
      using Suc.prems Inr by (subst (asm) attempt_step.simps, simp)+
    then show ?thesis by (auto intro!: exI [of _ 1])
  qed
qed

lemma step_calls:
  assumes "execute_step (oracle_orchestrator clock answer undo) (\<lambda>_. None) i step s = ((r, step'), s')"
  shows "same_step step' step \<and> (r = None \<longleftrightarrow> st_status step' = StepCompleted) \<and>
    (\<exists>n. 1 \<le> n \<and> n \<le> st_max_retries step + 1 \<and> (r \<noteq> None \<longrightarrow> n = st_max_retries step + 1) \<and>
      sw_world s' = sw_world s @ replicate n (Did (st_name step)))"
proof -
  let ?step = "step\<lparr>st_status := StepExecuting, st_executed_at := Some (clock s)\<rparr>"
  let ?s = "sp_update_step (saga_repository clock) i (st_id step) StepExecuting None '''' s"
  obtain a step1 s1 where run: "attempt_step (oracle_executor answer undo) (\<lambda>_. None) 0 (st_max_retries step) ?step ?s =
      ((a, step1), s1)" by (cases "attempt_step (oracle_executor answer undo) (\<lambda>_. None) 0 (st_max_retries step) ?step ?s") auto
  note at = attempts [OF run]
  show ?thesis
  proof (cases a)
    case (Inl out)
    then show ?thesis using assms run at by (auto simp: execute_step_def Let_def)
  next
    case (Inr xc)
    then show ?thesis using assms run at
      by (cases xc) (auto simp: execute_step_def Let_def step_states intro!: exI [of _ "Suc (st_max_retries step)"])
  qed
qed

text \<open>The calls of the steps from \<open>c\<close> to before \<open>c'\<close>, each \<open>reps\<close> times.\<close>

definition did_steps :: "(nat \<Rightarrow> nat) \<Rightarrow> saga_step list \<Rightarrow> nat \<Rightarrow> nat \<Rightarrow> saga_call list" where
  "did_steps reps steps c c' = concat (map (\<lambda>i. replicate (reps i) (Did (st_name (steps ! i)))) [c..<c'])"

lemma did_steps_first:
  "c < c' \<Longrightarrow> did_steps reps steps c c' = replicate (reps c) (Did (st_name (steps ! c))) @ did_steps reps steps (Suc c) c'"
  by (simp add: did_steps_def upt_conv_Cons)

lemma did_steps_cong:
  "(\<And>i. c \<le> i \<Longrightarrow> i < c' \<Longrightarrow> reps i = reps' i \<and> st_name (steps ! i) = st_name (steps' ! i)) \<Longrightarrow>
     did_steps reps steps c c' = did_steps reps' steps' c c'"
  unfolding did_steps_def by (intro arg_cong [where f = concat] map_cong) auto

text \<open>How far the loop comes: all steps before \<open>c'\<close> completed; with an error, the step \<open>c'\<close> has failed.\<close>

definition run_facts :: "saga_step list \<Rightarrow> nat \<Rightarrow> nat \<Rightarrow> bool \<Rightarrow> (nat \<Rightarrow> nat) \<Rightarrow> saga_step list \<Rightarrow> bool" where
  "run_facts steps c c' failed reps steps' \<longleftrightarrow>
     c \<le> c' \<and> length steps' = length steps \<and> (if failed then c' < length steps else length steps \<le> c') \<and>
     (\<forall>i < length steps. same_step (steps' ! i) (steps ! i)) \<and> (\<forall>i < c. steps' ! i = steps ! i) \<and>
     (\<forall>i. c \<le> i \<and> i < c' \<and> i < length steps \<longrightarrow> st_status (steps' ! i) = StepCompleted) \<and>
     (\<forall>i. c \<le> i \<and> i < c' \<and> i < length steps \<longrightarrow> 1 \<le> reps i \<and> reps i \<le> st_max_retries (steps ! i) + 1) \<and>
     (failed \<longrightarrow> reps c' = st_max_retries (steps ! c') + 1)"

lemma run_facts_extend:
  assumes "run_facts (steps[c := st]) (Suc c) c' failed reps steps'" "c < length steps" "same_step st (steps ! c)"
    and "st_status st = StepCompleted" "1 \<le> n" "n \<le> st_max_retries (steps ! c) + 1"
  shows "run_facts steps c c' failed (reps(c := n)) steps'"
proof -
  have c': "Suc c \<le> c'" "length steps' = length steps" and here: "steps' ! c = st"
    using assms(1,2) by (auto simp: run_facts_def)
  have fails: "if failed then c' < length steps else length steps \<le> c'" using assms(1) by (auto simp: run_facts_def)
  have same: "same_step (steps' ! i) (steps ! i)" if "i < length steps" for i
    using assms(1) that here assms(3) by (cases "i = c") (simp_all add: run_facts_def)
  have before: "steps' ! i = steps ! i" if "i < c" for i
    using assms(1) that by (simp add: run_facts_def)
  have completed: "st_status (steps' ! i) = StepCompleted" if "c \<le> i" "i < c'" "i < length steps" for i
    using assms(1) that here assms(4) by (cases "i = c") (simp_all add: run_facts_def)
  have reps: "1 \<le> (reps(c := n)) i \<and> (reps(c := n)) i \<le> st_max_retries (steps ! i) + 1"
    if "c \<le> i" "i < c'" "i < length steps" for i
    using assms(1) that assms(5,6) by (cases "i = c") (simp_all add: run_facts_def)
  have last: "failed \<Longrightarrow> (reps(c := n)) c' = st_max_retries (steps ! c') + 1"
    using assms(1) c'(1) by (simp add: run_facts_def)
  show ?thesis
    unfolding run_facts_def using c' fails same before completed reps last by auto
qed

lemma loop_calls:
  assumes "execute_from (oracle_orchestrator clock answer undo) (\<lambda>_. None) sg s = ((r, sg'), s')"
    and "sg_current_step sg \<le> length (sg_steps sg)"
  shows "\<exists>reps. run_facts (sg_steps sg) (sg_current_step sg) (sg_current_step sg') (r \<noteq> None) reps (sg_steps sg') \<and>
    sg_current_step sg' \<le> length (sg_steps sg) \<and> sg_id sg' = sg_id sg \<and>
    sw_world s' = sw_world s @ did_steps reps (sg_steps sg) (sg_current_step sg)
      (if r = None then sg_current_step sg' else Suc (sg_current_step sg'))"
  using assms
proof (induction "length (sg_steps sg) - sg_current_step sg" arbitrary: sg s)
  case 0
  then have "r = None" "sg' = sg" "s' = s" by (subst (asm) execute_from.simps, simp)+
  with 0 show ?case by (auto simp: run_facts_def did_steps_def)
next
  case (Suc n)
  let ?c = "sg_current_step sg"
  have c: "?c < length (sg_steps sg)" using Suc.hyps(2) by simp
  let ?step = "sg_steps sg ! ?c"
  obtain r1 step1 s1 where run: "execute_step (oracle_orchestrator clock answer undo) (\<lambda>_. None) (sg_id sg) ?step s =
      ((r1, step1), s1)" by (cases "execute_step (oracle_orchestrator clock answer undo) (\<lambda>_. None) (sg_id sg) ?step s") auto
  from step_calls [OF run] obtain n1 where n1: "same_step step1 ?step" "r1 = None \<longleftrightarrow> st_status step1 = StepCompleted"
    "1 \<le> n1" "n1 \<le> st_max_retries ?step + 1" "r1 \<noteq> None \<longrightarrow> n1 = st_max_retries ?step + 1"
    "sw_world s1 = sw_world s @ replicate n1 (Did (st_name ?step))" by blast
  let ?sg1 = "sg\<lparr>sg_steps := (sg_steps sg)[?c := step1]\<rparr>"
  show ?case
  proof (cases r1)
    case (Some x)
    then have "r = Some x" "sg' = ?sg1" "s' = s1"
      using Suc.prems(1) run c by (subst (asm) execute_from.simps, simp add: Let_def)+
    then show ?thesis using n1 c Some
      by (intro exI [of _ "\<lambda>_. n1"]) (auto simp: run_facts_def did_steps_def nth_list_update)
  next
    case None
    let ?sg2 = "?sg1\<lparr>sg_current_step := ?c + 1\<rparr>"
    have rest: "execute_from (oracle_orchestrator clock answer undo) (\<lambda>_. None) ?sg2 s1 = ((r, sg'), s')"
      using Suc.prems(1) run c None by (subst (asm) execute_from.simps) (simp add: Let_def)
    have "n = length (sg_steps ?sg2) - sg_current_step ?sg2" "sg_current_step ?sg2 \<le> length (sg_steps ?sg2)"
      using Suc.hyps(2) c by simp_all
    from Suc.hyps(1) [OF this(1) rest this(2)] obtain reps where IH:
      "run_facts ((sg_steps sg)[?c := step1]) (Suc ?c) (sg_current_step sg') (r \<noteq> None) reps (sg_steps sg')"
      "sg_current_step sg' \<le> length (sg_steps sg)" "sg_id sg' = sg_id sg"
      "sw_world s' = sw_world s1 @ did_steps reps ((sg_steps sg)[?c := step1]) (Suc ?c)
        (if r = None then sg_current_step sg' else Suc (sg_current_step sg'))" by auto
    let ?reps = "reps(?c := n1)"
    let ?e = "if r = None then sg_current_step sg' else Suc (sg_current_step sg')"
    have "Suc ?c \<le> sg_current_step sg'" using IH(1) by (simp add: run_facts_def)
    then have "did_steps ?reps (sg_steps sg) ?c ?e =
        replicate n1 (Did (st_name ?step)) @ did_steps ?reps (sg_steps sg) (Suc ?c) ?e"
      by (subst did_steps_first) auto
    also have "did_steps ?reps (sg_steps sg) (Suc ?c) ?e = did_steps reps ((sg_steps sg)[?c := step1]) (Suc ?c) ?e"
      by (rule did_steps_cong) auto
    finally have calls: "did_steps ?reps (sg_steps sg) ?c ?e =
        replicate n1 (Did (st_name ?step)) @ did_steps reps ((sg_steps sg)[?c := step1]) (Suc ?c) ?e" .
    have "sw_world s' = sw_world s @ did_steps ?reps (sg_steps sg) ?c ?e"
      by (simp only: IH(4) n1(6) calls append_assoc)
    moreover have "run_facts (sg_steps sg) ?c (sg_current_step sg') (r \<noteq> None) ?reps (sg_steps sg')"
      using n1(2) None by (intro run_facts_extend [OF IH(1) c n1(1) _ n1(3,4)]) simp
    ultimately show ?thesis using IH(2,3) by blast
  qed
qed

text \<open>The steps compensation calls on, latest first.\<close>

definition undoable :: "saga_step \<Rightarrow> bool" where
  "undoable st \<longleftrightarrow> st_status st = StepCompleted \<and> st_compensate_action st \<noteq> ''''"

lemma compensate_step_calls:
  "sw_world (snd (compensate_step (oracle_orchestrator clock answer undo) i step s)) =
     sw_world s @ (if undoable step then [Undid (st_name step)] else [])"
  by (simp add: compensate_step_def undoable_def split: prod.split option.split)

lemma compensation_calls:
  assumes "compensate_from (oracle_orchestrator clock answer undo) i k steps s = (steps', s')" "k \<le> length steps"
  shows "sw_world s' = sw_world s @ map (\<lambda>st. Undid (st_name st)) (rev (filter undoable (take k steps)))"
  using assms
proof (induction k arbitrary: steps s)
  case (Suc k)
  obtain step s1 where run: "compensate_step (oracle_orchestrator clock answer undo) i (steps ! k) s = (step, s1)"
    by (cases "compensate_step (oracle_orchestrator clock answer undo) i (steps ! k) s")
  have "sw_world s' = sw_world s1 @ map (\<lambda>st. Undid (st_name st)) (rev (filter undoable (take k steps)))"
    using Suc.IH [of "steps[k := step]" s1] Suc.prems run by simp
  moreover have "sw_world s1 = sw_world s @ (if undoable (steps ! k) then [Undid (st_name (steps ! k))] else [])"
    using compensate_step_calls [of clock answer undo i "steps ! k" s] run by simp
  ultimately show ?case using Suc.prems(2) by (simp add: take_Suc_conv_app_nth)
qed simp

lemma filter_names:
  assumes "length xs = length ys" "\<And>i. i < length ys \<Longrightarrow> P (xs ! i) = Q (ys ! i) \<and> f (xs ! i) = f (ys ! i)"
  shows "map f (filter P xs) = map f (filter Q ys)"
  using assms
proof (induction xs ys rule: list_induct2)
  case (Cons x xs y ys)
  have "P x = Q y" "f x = f y" using Cons.prems [of 0] by simp_all
  moreover have "map f (filter P xs) = map f (filter Q ys)" by (rule Cons.IH) (use Cons.prems [of "Suc _"] in simp)
  ultimately show ?case by simp
qed simp

section \<open>Properties\<close>



section \<open>A crash and a restart\<close>

text \<open>The loop of \<open>executeSaga\<close>, cut off after \<open>j\<close> steps by the end of the process.\<close>

fun cut_off :: "'s orchestrator \<Rightarrow> nat \<Rightarrow> saga \<Rightarrow> 's \<Rightarrow> 's" where
  "cut_off orch 0 sg s = s"
| "cut_off orch (Suc j) sg s =
     (if sg_current_step sg < length (sg_steps sg)
      then (case execute_step orch (\<lambda>_. None) (sg_id sg) (sg_steps sg ! sg_current_step sg) s of
              ((Some x, step), s) \<Rightarrow> s
            | ((None, step), s) \<Rightarrow> cut_off orch j (sg\<lparr>sg_steps := (sg_steps sg)[sg_current_step sg := step],
                sg_current_step := sg_current_step sg + 1\<rparr>) s)
      else s)"

definition crash_after :: "'s orchestrator \<Rightarrow> nat \<Rightarrow> saga \<Rightarrow> 's \<Rightarrow> 's" where
  "crash_after orch j sg s =
     cut_off orch j (sg\<lparr>sg_state := StateInProgress\<rparr>) (sp_update_state (or_repo orch) (sg_id sg) StateInProgress s)"

text \<open>The table holds one saga, and whatever was written to it its current step is the first.\<close>

definition one_row :: "uuid \<Rightarrow> string \<Rightarrow> string list \<Rightarrow> 'w saga_world \<Rightarrow> bool" where
  "one_row i st names s \<longleftrightarrow> (\<exists>r. sw_sagas s = [r] \<and> sg_id r = i \<and> sg_state r = st \<and> sg_current_step r = 0 \<and>
     map st_name (sg_steps r) = names)"

lemma set_step_names [simp]: "map st_name (set_step i st out err steps) = map st_name steps"
  by (induction steps) auto

lemma load_names [simp]:
  "map st_name (sg_steps (load_saga r)) = map st_name (sg_steps r)" "sg_id (load_saga r) = sg_id r"
  "sg_state (load_saga r) = sg_state r" "sg_current_step (load_saga r) = sg_current_step r"
  by (simp_all add: load_saga_def comp_def)

lemma row_update_state:
  "one_row i st names s \<Longrightarrow> one_row i st' names (sp_update_state (saga_repository clock) i st' s)"
  by (auto simp: one_row_def saga_repository_def update_saga_state_def)

lemma row_update_step:
  "one_row i st names s \<Longrightarrow> one_row i st names (sp_update_step (saga_repository clock) i step st' out err s)"
  by (auto simp: one_row_def saga_repository_def update_step_status_def get_saga_row_def save_saga_def)

lemma row_world: "one_row i st names s \<Longrightarrow> one_row i st names (s\<lparr>sw_world := w\<rparr>)"
  by (simp add: one_row_def)

text \<open>With executors that always succeed.\<close>

abbreviation lucky :: "(saga_call list saga_world \<Rightarrow> time) \<Rightarrow> metadata \<Rightarrow> saga_call list saga_world orchestrator" where
  "lucky clock out \<equiv> oracle_orchestrator clock (\<lambda>_. Inr out) (\<lambda>_. None)"

lemma lucky_step:
  assumes "one_row i st names s"
  obtains step' s' where "execute_step (lucky clock out) (\<lambda>_. None) i step s = ((None, step'), s')"
    "one_row i st names s'" "sw_world s' = sw_world s @ [Did (st_name step)]" "st_name step' = st_name step"
proof -
  let ?step = "step\<lparr>st_status := StepExecuting, st_executed_at := Some (clock s)\<rparr>"
  let ?s = "sp_update_step (saga_repository clock) i (st_id step) StepExecuting None '''' s"
  have tried: "attempt_step (oracle_executor (\<lambda>_. Inr out) (\<lambda>_. None)) (\<lambda>_. None) 0 n ?step ?s =
      ((Inl out, ?step\<lparr>st_status := StepCompleted, st_output := Some out, st_retry_count := 0\<rparr>),
       ?s\<lparr>sw_world := sw_world ?s @ [Did (st_name step)]\<rparr>)" for n
    by (subst attempt_step.simps) simp
  have "execute_step (lucky clock out) (\<lambda>_. None) i step s =
      ((None, ?step\<lparr>st_status := StepCompleted, st_output := Some out, st_retry_count := 0\<rparr>),
       sp_update_step (saga_repository clock) i (st_id step) StepCompleted (Some out) ''''
         (?s\<lparr>sw_world := sw_world ?s @ [Did (st_name step)]\<rparr>))"
    by (simp add: execute_step_def Let_def tried del: repository_world)
  then show ?thesis
    by (rule that) (simp_all add: row_update_step row_world assms)
qed

lemma lucky_cut:
  assumes "one_row (sg_id sg) st names s" "sg_current_step sg + j \<le> length (sg_steps sg)"
  shows "one_row (sg_id sg) st names (cut_off (lucky clock out) j sg s) \<and>
    sw_world (cut_off (lucky clock out) j sg s) =
      sw_world s @ map Did (take j (drop (sg_current_step sg) (map st_name (sg_steps sg))))"
  using assms
proof (induction j arbitrary: sg s)
  case (Suc j)
  let ?c = "sg_current_step sg"
  from Suc.prems(1) obtain step' s' where step: "execute_step (lucky clock out) (\<lambda>_. None) (sg_id sg) (sg_steps sg ! ?c) s = ((None, step'), s')"
    "one_row (sg_id sg) st names s'" "sw_world s' = sw_world s @ [Did (st_name (sg_steps sg ! ?c))]"
    "st_name step' = st_name (sg_steps sg ! ?c)" by (rule lucky_step)
  let ?sg = "sg\<lparr>sg_steps := (sg_steps sg)[?c := step'], sg_current_step := ?c + 1\<rparr>"
  have names: "map st_name (sg_steps ?sg) = map st_name (sg_steps sg)"
    using step(4) Suc.prems(2) by (simp add: map_update list_update_same_conv)
  have "drop ?c (map st_name (sg_steps sg)) = st_name (sg_steps sg ! ?c) # drop (Suc ?c) (map st_name (sg_steps sg))"
    using Suc.prems(2) by (simp add: drop_map flip: Cons_nth_drop_Suc)
  with Suc.IH [of ?sg s'] Suc.prems(2) step names show ?case by simp
qed simp

lemma lucky_run:
  assumes "one_row (sg_id sg) st names s" "sg_current_step sg \<le> length (sg_steps sg)"
  shows "\<exists>sg' s'. execute_from (lucky clock out) (\<lambda>_. None) sg s = ((None, sg'), s') \<and>
    sw_world s' = sw_world s @ map Did (drop (sg_current_step sg) (map st_name (sg_steps sg)))"
  using assms
proof (induction "length (sg_steps sg) - sg_current_step sg" arbitrary: sg s)
  case 0
  then show ?case by (subst execute_from.simps) simp
next
  case (Suc n)
  let ?c = "sg_current_step sg"
  from Suc.prems(1) obtain step' s' where step: "execute_step (lucky clock out) (\<lambda>_. None) (sg_id sg) (sg_steps sg ! ?c) s = ((None, step'), s')"
    "one_row (sg_id sg) st names s'" "sw_world s' = sw_world s @ [Did (st_name (sg_steps sg ! ?c))]"
    "st_name step' = st_name (sg_steps sg ! ?c)" by (rule lucky_step)
  let ?sg = "sg\<lparr>sg_steps := (sg_steps sg)[?c := step'], sg_current_step := ?c + 1\<rparr>"
  have c: "?c < length (sg_steps sg)" using Suc.hyps(2) by simp
  have names: "map st_name (sg_steps ?sg) = map st_name (sg_steps sg)"
    using step(4) c by (simp add: map_update list_update_same_conv)
  have drop: "drop ?c (map st_name (sg_steps sg)) = st_name (sg_steps sg ! ?c) # drop (Suc ?c) (map st_name (sg_steps sg))"
    using c by (simp add: drop_map flip: Cons_nth_drop_Suc)
  have "n = length (sg_steps ?sg) - sg_current_step ?sg" "sg_current_step ?sg \<le> length (sg_steps ?sg)"
    "one_row (sg_id ?sg) st names s'" using Suc.hyps(2) c step(2) by simp_all
  from Suc.hyps(1) [OF this(1,3,2)] obtain sg' s'' where "execute_from (lucky clock out) (\<lambda>_. None) ?sg s' = ((None, sg'), s'')"
    "sw_world s'' = sw_world s' @ map Did (drop (Suc ?c) (map st_name (sg_steps sg)))" using names by auto
  with step c drop show ?case by (subst execute_from.simps) (simp add: Let_def)
qed

lemma recover_row:
  assumes "one_row i st names s" "st \<in> {StateInProgress, StateFailed}"
  obtains sg where "recover_pending_sagas (oracle_orchestrator clock answer undo) s =
      (Inr [if st = StateInProgress then Resume sg else Undo sg], s)"
    "sg_id sg = i" "sg_current_step sg = 0" "map st_name (sg_steps sg) = names"
proof -
  obtain r where r: "sw_sagas s = [r]" "sg_id r = i" "sg_state r = st" "sg_current_step r = 0" "map st_name (sg_steps r) = names"
    using assms(1) by (auto simp: one_row_def)
  have "recover_pending_sagas (oracle_orchestrator clock answer undo) s =
      (Inr [if st = StateInProgress then Resume (load_saga r) else Undo (load_saga r)], s)"
    using assms(2) r by (auto simp: recover_pending_sagas_def saga_repository_def get_pending_rows_def saga_states)
  then show ?thesis by (rule that) (use r in simp_all)
qed

text \<open>The names of the steps of the payment saga.\<close>

definition payment_step_names :: "string list" where
  "payment_step_names = [''validate_wallet_balance'', ''deduct_wallet_balance'', ''process_gateway_payment'',
     ''update_payment_status'']"

lemma payment_saga_names [simp]:
  "map st_name (sg_steps (new_payment_saga uuid_of now pid user amount currency)) = payment_step_names"
  "length (sg_steps (new_payment_saga uuid_of now pid user amount currency)) = 4"
  "sg_current_step (new_payment_saga uuid_of now pid user amount currency) = 0"
  by (simp_all add: new_payment_saga_def payment_steps_def payment_step_def payment_step_names_def)

text \<open>Recovery has forgotten how far a saga was.  Take a payment saga whose steps all succeed and
  whose process ends after \<open>j\<close> of them: the restarted orchestrator executes all four steps again, so
  with \<open>j\<close> at least two the wallet is charged twice.  If the process ends instead when the saga has
  just been marked failed, the restarted orchestrator compensates none of the \<open>j\<close> completed steps and
  marks the saga compensated.\<close>

theorem recovery_starts_over:
  assumes "j \<le> 4" "sg = new_payment_saga uuid_of now pid user amount currency" "orch = lucky clock out"
    and "s0 = \<lparr>sw_sagas = [sg], sw_world = []\<rparr>" "crashed = crash_after orch j sg s0"
    and "failed = sp_update_state (or_repo orch) (sg_id sg) StateFailed crashed"
  shows "(\<exists>job. recover_pending_sagas orch crashed = (Inr [job], crashed) \<and>
      sw_world (snd (run_recovery orch job crashed)) = map Did (take j payment_step_names @ payment_step_names)) \<and>
    (\<exists>job. recover_pending_sagas orch failed = (Inr [job], failed) \<and>
      sw_world (snd (run_recovery orch job failed)) = map Did (take j payment_step_names) \<and>
      map sg_state (sw_sagas (snd (run_recovery orch job failed))) = [''compensated''])"
proof -
  have row0: "one_row (sg_id sg) StateInProgress payment_step_names
      (sp_update_state (saga_repository clock) (sg_id sg) StateInProgress s0)"
    using assms(2,4) by (intro row_update_state [where st = StateStarted]) (simp add: one_row_def, simp add: new_payment_saga_def)
  have "one_row (sg_id sg) StateInProgress payment_step_names crashed \<and> sw_world crashed = map Did (take j payment_step_names)"
    using lucky_cut [of "sg\<lparr>sg_state := StateInProgress\<rparr>" StateInProgress payment_step_names _ j clock out] row0 assms(1-5)
    by (simp add: crash_after_def)
  then have crash: "one_row (sg_id sg) StateInProgress payment_step_names crashed"
    "sw_world crashed = map Did (take j payment_step_names)" by simp_all
  obtain sg1 where resume: "recover_pending_sagas orch crashed = (Inr [Resume sg1], crashed)" "sg_id sg1 = sg_id sg"
    "sg_current_step sg1 = 0" "map st_name (sg_steps sg1) = payment_step_names"
    unfolding assms(3) by (rule recover_row [OF crash(1)]) auto
  have row1: "one_row (sg_id sg) StateInProgress payment_step_names
      (sp_update_state (saga_repository clock) (sg_id sg) StateInProgress crashed)"
    by (rule row_update_state [OF crash(1)])
  obtain sg2 s2 where "execute_from orch (\<lambda>_. None) (sg1\<lparr>sg_state := StateInProgress\<rparr>)
      (sp_update_state (saga_repository clock) (sg_id sg) StateInProgress crashed) = ((None, sg2), s2)"
    "sw_world s2 = sw_world crashed @ map Did payment_step_names"
    using lucky_run [of "sg1\<lparr>sg_state := StateInProgress\<rparr>" StateInProgress payment_step_names _ clock out] row1 resume(2-4)
    unfolding assms(3) by fastforce
  then have first: "sw_world (snd (run_recovery orch (Resume sg1) crashed)) = map Did (take j payment_step_names @ payment_step_names)"
    using resume(2) crash(2) assms(3) by (simp add: execute_saga_def Let_def)
  have row2: "one_row (sg_id sg) StateFailed payment_step_names failed"
    using row_update_state [OF crash(1)] assms(3,6) by simp
  obtain sg3 where undo: "recover_pending_sagas orch failed = (Inr [Undo sg3], failed)" "sg_id sg3 = sg_id sg" "sg_current_step sg3 = 0"
    unfolding assms(3) by (rule recover_row [OF row2]) (auto simp: saga_states)
  have undone: "snd (run_recovery orch (Undo sg3) failed) =
      sp_update_state (saga_repository clock) (sg_id sg) StateCompensated
        (sp_update_state (saga_repository clock) (sg_id sg) StateFailed failed)"
    using undo(2,3) assms(3) by (simp add: compensate_saga_def)
  have "sw_world (snd (run_recovery orch (Undo sg3) failed)) = map Did (take j payment_step_names)"
    unfolding undone using crash(2) assms(3,6) by simp
  moreover have "one_row (sg_id sg) StateCompensated payment_step_names (snd (run_recovery orch (Undo sg3) failed))"
    unfolding undone by (rule row_update_state [OF row_update_state [OF row2]])
  then have "map sg_state (sw_sagas (snd (run_recovery orch (Undo sg3) failed))) = [''compensated'']"
    by (auto simp: one_row_def StateCompensated_def)
  ultimately have "\<exists>job. recover_pending_sagas orch failed = (Inr [job], failed) \<and>
      sw_world (snd (run_recovery orch job failed)) = map Did (take j payment_step_names) \<and>
      map sg_state (sw_sagas (snd (run_recovery orch job failed))) = [''compensated'']"
    using undo(1) by (intro exI [of _ "Undo sg3"] conjI)
  moreover have "\<exists>job. recover_pending_sagas orch crashed = (Inr [job], crashed) \<and>
      sw_world (snd (run_recovery orch job crashed)) = map Did (take j payment_step_names @ payment_step_names)"
    using resume(1) first by (intro exI [of _ "Resume sg1"] conjI)
  ultimately show ?thesis by (intro conjI)
qed

definition example_crash :: "saga_call list saga_world" where
  "example_crash = crash_after (lucky (\<lambda>_. 0) []) 2 (new_payment_saga show_nat 0 ''p'' ''u'' 5 ''USD'')
     \<lparr>sw_sagas = [new_payment_saga show_nat 0 ''p'' ''u'' 5 ''USD''], sw_world = []\<rparr>"

lemma recovery_starts_over_witness:
  "\<exists>job. recover_pending_sagas (lucky (\<lambda>_. 0) []) example_crash = (Inr [job], example_crash) \<and>
      count_list (sw_world (snd (run_recovery (lucky (\<lambda>_. 0) []) job example_crash))) (Did ''deduct_wallet_balance'') = 2"
proof -
  have "(2 :: nat) \<le> 4" by simp
  from recovery_starts_over [OF this refl refl refl example_crash_def refl]
  obtain job where "recover_pending_sagas (lucky (\<lambda>_. 0) []) example_crash = (Inr [job], example_crash)"
    "sw_world (snd (run_recovery (lucky (\<lambda>_. 0) []) job example_crash)) =
      map Did (take 2 payment_step_names @ payment_step_names)" by blast
  then show ?thesis by (intro exI [of _ job]) (simp add: payment_step_names_def)
qed

end
