(* ===== verification/Service_Database.thy ===== *)
theory Service_Database
  imports Go_Json
begin

text \<open>
  The tables of \<open>migrations/001_create_tables.sql\<close> the services use and the statements
  \<open>pkg/database/repositories.go\<close> runs on them.

  A statement is atomic: it fails on a violated constraint and changes nothing, or it succeeds.  A
  run of a goroutine is a run of statements; the environment says, for every statement it makes, what
  statements other connections have run before it and whether the request or the reply is lost on the
  way.  The texts of the database's own errors are arguments.
\<close>

record payment =
  py_id :: uuid
  py_user_id :: uuid
  py_amount :: int64
  py_currency :: string
  py_service_id :: string
  py_description :: string
  py_status :: string
  py_gateway_txn_id :: string
  py_created_at :: time
  py_updated_at :: time
  py_correlation_id :: uuid

record wallet =
  wl_id :: uuid
  wl_user_id :: uuid
  wl_balance :: int64
  wl_currency :: string
  wl_created_at :: time
  wl_updated_at :: time
  wl_version :: int

record transaction =
  tx_id :: uuid
  tx_wallet_id :: uuid
  tx_payment_id :: uuid
  tx_type :: string
  tx_amount :: int64
  tx_currency :: string
  tx_status :: string
  tx_description :: string
  tx_created_at :: time
  tx_correlation_id :: uuid

record tables =
  tb_payments :: "payment list"
  tb_wallets :: "wallet list"
  tb_transactions :: "transaction list"

section \<open>Constraints\<close>

text \<open>The first constraint of the schema a row violates.\<close>

definition payment_violation :: "payment \<Rightarrow> string option" where
  "payment_violation p =
     (if 3 < length (py_currency p) then Some ''currency''
      else if 255 < length (py_service_id p) then Some ''service_id''
      else if 50 < length (py_status p) then Some ''status''
      else if 255 < length (py_gateway_txn_id p) then Some ''gateway_txn_id''
      else if i64_le (py_amount p) 0 then Some ''payments_amount_check''
      else None)"

definition wallet_violation :: "wallet \<Rightarrow> string option" where
  "wallet_violation w =
     (if 2 ^ 31 \<le> wl_version w then Some ''version''
      else if i64_less (wl_balance w) 0 then Some ''wallets_balance_check''
      else None)"

definition transaction_violation :: "tables \<Rightarrow> transaction \<Rightarrow> string option" where
  "transaction_violation tb t =
     (if 10 < length (tx_type t) then Some ''type''
      else if 3 < length (tx_currency t) then Some ''currency''
      else if 50 < length (tx_status t) then Some ''status''
      else if tx_type t \<notin> {''debit'', ''credit''} then Some ''transactions_type_check''
      else if i64_le (tx_amount t) 0 then Some ''transactions_amount_check''
      else if tx_id t \<in> tx_id ` set (tb_transactions tb) then Some ''transactions_pkey''
      else if tx_wallet_id t \<notin> wl_id ` set (tb_wallets tb) then Some ''transactions_wallet_id_fkey''
      else if tx_payment_id t \<notin> py_id ` set (tb_payments tb) then Some ''transactions_payment_id_fkey''
      else None)"

section \<open>Statements\<close>

text \<open>The outcome of a statement: a violated constraint, or a value and the tables after it.\<close>

type_synonym 'a statement = "time \<Rightarrow> tables \<Rightarrow> string + 'a \<times> tables"

text \<open>
  \<open>PaymentRepository.Save\<close>: insert, or on a conflict of the id update the status, the gateway
  transaction and (by the trigger) the time.
\<close>

definition update_payment :: "uuid \<Rightarrow> string \<Rightarrow> string option \<Rightarrow> time \<Rightarrow> payment \<Rightarrow> payment" where
  "update_payment i status txn now q =
     (if py_id q = i
      then q\<lparr>py_status := status, py_gateway_txn_id := (case txn of None \<Rightarrow> py_gateway_txn_id q | Some g \<Rightarrow> g),
             py_updated_at := now\<rparr>
      else q)"

definition save_payment_stmt :: "payment \<Rightarrow> unit statement" where
  "save_payment_stmt p now tb =
     (case payment_violation p of Some c \<Rightarrow> Inl c
      | None \<Rightarrow>
          if py_id p \<in> py_id ` set (tb_payments tb)
          then Inr ((), tb\<lparr>tb_payments :=
                 map (update_payment (py_id p) (py_status p) (Some (py_gateway_txn_id p)) now) (tb_payments tb)\<rparr>)
          else Inr ((), tb\<lparr>tb_payments := tb_payments tb @ [p]\<rparr>))"

definition get_payment_stmt :: "uuid \<Rightarrow> payment option statement" where
  "get_payment_stmt i now tb = Inr (find (\<lambda>p. py_id p = i) (tb_payments tb), tb)"

definition update_status_stmt :: "uuid \<Rightarrow> string \<Rightarrow> unit statement" where
  "update_status_stmt i status now tb =
     (if 50 < length status \<and> i \<in> py_id ` set (tb_payments tb) then Inl ''status''
      else Inr ((), tb\<lparr>tb_payments := map (update_payment i status None now) (tb_payments tb)\<rparr>))"

definition get_wallet_stmt :: "uuid \<Rightarrow> string \<Rightarrow> wallet option statement" where
  "get_wallet_stmt user currency now tb =
     Inr (find (\<lambda>w. wl_user_id w = user \<and> wl_currency w = currency) (tb_wallets tb), tb)"

text \<open>\<open>UPDATE wallets \<dots> WHERE id = $3 AND version = $4\<close>, with the number of rows it changed.\<close>

definition updated_wallet :: "time \<Rightarrow> int64 \<Rightarrow> wallet \<Rightarrow> wallet" where
  "updated_wallet now balance w = w\<lparr>wl_balance := balance, wl_updated_at := now, wl_version := wl_version w + 1\<rparr>"

definition update_row :: "uuid \<Rightarrow> int \<Rightarrow> time \<Rightarrow> int64 \<Rightarrow> wallet \<Rightarrow> wallet" where
  "update_row i version now balance w =
     (if wl_id w = i \<and> wl_version w = version then updated_wallet now balance w else w)"

definition update_balance_stmt :: "uuid \<Rightarrow> int64 \<Rightarrow> int \<Rightarrow> nat statement" where
  "update_balance_stmt i balance version now tb =
     (let hit = (\<lambda>w. wl_id w = i \<and> wl_version w = version)
      in case find (\<lambda>w. hit w \<and> wallet_violation (updated_wallet now balance w) \<noteq> None) (tb_wallets tb) of
           Some w \<Rightarrow> Inl (the (wallet_violation (updated_wallet now balance w)))
         | None \<Rightarrow> Inr (length (filter hit (tb_wallets tb)),
             tb\<lparr>tb_wallets := map (update_row i version now balance) (tb_wallets tb)\<rparr>))"

definition create_transaction_stmt :: "transaction \<Rightarrow> unit statement" where
  "create_transaction_stmt t now tb =
     (case transaction_violation tb t of Some c \<Rightarrow> Inl c
      | None \<Rightarrow> Inr ((), tb\<lparr>tb_transactions := tb_transactions tb @ [t]\<rparr>))"

text \<open>\<open>ORDER BY created_at DESC\<close>; rows of the same time come in the order of the table.\<close>

definition get_transactions_stmt :: "uuid \<Rightarrow> transaction list statement" where
  "get_transactions_stmt i now tb =
     Inr (sort_key (\<lambda>t. - tx_created_at t) (filter (\<lambda>t. tx_wallet_id t = i) (tb_transactions tb)), tb)"

section \<open>Connections\<close>

text \<open>A statement of another connection.\<close>

datatype other_statement =
    Other_Save_Payment time payment
  | Other_Update_Status time uuid string
  | Other_Update_Balance time uuid int64 int
  | Other_Create_Transaction time transaction

text \<open>A statement that fails leaves the tables as they were.\<close>

fun keep :: "tables \<Rightarrow> string + 'a \<times> tables \<Rightarrow> tables" where
  "keep tb (Inl _) = tb"
| "keep tb (Inr (_, tb')) = tb'"

fun run_other :: "other_statement \<Rightarrow> tables \<Rightarrow> tables" where
  "run_other (Other_Save_Payment now p) tb = keep tb (save_payment_stmt p now tb)"
| "run_other (Other_Update_Status now i status) tb = keep tb (update_status_stmt i status now tb)"
| "run_other (Other_Update_Balance now i balance version) tb = keep tb (update_balance_stmt i balance version now tb)"
| "run_other (Other_Create_Transaction now t) tb = keep tb (create_transaction_stmt t now tb)"

record db_env =
  de_now :: "nat \<Rightarrow> time"
  de_fault :: "nat \<Rightarrow> fault"
  de_others :: "nat \<Rightarrow> other_statement list"
  de_violation :: "string \<Rightarrow> go_error"

record db =
  db_tables :: tables
  db_count :: nat

definition exec :: "db_env \<Rightarrow> 'a statement \<Rightarrow> db \<Rightarrow> 'a go_result \<times> db" where
  "exec env st d =
     (let n = db_count d;
          tb = fold run_other (de_others env n) (db_tables d);
          done = (\<lambda>r tb. (r, \<lparr>db_tables = tb, db_count = n + 1\<rparr>))
      in case de_fault env n of
           Lost_Request x \<Rightarrow> done (Inl x) tb
         | Lost_Reply x \<Rightarrow> done (Inl x) (keep tb (st (de_now env n) tb))
         | No_Fault \<Rightarrow> (case st (de_now env n) tb of
             Inl c \<Rightarrow> done (Inl (de_violation env c)) tb
           | Inr (a, tb') \<Rightarrow> done (Inr a) tb'))"

definition exec_only :: "db_env \<Rightarrow> unit statement \<Rightarrow> db \<Rightarrow> go_error option \<times> db" where
  "exec_only env st d = (case exec env st d of (Inl x, d) \<Rightarrow> (Some x, d) | (Inr _, d) \<Rightarrow> (None, d))"

definition query_row :: "db_env \<Rightarrow> 'a option statement \<Rightarrow> db \<Rightarrow> 'a go_result \<times> db" where
  "query_row env st d =
     (case exec env st d of
        (Inl x, d) \<Rightarrow> (Inl x, d)
      | (Inr None, d) \<Rightarrow> (Inl ''sql: no rows in result set'', d)
      | (Inr (Some a), d) \<Rightarrow> (Inr a, d))"

section \<open>The repositories\<close>

definition pg_save_payment :: "db_env \<Rightarrow> payment \<Rightarrow> db \<Rightarrow> go_error option \<times> db" where
  "pg_save_payment env p = exec_only env (save_payment_stmt p)"

definition pg_get_payment :: "db_env \<Rightarrow> uuid \<Rightarrow> db \<Rightarrow> payment go_result \<times> db" where
  "pg_get_payment env i = query_row env (get_payment_stmt i)"

definition pg_update_status :: "db_env \<Rightarrow> uuid \<Rightarrow> string \<Rightarrow> db \<Rightarrow> go_error option \<times> db" where
  "pg_update_status env i status = exec_only env (update_status_stmt i status)"

definition pg_get_wallet :: "db_env \<Rightarrow> uuid \<Rightarrow> string \<Rightarrow> db \<Rightarrow> wallet go_result \<times> db" where
  "pg_get_wallet env user currency = query_row env (get_wallet_stmt user currency)"

definition pg_update_balance :: "db_env \<Rightarrow> uuid \<Rightarrow> int64 \<Rightarrow> int \<Rightarrow> db \<Rightarrow> go_error option \<times> db" where
  "pg_update_balance env i balance version d =
     (case exec env (update_balance_stmt i balance version) d of
        (Inl x, d) \<Rightarrow> (Some x, d)
      | (Inr n, d) \<Rightarrow>
          if n = 0 then (Some ''optimistic lock failed: wallet version mismatch'', d) else (None, d))"

definition pg_create_transaction :: "db_env \<Rightarrow> transaction \<Rightarrow> db \<Rightarrow> go_error option \<times> db" where
  "pg_create_transaction env t = exec_only env (create_transaction_stmt t)"

definition pg_get_transactions :: "db_env \<Rightarrow> uuid \<Rightarrow> db \<Rightarrow> transaction list go_result \<times> db" where
  "pg_get_transactions env i = exec env (get_transactions_stmt i)"

section \<open>What every statement keeps\<close>

definition transaction_ok :: "tables \<Rightarrow> transaction \<Rightarrow> bool" where
  "transaction_ok tb t \<longleftrightarrow> tx_type t \<in> {''debit'', ''credit''} \<and> 0 < sint (tx_amount t) \<and>
     tx_wallet_id t \<in> wl_id ` set (tb_wallets tb) \<and> tx_payment_id t \<in> py_id ` set (tb_payments tb)"

definition schema_ok :: "tables \<Rightarrow> bool" where
  "schema_ok tb \<longleftrightarrow>
     distinct (map py_id (tb_payments tb)) \<and> distinct (map wl_id (tb_wallets tb)) \<and>
     distinct (map tx_id (tb_transactions tb)) \<and>
     (\<forall>w \<in> set (tb_wallets tb). 0 \<le> sint (wl_balance w)) \<and>
     (\<forall>p \<in> set (tb_payments tb). 0 < sint (py_amount p)) \<and>
     (\<forall>t \<in> set (tb_transactions tb). transaction_ok tb t)"

lemma update_payment_keeps [simp]:
  "py_id (update_payment i status txn now q) = py_id q"
  "py_amount (update_payment i status txn now q) = py_amount q"
  by (simp_all add: update_payment_def)

lemma update_payments_keeps [simp]:
  "map (\<lambda>q. py_id (update_payment i status txn now q)) qs = map py_id qs"
  "py_id ` update_payment i status txn now ` Q = py_id ` Q"
  by (auto simp: image_iff)

lemma save_payment_schema: "schema_ok tb \<Longrightarrow> schema_ok (keep tb (save_payment_stmt p now tb))"
  by (auto simp: schema_ok_def save_payment_stmt_def comp_def transaction_ok_def payment_violation_def
    i64_le_def split: option.splits if_splits)

lemma update_status_schema: "schema_ok tb \<Longrightarrow> schema_ok (keep tb (update_status_stmt i status now tb))"
  by (auto simp: schema_ok_def update_status_stmt_def comp_def transaction_ok_def split: if_splits)

lemma create_transaction_schema: "schema_ok tb \<Longrightarrow> schema_ok (keep tb (create_transaction_stmt t now tb))"
  by (auto simp: schema_ok_def create_transaction_stmt_def transaction_ok_def transaction_violation_def
    i64_le_def split: option.splits if_splits)

lemma update_balance_cases:
  obtains (refused) c where "update_balance_stmt i balance version now tb = Inl c"
  | (changed) "update_balance_stmt i balance version now tb =
      Inr (length (filter (\<lambda>w. wl_id w = i \<and> wl_version w = version) (tb_wallets tb)),
        tb\<lparr>tb_wallets := map (update_row i version now balance) (tb_wallets tb)\<rparr>)"
    "\<And>w. w \<in> set (tb_wallets tb) \<Longrightarrow> wl_id w = i \<Longrightarrow> wl_version w = version \<Longrightarrow>
       wallet_violation (updated_wallet now balance w) = None"
proof (cases "find (\<lambda>w. (wl_id w = i \<and> wl_version w = version) \<and>
    wallet_violation (updated_wallet now balance w) \<noteq> None) (tb_wallets tb)")
  case None
  then have "wallet_violation (updated_wallet now balance w) = None"
    if "w \<in> set (tb_wallets tb)" "wl_id w = i" "wl_version w = version" for w
    using that by (auto simp: find_None_iff)
  moreover from None have "update_balance_stmt i balance version now tb =
      Inr (length (filter (\<lambda>w. wl_id w = i \<and> wl_version w = version) (tb_wallets tb)),
        tb\<lparr>tb_wallets := map (update_row i version now balance) (tb_wallets tb)\<rparr>)"
    unfolding update_balance_stmt_def Let_def by (simp only: option.case)
  ultimately show ?thesis by (rule changed [rotated])
next
  case (Some w)
  then have "update_balance_stmt i balance version now tb = Inl (the (wallet_violation (updated_wallet now balance w)))"
    unfolding update_balance_stmt_def Let_def by (simp only: option.case)
  then show ?thesis by (rule refused)
qed

lemma wallet_violation_none: "wallet_violation w = None \<Longrightarrow> 0 \<le> sint (wl_balance w)"
  by (auto simp: wallet_violation_def i64_less_def split: if_splits)

lemma updated_id [simp]: "wl_id (updated_wallet now balance w) = wl_id w"
  by (simp add: updated_wallet_def)

lemma update_rows_keep [simp]:
  "wl_id (update_row i version now balance w) = wl_id w"
  "map (\<lambda>w. wl_id (update_row i version now balance w)) ws = map wl_id ws"
  "wl_id ` update_row i version now balance ` W = wl_id ` W"
proof -
  show id: "wl_id (update_row i version now balance w) = wl_id w" for w by (simp add: update_row_def)
  show "map (\<lambda>w. wl_id (update_row i version now balance w)) ws = map wl_id ws"
    "wl_id ` update_row i version now balance ` W = wl_id ` W"
    by (simp_all add: id image_image)
qed

lemma update_balance_schema: "schema_ok tb \<Longrightarrow> schema_ok (keep tb (update_balance_stmt i balance version now tb))"
proof (cases rule: update_balance_cases [of i balance version now tb])
  case changed
  assume ok: "schema_ok tb"
  have "0 \<le> sint (wl_balance (update_row i version now balance w))" if "w \<in> set (tb_wallets tb)" for w
    using that ok changed(2) wallet_violation_none by (auto simp: schema_ok_def update_row_def)
  then show ?thesis
    using ok by (simp add: changed(1) schema_ok_def transaction_ok_def comp_def)
qed simp

lemma run_other_schema: "schema_ok tb \<Longrightarrow> schema_ok (run_other st tb)"
  by (cases st)
    (simp_all add: save_payment_schema update_status_schema update_balance_schema create_transaction_schema)

lemma others_schema: "schema_ok tb \<Longrightarrow> schema_ok (fold run_other sts tb)"
  by (induction sts arbitrary: tb) (simp_all add: run_other_schema)

section \<open>Versions of wallets\<close>

definition stored :: "tables \<Rightarrow> uuid \<Rightarrow> (int64 \<times> int) option" where
  "stored tb i = map_option (\<lambda>w. (wl_balance w, wl_version w)) (find (\<lambda>w. wl_id w = i) (tb_wallets tb))"

text \<open>Versions never go back, and a balance changes only with its version.\<close>

fun newer :: "(int64 \<times> int) option \<Rightarrow> (int64 \<times> int) option \<Rightarrow> bool" where
  "newer None _ = True"
| "newer (Some (b, v)) None = False"
| "newer (Some (b, v)) (Some (b', v')) = (b' = b \<and> v' = v \<or> v < v')"

lemma newer_refl [simp]: "newer x x"
  by (cases x) auto

lemma newer_trans: "newer x y \<Longrightarrow> newer y z \<Longrightarrow> newer x z"
  by (cases x; cases y; cases z) auto

definition later :: "tables \<Rightarrow> tables \<Rightarrow> bool" where
  "later tb tb' \<longleftrightarrow> (schema_ok tb \<longrightarrow> schema_ok tb') \<and> (\<forall>i. newer (stored tb i) (stored tb' i))"

lemma later_refl [simp]: "later tb tb"
  by (simp add: later_def)

lemma later_trans: "later tb tb' \<Longrightarrow> later tb' tb'' \<Longrightarrow> later tb tb''"
  unfolding later_def by (blast intro: newer_trans)

lemma same_wallets_later: "tb_wallets tb' = tb_wallets tb \<Longrightarrow> (schema_ok tb \<Longrightarrow> schema_ok tb') \<Longrightarrow> later tb tb'"
  by (simp add: later_def stored_def)

lemma find_map_kept:
  "(\<And>w. P (g w) = P w) \<Longrightarrow> find P (map g ws) = map_option g (find P ws)"
  by (induction ws) auto

lemma update_balance_later: "later tb (keep tb (update_balance_stmt i balance version now tb))"
proof (cases rule: update_balance_cases [of i balance version now tb])
  case changed
  let ?f = "update_row i version now balance"
  have "stored (keep tb (update_balance_stmt i balance version now tb)) j =
      map_option (\<lambda>w. (wl_balance (?f w), wl_version (?f w))) (find (\<lambda>w. wl_id w = j) (tb_wallets tb))" for j
    by (simp add: changed(1) stored_def find_map_kept option.map_comp comp_def)
  moreover have "newer (map_option (\<lambda>w. (wl_balance w, wl_version w)) x)
      (map_option (\<lambda>w. (wl_balance (?f w), wl_version (?f w))) x)" for x
    by (cases x) (simp_all add: update_row_def updated_wallet_def)
  ultimately show ?thesis
    unfolding later_def by (simp add: update_balance_schema) (simp add: stored_def)
qed simp

lemma run_other_later: "later tb (run_other st tb)"
proof (cases st)
  case (Other_Save_Payment now p)
  have "tb_wallets (keep tb (save_payment_stmt p now tb)) = tb_wallets tb"
    by (simp add: save_payment_stmt_def split: option.split)
  then show ?thesis by (simp add: Other_Save_Payment same_wallets_later save_payment_schema)
next
  case (Other_Update_Status now i status)
  have "tb_wallets (keep tb (update_status_stmt i status now tb)) = tb_wallets tb"
    by (simp add: update_status_stmt_def)
  then show ?thesis by (simp add: Other_Update_Status same_wallets_later update_status_schema)
next
  case (Other_Create_Transaction now t)
  have "tb_wallets (keep tb (create_transaction_stmt t now tb)) = tb_wallets tb"
    by (simp add: create_transaction_stmt_def split: option.split)
  then show ?thesis by (simp add: Other_Create_Transaction same_wallets_later create_transaction_schema)
qed (simp add: update_balance_later)

lemma others_later: "later tb (fold run_other sts tb)"
  by (induction sts arbitrary: tb) (auto intro: later_trans run_other_later)

text \<open>One statement of a goroutine: the moment before it, when it is tried.\<close>

definition before :: "db_env \<Rightarrow> db \<Rightarrow> tables" where
  "before env d = fold run_other (de_others env (db_count d)) (db_tables d)"

lemma before_later: "later (db_tables d) (before env d)"
  by (simp add: before_def others_later)

lemma exec_cases:
  obtains (failed) x where "exec env st d = (Inl x, \<lparr>db_tables = before env d, db_count = db_count d + 1\<rparr>)"
  | (lost) x where "exec env st d =
      (Inl x, \<lparr>db_tables = keep (before env d) (st (de_now env (db_count d)) (before env d)), db_count = db_count d + 1\<rparr>)"
  | (ok) a tb where "exec env st d = (Inr a, \<lparr>db_tables = tb, db_count = db_count d + 1\<rparr>)"
      "st (de_now env (db_count d)) (before env d) = Inr (a, tb)"
  by (cases "de_fault env (db_count d)"; cases "st (de_now env (db_count d)) (before env d)")
    (auto simp: exec_def before_def Let_def)

lemma exec_later:
  assumes "\<And>now tb. later tb (keep tb (st now tb))"
  shows "later (db_tables d) (db_tables (snd (exec env st d)))"
proof -
  have st: "later tb tb'" if "st now tb = Inr (a, tb')" for now tb a tb' using assms [of tb now] that by simp
  show ?thesis
    by (cases rule: exec_cases [of env st d])
      (auto intro: before_later later_trans [OF before_later assms] later_trans [OF before_later st])
qed

end
