(* ===== verification/Wallet_Service.thy ===== *)
theory Wallet_Service
  imports Service_Database Kafka_Events
begin

text \<open>
  \<open>internal/services/wallet/service.go\<close>: balance checks, deductions and refunds over a repository.
  The repository is the Go interface, a record of operations on a state; the client's guarantee is
  proved once over its laws, and the database of \<open>pkg/database\<close> provides them.  Logging is left
  out.  A call returns its result, the events it hands to the publisher and the state; the result of
  publishing is only logged.
\<close>

definition TypeDebit :: string where "TypeDebit = ''debit''"
definition TypeCredit :: string where "TypeCredit = ''credit''"
definition TxnStatusPending :: string where "TxnStatusPending = ''pending''"

record 's wallet_repo =
  wr_get :: "uuid \<Rightarrow> string \<Rightarrow> 's \<Rightarrow> wallet go_result \<times> 's"
  wr_update_balance :: "uuid \<Rightarrow> int64 \<Rightarrow> int \<Rightarrow> 's \<Rightarrow> go_error option \<times> 's"
  wr_create_transaction :: "transaction \<Rightarrow> 's \<Rightarrow> go_error option \<times> 's"
  wr_get_transactions :: "uuid \<Rightarrow> 's \<Rightarrow> transaction list go_result \<times> 's"

text \<open>The uuids and times a call draws, in order.\<close>

record draws =
  dr_uuid :: "nat \<Rightarrow> uuid"
  dr_now :: "nat \<Rightarrow> time"

definition balance_event :: "draws \<Rightarrow> string \<Rightarrow> wallet \<Rightarrow> metadata \<Rightarrow> domain_event" where
  "balance_event dr t w meta = Base_Event
     \<lparr>be_id = dr_uuid dr 0, be_type = t, be_aggregate_id = wl_id w, be_version = wl_version w + 1,
      be_timestamp = dr_now dr 0, be_correlation_id = nil_uuid, be_metadata = meta\<rparr>"

definition wallet_validate_balance ::
  "draws \<Rightarrow> 's wallet_repo \<Rightarrow> uuid \<Rightarrow> int64 \<Rightarrow> string \<Rightarrow> 's \<Rightarrow> go_error option \<times> domain_event list \<times> 's" where
  "wallet_validate_balance dr repo user amount currency s =
     (case wr_get repo user currency s of
        (Inl x, s) \<Rightarrow> (Some (''failed to get wallet: '' @ x), [], s)
      | (Inr w, s) \<Rightarrow>
          if i64_less (wl_balance w) amount
          then (Some (''insufficient balance: required '' @ show_int (sint amount) @ '', available '' @
                  show_int (sint (wl_balance w))),
                [balance_event dr WalletInsufficient w
                   [(''user_id'', JStr user), (''required'', JInt (sint amount)),
                    (''available'', JInt (sint (wl_balance w))), (''currency'', JStr currency)]], s)
          else (None, [balance_event dr WalletValidated w
                   [(''user_id'', JStr user), (''amount'', JInt (sint amount)), (''currency'', JStr currency)]], s))"

definition new_transaction ::
  "draws \<Rightarrow> string \<Rightarrow> wallet \<Rightarrow> int64 \<Rightarrow> string \<Rightarrow> uuid \<Rightarrow> string \<Rightarrow> transaction" where
  "new_transaction dr kind w amount currency payment_id description =
     \<lparr>tx_id = dr_uuid dr 0, tx_wallet_id = wl_id w, tx_payment_id = payment_id, tx_type = kind,
      tx_amount = amount, tx_currency = currency, tx_status = TxnStatusPending, tx_description = description,
      tx_created_at = dr_now dr 0, tx_correlation_id = dr_uuid dr 1\<rparr>"

definition changed_event ::
  "draws \<Rightarrow> string \<Rightarrow> wallet \<Rightarrow> uuid \<Rightarrow> int64 \<Rightarrow> string \<Rightarrow> int64 \<Rightarrow> uuid \<Rightarrow> base_event \<times> wallet_changed" where
  "changed_event dr t w user amount currency new_balance payment_id =
     (\<lparr>be_id = dr_uuid dr 2, be_type = t, be_aggregate_id = wl_id w, be_version = wl_version w + 1,
       be_timestamp = dr_now dr 1, be_correlation_id = dr_uuid dr 1, be_metadata = []\<rparr>,
      \<lparr>wc_user_id = user, wc_amount = amount, wc_currency = currency, wc_previous_balance = wl_balance w,
       wc_new_balance = new_balance, wc_payment_id = payment_id\<rparr>)"

definition wallet_deduct_balance ::
  "draws \<Rightarrow> 's wallet_repo \<Rightarrow> uuid \<Rightarrow> int64 \<Rightarrow> string \<Rightarrow> uuid \<Rightarrow> 's \<Rightarrow>
     go_error option \<times> domain_event list \<times> 's" where
  "wallet_deduct_balance dr repo user amount currency payment_id s =
     (case wr_get repo user currency s of
        (Inl x, s) \<Rightarrow> (Some (''failed to get wallet: '' @ x), [], s)
      | (Inr w, s) \<Rightarrow>
          if i64_less (wl_balance w) amount then (Some ''insufficient balance'', [], s)
          else
            (let new_balance = wl_balance w - amount;
                 txn = new_transaction dr TypeDebit w amount currency payment_id
                   (''Payment deduction for payment '' @ payment_id)
             in case wr_create_transaction repo txn s of
                  (Some x, s) \<Rightarrow> (Some (''failed to create transaction: '' @ x), [], s)
                | (None, s) \<Rightarrow>
                    (case wr_update_balance repo (wl_id w) new_balance (wl_version w) s of
                       (Some x, s) \<Rightarrow> (Some (''failed to update balance: '' @ x), [], s)
                     | (None, s) \<Rightarrow>
                         (case changed_event dr WalletDeducted w user amount currency new_balance payment_id of
                            (b, c) \<Rightarrow> (None, [Wallet_Deducted_Event b c], s)))))"

definition wallet_refund_balance ::
  "draws \<Rightarrow> 's wallet_repo \<Rightarrow> uuid \<Rightarrow> int64 \<Rightarrow> string \<Rightarrow> uuid \<Rightarrow> string \<Rightarrow> 's \<Rightarrow>
     go_error option \<times> domain_event list \<times> 's" where
  "wallet_refund_balance dr repo user amount currency payment_id reason s =
     (case wr_get repo user currency s of
        (Inl x, s) \<Rightarrow> (Some (''failed to get wallet: '' @ x), [], s)
      | (Inr w, s) \<Rightarrow>
          (let new_balance = wl_balance w + amount;
               txn = new_transaction dr TypeCredit w amount currency payment_id
                 (''Refund for payment '' @ payment_id @ '': '' @ reason)
           in case wr_create_transaction repo txn s of
                (Some x, s) \<Rightarrow> (Some (''failed to create transaction: '' @ x), [], s)
              | (None, s) \<Rightarrow>
                  (case wr_update_balance repo (wl_id w) new_balance (wl_version w) s of
                     (Some x, s) \<Rightarrow> (Some (''failed to update balance: '' @ x), [], s)
                   | (None, s) \<Rightarrow>
                       (case changed_event dr WalletRefunded w user amount currency new_balance payment_id of
                          (b, c) \<Rightarrow> (None, [Wallet_Refunded_Event b c reason], s)))))"

definition wallet_get :: "'s wallet_repo \<Rightarrow> uuid \<Rightarrow> string \<Rightarrow> 's \<Rightarrow> wallet go_result \<times> 's" where
  "wallet_get repo user currency s = wr_get repo user currency s"

definition wallet_get_history ::
  "'s wallet_repo \<Rightarrow> uuid \<Rightarrow> string \<Rightarrow> 's \<Rightarrow> transaction list go_result \<times> 's" where
  "wallet_get_history repo user currency s =
     (case wr_get repo user currency s of
        (Inl x, s) \<Rightarrow> (Inl (''failed to get wallet: '' @ x), s)
      | (Inr w, s) \<Rightarrow> wr_get_transactions repo (wl_id w) s)"

section \<open>What the service relies on\<close>

text \<open>
  A repository with versions: \<open>held s i\<close> is the balance and version of a wallet in state \<open>s\<close>,
  \<open>good\<close> the well-formed states, and \<open>s \<le> s'\<close> means time has passed, with other clients at work.
  An accepted transaction has a positive amount; an accepted update happens at a moment when the version
  is the one given, and leaves a balance that is not negative.
\<close>

locale wallet_repository =
  fixes repo :: "'s wallet_repo"
    and held :: "'s \<Rightarrow> uuid \<Rightarrow> (int64 \<times> int) option"
    and good :: "'s \<Rightarrow> bool"
    and passes :: "'s \<Rightarrow> 's \<Rightarrow> bool"
  assumes passes_refl: "passes s s"
    and passes_trans: "passes s s' \<Longrightarrow> passes s' s'' \<Longrightarrow> passes s s''"
    and passes_good: "passes s s' \<Longrightarrow> good s \<Longrightarrow> good s'"
    and passes_held: "passes s s' \<Longrightarrow> newer (held s i) (held s' i)"
    and good_balance: "good s \<Longrightarrow> held s i = Some (b, v) \<Longrightarrow> 0 \<le> sint b"
    and get_passes: "wr_get repo user currency s = (r, s') \<Longrightarrow> passes s s'"
    and get_held: "wr_get repo user currency s = (Inr w, s') \<Longrightarrow> good s \<Longrightarrow>
      held s' (wl_id w) = Some (wl_balance w, wl_version w)"
    and create_passes: "wr_create_transaction repo t s = (x, s') \<Longrightarrow> passes s s'"
    and create_amount: "wr_create_transaction repo t s = (None, s') \<Longrightarrow> 0 < sint (tx_amount t)"
    and update_passes: "wr_update_balance repo i b v s = (x, s') \<Longrightarrow> passes s s'"
    and update_held: "wr_update_balance repo i b v s = (None, s') \<Longrightarrow> good s \<Longrightarrow>
      \<exists>s0 b0. passes s s0 \<and> held s0 i = Some (b0, v) \<and> held s' i = Some (b, v + 1) \<and> 0 \<le> sint b"
begin

text \<open>A value read and still current at the moment of the update is the value it is updated from.\<close>

lemma read_update:
  assumes "wr_get repo user currency s = (Inr w, s1)" "wr_create_transaction repo t s1 = (None, s2)"
    and "wr_update_balance repo (wl_id w) b (wl_version w) s2 = (None, s')" "good s"
  shows "\<exists>s0. passes s s0 \<and> held s0 (wl_id w) = Some (wl_balance w, wl_version w) \<and>
    held s' (wl_id w) = Some (b, wl_version w + 1) \<and> 0 \<le> sint b \<and> 0 \<le> sint (wl_balance w) \<and>
    0 < sint (tx_amount t)"
proof -
  have good1: "good s1" using assms(1,4) get_passes passes_good by blast
  have good2: "good s2" using good1 assms(2) create_passes passes_good by blast
  have held1: "held s1 (wl_id w) = Some (wl_balance w, wl_version w)" by (rule get_held [OF assms(1,4)])
  obtain s0 b0 where s0: "passes s2 s0" "held s0 (wl_id w) = Some (b0, wl_version w)"
    "held s' (wl_id w) = Some (b, wl_version w + 1)" "0 \<le> sint b"
    using update_held [OF assms(3) good2] by blast
  have p: "passes s1 s0" "passes s s0"
    using get_passes [OF assms(1)] create_passes [OF assms(2)] s0(1) passes_trans by blast+
  have "b0 = wl_balance w" using passes_held [OF p(1), of "wl_id w"] held1 s0(2) by auto
  with p s0 good_balance [OF good1 held1] create_amount [OF assms(2)] show ?thesis by blast
qed

lemma deduct_atomic:
  assumes "wallet_deduct_balance dr repo user amount currency payment_id s = (None, evs, s')" "good s"
  shows "\<exists>s0 i b0 b v. passes s s0 \<and> held s0 i = Some (b0, v) \<and> held s' i = Some (b, v + 1) \<and>
    0 < sint amount \<and> sint amount \<le> sint b0 \<and> sint b = sint b0 - sint amount"
proof -
  obtain w s1 s2 where run: "wr_get repo user currency s = (Inr w, s1)" "\<not> i64_less (wl_balance w) amount"
    "wr_create_transaction repo (new_transaction dr TypeDebit w amount currency payment_id
       (''Payment deduction for payment '' @ payment_id)) s1 = (None, s2)"
    "wr_update_balance repo (wl_id w) (wl_balance w - amount) (wl_version w) s2 = (None, s')"
    using assms(1) by (auto simp: wallet_deduct_balance_def Let_def split: prod.splits sum.splits option.splits if_splits)
  from read_update [OF run(1,3,4) assms(2)] obtain s0 where s0: "passes s s0"
    "held s0 (wl_id w) = Some (wl_balance w, wl_version w)"
    "held s' (wl_id w) = Some (wl_balance w - amount, wl_version w + 1)" "0 \<le> sint (wl_balance w)"
    "0 < sint amount" by (auto simp: new_transaction_def)
  moreover have le: "sint amount \<le> sint (wl_balance w)" using run(2) by (simp add: i64_less_def)
  moreover have "sint (wl_balance w - amount) = sint (wl_balance w) - sint amount"
    using le s0(4,5) sint_range [of "wl_balance w"] by (intro sint_sub_exact) linarith+
  ultimately show ?thesis by blast
qed

lemma refund_atomic:
  assumes "wallet_refund_balance dr repo user amount currency payment_id reason s = (None, evs, s')" "good s"
  shows "\<exists>s0 i b0 b v. passes s s0 \<and> held s0 i = Some (b0, v) \<and> held s' i = Some (b, v + 1) \<and>
    0 < sint amount \<and> sint b = sint b0 + sint amount"
proof -
  obtain w s1 s2 where run: "wr_get repo user currency s = (Inr w, s1)"
    "wr_create_transaction repo (new_transaction dr TypeCredit w amount currency payment_id
       (''Refund for payment '' @ payment_id @ '': '' @ reason)) s1 = (None, s2)"
    "wr_update_balance repo (wl_id w) (wl_balance w + amount) (wl_version w) s2 = (None, s')"
    using assms(1) by (auto simp: wallet_refund_balance_def Let_def split: prod.splits sum.splits option.splits)
  from read_update [OF run assms(2)] obtain s0 where s0: "passes s s0"
    "held s0 (wl_id w) = Some (wl_balance w, wl_version w)"
    "held s' (wl_id w) = Some (wl_balance w + amount, wl_version w + 1)" "0 \<le> sint (wl_balance w)"
    "0 < sint amount" "0 \<le> sint (wl_balance w + amount)" by (auto simp: new_transaction_def)
  moreover have "sint (wl_balance w + amount) = sint (wl_balance w) + sint amount"
    using s0(4-6) by (rule sint_add_no_wrap)
  ultimately show ?thesis by blast
qed

end

section \<open>The database keeps the laws\<close>

definition pg_wallet_repo :: "db_env \<Rightarrow> db wallet_repo" where
  "pg_wallet_repo env =
     \<lparr>wr_get = pg_get_wallet env, wr_update_balance = pg_update_balance env,
      wr_create_transaction = pg_create_transaction env, wr_get_transactions = pg_get_transactions env\<rparr>"

abbreviation db_held :: "db \<Rightarrow> uuid \<Rightarrow> (int64 \<times> int) option" where
  "db_held d \<equiv> stored (db_tables d)"

abbreviation db_good :: "db \<Rightarrow> bool" where
  "db_good d \<equiv> schema_ok (db_tables d)"

abbreviation db_passes :: "db \<Rightarrow> db \<Rightarrow> bool" where
  "db_passes d d' \<equiv> later (db_tables d) (db_tables d')"

lemma find_distinct: "distinct (map f xs) \<Longrightarrow> x \<in> set xs \<Longrightarrow> find (\<lambda>y. f y = f x) xs = Some x"
  by (induction xs) force+

lemma stored_member: "schema_ok tb \<Longrightarrow> w \<in> set (tb_wallets tb) \<Longrightarrow> stored tb (wl_id w) = Some (wl_balance w, wl_version w)"
  by (simp add: stored_def find_distinct schema_ok_def)

lemma find_member: "find P xs = Some x \<Longrightarrow> x \<in> set xs \<and> P x"
  by (induction xs) (auto split: if_splits)

lemma stored_balance:
  assumes "schema_ok tb" "stored tb i = Some (b, v)"
  shows "0 \<le> sint b"
proof -
  obtain w where "find (\<lambda>w. wl_id w = i) (tb_wallets tb) = Some w" "b = wl_balance w"
    using assms(2) by (auto simp: stored_def)
  then show ?thesis using assms(1) find_member by (fastforce simp: schema_ok_def)
qed

lemma query_later:
  assumes "\<And>now tb. st now tb = Inr (f tb, tb)" "query_row env st d = (r, d')"
  shows "later (db_tables d) (db_tables d')"
proof -
  have "snd (query_row env st d) = snd (exec env st d)"
    by (auto simp: query_row_def split: prod.splits sum.splits option.splits)
  then have "d' = snd (exec env st d)" using assms(2) by simp
  then show ?thesis using exec_later [of st d env] assms(1) by simp
qed

lemma query_found:
  assumes "\<And>now tb. st now tb = Inr (f tb, tb)" "query_row env st d = (Inr a, d')"
  shows "f (db_tables d') = Some a"
  using assms(2)
  by (cases rule: exec_cases [of env st d])
    (auto simp: query_row_def assms(1) split: prod.splits sum.splits option.splits)

lemma exec_only_later:
  assumes "\<And>now tb. later tb (keep tb (st now tb))" "exec_only env st d = (r, d')"
  shows "later (db_tables d) (db_tables d')"
proof -
  have "snd (exec_only env st d) = snd (exec env st d)"
    by (auto simp: exec_only_def split: prod.splits sum.splits)
  then have "d' = snd (exec env st d)" using assms(2) by simp
  then show ?thesis using exec_later [OF assms(1), of d env] by simp
qed

lemma create_transaction_later: "later tb (keep tb (create_transaction_stmt t now tb))"
  using run_other_later [of tb "Other_Create_Transaction now t"] by simp

lemma pg_update_later:
  assumes "pg_update_balance env i b v d = (x, d')"
  shows "later (db_tables d) (db_tables d')"
proof -
  have "snd (pg_update_balance env i b v d) = snd (exec env (update_balance_stmt i b v) d)"
    by (auto simp: pg_update_balance_def split: prod.splits sum.splits)
  then have "d' = snd (exec env (update_balance_stmt i b v) d)" using assms by simp
  then show ?thesis using exec_later [of "update_balance_stmt i b v" d env] update_balance_later by simp
qed

lemma pg_update_held:
  assumes "pg_update_balance env i b v d = (None, d')" "schema_ok (db_tables d)"
  shows "\<exists>b0. stored (before env d) i = Some (b0, v) \<and> stored (db_tables d') i = Some (b, v + 1) \<and> 0 \<le> sint b"
proof -
  let ?now = "de_now env (db_count d)"
  obtain n tb where run: "update_balance_stmt i b v ?now (before env d) = Inr (n, tb)" "n \<noteq> 0" "db_tables d' = tb"
    using assms(1)
    by (cases rule: exec_cases [of env "update_balance_stmt i b v" d])
      (auto simp: pg_update_balance_def split: if_splits)
  have ok: "schema_ok (before env d)" using assms(2) before_later by (auto simp: later_def)
  show ?thesis
  proof (cases rule: update_balance_cases [of i b v ?now "before env d"])
    case changed
    have "filter (\<lambda>w. wl_id w = i \<and> wl_version w = v) (tb_wallets (before env d)) \<noteq> []"
      using run changed(1) by auto
    then obtain w where w: "w \<in> set (tb_wallets (before env d))" "wl_id w = i" "wl_version w = v"
      by (auto simp: filter_empty_conv)
    have tb: "tb = (before env d)\<lparr>tb_wallets := map (update_row i v ?now b) (tb_wallets (before env d))\<rparr>"
      using run(1) changed(1) by simp
    have "schema_ok tb" using update_balance_schema [OF ok, of i b v ?now] run(1) by simp
    moreover have "update_row i v ?now b w \<in> set (tb_wallets tb)" using w(1) by (simp add: tb)
    ultimately have "stored tb (wl_id (update_row i v ?now b w)) =
        Some (wl_balance (update_row i v ?now b w), wl_version (update_row i v ?now b w))"
      by (rule stored_member)
    then have st: "stored tb i = Some (b, v + 1)" using w by (simp add: update_row_def updated_wallet_def)
    have "0 \<le> sint b" by (rule stored_balance [OF \<open>schema_ok tb\<close> st])
    with st stored_member [OF ok w(1)] w run(3) show ?thesis by simp
  qed (use run in simp)
qed

lemma pg_get_later: "pg_get_wallet env user currency d = (r, d') \<Longrightarrow> later (db_tables d) (db_tables d')"
  unfolding pg_get_wallet_def by (rule query_later [OF get_wallet_stmt_def])

lemma pg_get_found:
  "pg_get_wallet env user currency d = (Inr w, d') \<Longrightarrow>
     find (\<lambda>w. wl_user_id w = user \<and> wl_currency w = currency) (tb_wallets (db_tables d')) = Some w"
  unfolding pg_get_wallet_def by (rule query_found [OF get_wallet_stmt_def])

interpretation pg: wallet_repository "pg_wallet_repo env" db_held db_good db_passes for env
proof unfold_locales
  fix s s' :: db and user currency r
  assume "wr_get (pg_wallet_repo env) user currency s = (r, s')"
  then show "db_passes s s'" by (simp add: pg_wallet_repo_def pg_get_later)
next
  fix s s' :: db and user currency w
  assume get: "wr_get (pg_wallet_repo env) user currency s = (Inr w, s')" and good: "db_good s"
  have run: "pg_get_wallet env user currency s = (Inr w, s')" using get by (simp add: pg_wallet_repo_def)
  have "w \<in> set (tb_wallets (db_tables s'))" using find_member [OF pg_get_found [OF run]] by simp
  moreover have "db_passes s s'" by (rule pg_get_later [OF run])
  ultimately show "db_held s' (wl_id w) = Some (wl_balance w, wl_version w)"
    using good by (auto simp: later_def intro: stored_member)
next
  fix s s' :: db and t x
  assume "wr_create_transaction (pg_wallet_repo env) t s = (x, s')"
  then show "db_passes s s'"
    by (simp add: pg_wallet_repo_def pg_create_transaction_def)
      (erule exec_only_later [OF create_transaction_later])
next
  fix s s' :: db and t
  assume "wr_create_transaction (pg_wallet_repo env) t s = (None, s')"
  then show "0 < sint (tx_amount t)"
    by (cases rule: exec_cases [of env "create_transaction_stmt t" s])
      (auto simp: pg_wallet_repo_def pg_create_transaction_def exec_only_def create_transaction_stmt_def
        transaction_violation_def i64_le_def split: option.splits if_splits)
next
  fix s s' :: db and i b v
  assume "wr_update_balance (pg_wallet_repo env) i b v s = (None, s')" "db_good s"
  then obtain b0 where "stored (before env s) i = Some (b0, v)" "db_held s' i = Some (b, v + 1)" "0 \<le> sint b"
    using pg_update_held by (fastforce simp: pg_wallet_repo_def)
  then show "\<exists>s0 b0. db_passes s s0 \<and> db_held s0 i = Some (b0, v) \<and> db_held s' i = Some (b, v + 1) \<and> 0 \<le> sint b"
    using before_later [of s env] by (intro exI [of _ "s\<lparr>db_tables := before env s\<rparr>"]) auto
qed (auto simp: later_def pg_wallet_repo_def pg_update_later [unfolded later_def] intro: newer_trans stored_balance)

section \<open>Transactions are never removed\<close>

lemma run_other_transactions: "set (tb_transactions tb) \<subseteq> set (tb_transactions (run_other st tb))"
  by (cases st) (auto simp: save_payment_stmt_def update_status_stmt_def update_balance_stmt_def Let_def
    create_transaction_stmt_def split: option.split)

lemma before_transactions: "set (tb_transactions (db_tables d)) \<subseteq> set (tb_transactions (before env d))"
proof -
  have "set (tb_transactions tb) \<subseteq> set (tb_transactions (fold run_other sts tb))" for sts tb
  proof (induction sts arbitrary: tb)
    case (Cons st sts)
    show ?case using Cons [of "run_other st tb"] run_other_transactions [of tb st] by simp
  qed simp
  then show ?thesis by (simp add: before_def)
qed

lemma update_keeps_transactions:
  assumes "pg_update_balance env i b v d = (x, d')" "t \<in> set (tb_transactions (db_tables d))"
  shows "t \<in> set (tb_transactions (db_tables d'))"
proof -
  have upd: "tb_transactions (keep tb (update_balance_stmt i b v now tb)) = tb_transactions tb" for tb now
    by (cases rule: update_balance_cases [of i b v now tb]) auto
  have "tb_transactions (db_tables (snd (exec env (update_balance_stmt i b v) d))) = tb_transactions (before env d)"
    using upd [of "before env d" "de_now env (db_count d)"]
    by (cases rule: exec_cases [of env "update_balance_stmt i b v" d]) simp_all
  moreover have "d' = snd (exec env (update_balance_stmt i b v) d)"
    using assms(1) by (simp add: pg_update_balance_def split: prod.splits sum.splits if_splits)
  ultimately have "tb_transactions (db_tables d') = tb_transactions (before env d)" by simp
  then show ?thesis using assms(2) before_transactions by auto
qed

lemma created_transaction:
  assumes "pg_create_transaction env t d = (None, d')"
  shows "t \<in> set (tb_transactions (db_tables d'))"
  using assms
  by (cases rule: exec_cases [of env "create_transaction_stmt t" d])
    (auto simp: pg_create_transaction_def exec_only_def create_transaction_stmt_def split: option.splits)

section \<open>Properties\<close>


definition example_db :: db where
  "example_db = \<lparr>db_tables = \<lparr>
     tb_payments = [\<lparr>py_id = ''p'', py_user_id = ''u'', py_amount = 30, py_currency = ''USD'', py_service_id = ''s'',
       py_description = '''', py_status = ''pending'', py_gateway_txn_id = '''', py_created_at = 0, py_updated_at = 0,
       py_correlation_id = ''c''\<rparr>],
     tb_wallets = [\<lparr>wl_id = ''w'', wl_user_id = ''u'', wl_balance = 100, wl_currency = ''USD'', wl_created_at = 0,
       wl_updated_at = 0, wl_version = 1\<rparr>],
     tb_transactions = []\<rparr>, db_count = 0\<rparr>"

definition quiet :: db_env where
  "quiet = \<lparr>de_now = (\<lambda>_. 0), de_fault = (\<lambda>_. No_Fault), de_others = (\<lambda>_. []), de_violation = (\<lambda>c. c)\<rparr>"

definition example_draws :: draws where
  "example_draws = \<lparr>dr_uuid = (\<lambda>n. show_nat n), dr_now = (\<lambda>_. 0)\<rparr>"

lemmas database_defs = pg_wallet_repo_def pg_get_wallet_def pg_create_transaction_def pg_update_balance_def
  query_row_def exec_only_def exec_def get_wallet_stmt_def create_transaction_stmt_def update_balance_stmt_def
  transaction_violation_def wallet_violation_def updated_wallet_def update_row_def

lemma example_schema: "schema_ok (db_tables example_db)"
  by (simp add: schema_ok_def example_db_def)


text \<open>A deduction that fails at the update of the balance, because another connection was faster or
  for any other reason, leaves its transaction behind: a pending debit of the whole amount.\<close>

theorem failed_update_leaves_transaction:
  assumes "wallet_deduct_balance dr (pg_wallet_repo env) user amount currency payment_id d =
    (Some (''failed to update balance: '' @ x), evs, d')"
  shows "\<exists>t \<in> set (tb_transactions (db_tables d')). tx_id t = dr_uuid dr 0 \<and> tx_payment_id t = payment_id \<and>
    tx_type t = ''debit'' \<and> tx_amount t = amount \<and> tx_status t = ''pending''"
proof -
  obtain w d1 d2 where run:
    "pg_create_transaction env (new_transaction dr TypeDebit w amount currency payment_id
       (''Payment deduction for payment '' @ payment_id)) d1 = (None, d2)"
    "pg_update_balance env (wl_id w) (wl_balance w - amount) (wl_version w) d2 = (Some x, d')"
    using assms
    by (auto simp: wallet_deduct_balance_def pg_wallet_repo_def Let_def
      split: prod.splits sum.splits option.splits if_splits)
  from update_keeps_transactions [OF run(2) created_transaction [OF run(1)]] show ?thesis
    by (intro bexI) (simp_all add: new_transaction_def TypeDebit_def TxnStatusPending_def)
qed

text \<open>Another deduction gets in between.\<close>

definition raced :: db_env where
  "raced = quiet\<lparr>de_others := (\<lambda>n. if n = 2 then [Other_Update_Balance 0 ''w'' 90 1] else [])\<rparr>"

lemma failed_update_leaves_transaction_witness:
  "(\<lambda>(r, evs, d'). r \<noteq> None \<and> (\<exists>t \<in> set (tb_transactions (db_tables d')). tx_amount t = 30 \<and> tx_status t = ''pending''))
    (wallet_deduct_balance example_draws (pg_wallet_repo raced) ''u'' 30 ''USD'' ''p'' example_db)"
proof -
  let ?run = "wallet_deduct_balance example_draws (pg_wallet_repo raced) ''u'' 30 ''USD'' ''p'' example_db"
  obtain evs d' where run: "?run = (Some (''failed to update balance: '' @
      ''optimistic lock failed: wallet version mismatch''), evs, d')"
    by (simp add: wallet_deduct_balance_def database_defs example_db_def raced_def quiet_def Let_def i64_less_def
      i64_le_def new_transaction_def TypeDebit_def TxnStatusPending_def changed_event_def)
  from failed_update_leaves_transaction [OF run] show ?thesis unfolding run by auto
qed

end
