(* ===== verification/Gateway_Service.thy ===== *)
theory Gateway_Service
  imports Service_Database Kafka_Events
begin

text \<open>
  \<open>internal/services/gateway/service.go\<close>: the circuit breaker and the simulated call of the external
  gateway.  The random scenario, the times and the state of the context are arguments; logging is left
  out.  A call returns its result, the events it hands to the publisher and the breaker.
\<close>

section \<open>The circuit breaker\<close>

datatype circuit_breaker_state = StateClosed | StateOpen | StateHalfOpen

record circuit_breaker =
  cb_max_failures :: int
  cb_reset_timeout :: duration
  cb_current_failures :: int
  cb_last_failure_time :: time
  cb_state :: circuit_breaker_state

definition new_circuit_breaker :: "int \<Rightarrow> duration \<Rightarrow> circuit_breaker" where
  "new_circuit_breaker max_failures reset_timeout =
     \<lparr>cb_max_failures = max_failures, cb_reset_timeout = reset_timeout, cb_current_failures = 0,
      cb_last_failure_time = 0, cb_state = StateClosed\<rparr>"

definition can_execute :: "time \<Rightarrow> circuit_breaker \<Rightarrow> bool \<times> circuit_breaker" where
  "can_execute now cb =
     (case cb_state cb of
        StateClosed \<Rightarrow> (True, cb)
      | StateOpen \<Rightarrow>
          if now - cb_last_failure_time cb > cb_reset_timeout cb then (True, cb\<lparr>cb_state := StateHalfOpen\<rparr>)
          else (False, cb)
      | StateHalfOpen \<Rightarrow> (True, cb))"

definition on_success :: "circuit_breaker \<Rightarrow> circuit_breaker" where
  "on_success cb = cb\<lparr>cb_current_failures := 0, cb_state := StateClosed\<rparr>"

definition on_failure :: "time \<Rightarrow> circuit_breaker \<Rightarrow> circuit_breaker" where
  "on_failure now cb =
     (let cb = cb\<lparr>cb_current_failures := cb_current_failures cb + 1, cb_last_failure_time := now\<rparr>
      in if cb_current_failures cb \<ge> cb_max_failures cb then cb\<lparr>cb_state := StateOpen\<rparr> else cb)"

definition reset_circuit_breaker :: "circuit_breaker \<Rightarrow> circuit_breaker" where
  "reset_circuit_breaker cb = cb\<lparr>cb_state := StateClosed, cb_current_failures := 0\<rparr>"

section \<open>The service\<close>

record gateway_response =
  gp_transaction_id :: string
  gp_status :: string
  gp_response_code :: string
  gp_message :: string
  gp_data :: metadata

text \<open>
  What a call meets: its context, the scenario drawn (below 100), the uuids and times of its events, the
  time it starts, the time the breaker notes a failure, the time the gateway was asked in seconds and
  how long it took.
\<close>

record gateway_env =
  ge_ctx :: ctx_err
  ge_scenario :: nat
  ge_draws :: "nat \<Rightarrow> uuid \<times> time"
  ge_start :: time
  ge_failed_at :: time
  ge_unix :: int
  ge_duration :: duration

definition call_gateway_api :: "gateway_env \<Rightarrow> string \<Rightarrow> payment \<Rightarrow> gateway_response go_result" where
  "call_gateway_api env provider p =
     (case ge_ctx env of Some x \<Rightarrow> Inl x
      | None \<Rightarrow>
          if ge_scenario env < 85 then
            Inr \<lparr>gp_transaction_id = ''gw_'' @ provider @ ''_'' @ show_int (ge_unix env), gp_status = ''success'',
              gp_response_code = ''00'', gp_message = ''Payment processed successfully'',
              gp_data = [(''provider'', JStr provider), (''payment_id'', JStr (py_id p)),
                (''amount'', JInt (sint (py_amount p))), (''currency'', JStr (py_currency p))]\<rparr>
          else if ge_scenario env < 95 then
            Inr \<lparr>gp_transaction_id = '''', gp_status = ''declined'', gp_response_code = ''05'',
              gp_message = ''Payment declined by issuer'', gp_data = []\<rparr>
          else Inl ''gateway service temporarily unavailable'')"

definition gateway_event :: "gateway_env \<Rightarrow> nat \<Rightarrow> string \<Rightarrow> int \<Rightarrow> payment \<Rightarrow> metadata \<Rightarrow> base_event" where
  "gateway_event env k t version p meta =
     \<lparr>be_id = fst (ge_draws env k), be_type = t, be_aggregate_id = py_id p, be_version = version,
      be_timestamp = snd (ge_draws env k), be_correlation_id = py_correlation_id p, be_metadata = meta\<rparr>"

definition gateway_request_sent :: "gateway_env \<Rightarrow> string \<Rightarrow> payment \<Rightarrow> domain_event" where
  "gateway_request_sent env provider p = Base_Event (gateway_event env 0 GatewayRequestSent 1 p
     [(''provider'', JStr provider), (''amount'', JInt (sint (py_amount p))), (''currency'', JStr (py_currency p)),
      (''user_id'', JStr (py_user_id p))])"

definition gateway_response_event :: "gateway_env \<Rightarrow> payment \<Rightarrow> gateway_response \<Rightarrow> domain_event" where
  "gateway_response_event env p r = Gateway_Response_Event (gateway_event env 1 GatewayResponseReceived 2 p [])
     \<lparr>gr_payment_id = py_id p, gr_gateway_txn_id = gp_transaction_id r, gr_status = gp_status r,
      gr_response_code = gp_response_code r, gr_response_data = gp_data r, gr_processing_time = ge_duration env\<rparr>"

definition gateway_error_event :: "gateway_env \<Rightarrow> string \<Rightarrow> payment \<Rightarrow> string \<Rightarrow> string \<Rightarrow> domain_event" where
  "gateway_error_event env provider p code message = Base_Event (gateway_event env 1 GatewayError 2 p
     [(''error_code'', JStr code), (''message'', JStr message), (''provider'', JStr provider)])"

definition gateway_process_payment ::
  "gateway_env \<Rightarrow> string \<Rightarrow> payment \<Rightarrow> circuit_breaker \<Rightarrow>
     string go_result \<times> domain_event list \<times> circuit_breaker" where
  "gateway_process_payment env provider p cb =
     (case can_execute (ge_start env) cb of
        (False, cb) \<Rightarrow>
          (Inl ''circuit breaker is open'',
           [gateway_error_event env provider p ''circuit_breaker_open'' ''circuit breaker is open''], cb)
      | (True, cb) \<Rightarrow>
          (case call_gateway_api env provider p of
             Inl x \<Rightarrow>
               (Inl (''gateway processing failed: '' @ x),
                [gateway_request_sent env provider p, gateway_error_event env provider p ''api_call_failed'' x],
                on_failure (ge_failed_at env) cb)
           | Inr r \<Rightarrow>
               (if gp_status r \<noteq> ''success'' \<and> gp_status r \<noteq> ''completed''
                then Inl (''payment rejected by gateway: '' @ gp_message r)
                else Inr (gp_transaction_id r),
                [gateway_request_sent env provider p, gateway_response_event env p r], on_success cb)))"

section \<open>What the breaker promises\<close>

text \<open>
  The history of a breaker is the number of calls that have failed in a row and the time of the last
  failure.  A call is let through while the row is shorter than the limit, or when the last failure is
  longer ago than the time-out.
\<close>

datatype call = Call time time bool  \<comment> \<open>start, end, success\<close>

fun admitted :: "int \<Rightarrow> duration \<Rightarrow> nat \<Rightarrow> time \<Rightarrow> call list \<Rightarrow> bool list" where
  "admitted limit timeout row at_time [] = []"
| "admitted limit timeout row at_time (Call t t' ok # calls) =
     (if int row < limit \<or> t - at_time > timeout
      then True # (if ok then admitted limit timeout 0 at_time calls
                   else admitted limit timeout (row + 1) t' calls)
      else False # admitted limit timeout row at_time calls)"

fun breaker_run :: "call list \<Rightarrow> circuit_breaker \<Rightarrow> bool list" where
  "breaker_run [] cb = []"
| "breaker_run (Call t t' ok # calls) cb =
     (case can_execute t cb of
        (False, cb) \<Rightarrow> False # breaker_run calls cb
      | (True, cb) \<Rightarrow> True # breaker_run calls (if ok then on_success cb else on_failure t' cb))"

definition breaker_abs :: "int \<Rightarrow> duration \<Rightarrow> nat \<Rightarrow> time \<Rightarrow> circuit_breaker \<Rightarrow> bool" where
  "breaker_abs limit timeout row at_time cb \<longleftrightarrow>
     cb_max_failures cb = limit \<and> cb_reset_timeout cb = timeout \<and> cb_current_failures cb = int row \<and>
     (if int row < limit then cb_state cb = StateClosed
      else cb_state cb = StateOpen \<and> cb_last_failure_time cb = at_time)"

lemma breaker_admits:
  "breaker_abs limit timeout row at_time cb \<Longrightarrow>
     fst (can_execute t cb) \<longleftrightarrow> int row < limit \<or> t - at_time > timeout"
  by (auto simp: breaker_abs_def can_execute_def split: if_splits)

lemma breaker_refines:
  "breaker_abs limit timeout row at_time cb \<Longrightarrow> 0 < limit \<Longrightarrow>
     breaker_run calls cb = admitted limit timeout row at_time calls"
proof (induction limit timeout row at_time calls arbitrary: cb rule: admitted.induct)
  case (2 limit timeout row at_time t t' ok calls)
  obtain go cb' where go: "can_execute t cb = (go, cb')" by (cases "can_execute t cb")
  have admits: "go \<longleftrightarrow> int row < limit \<or> t - at_time > timeout"
    using breaker_admits [OF "2.prems"(1), of t] go by simp
  show ?case
  proof (cases go)
    case False
    then have "cb' = cb" using go by (auto simp: can_execute_def split: circuit_breaker_state.splits if_splits)
    with False admits go "2.IH"(3) "2.prems" show ?thesis by auto
  next
    case True
    have next_ok: "breaker_abs limit timeout 0 at_time (on_success cb')"
      using "2.prems" go True
      by (auto simp: breaker_abs_def on_success_def can_execute_def split: if_splits)
    have next_fail: "breaker_abs limit timeout (row + 1) t' (on_failure t' cb')"
      using "2.prems" go True
      by (auto simp: breaker_abs_def on_failure_def can_execute_def Let_def split: if_splits)
    show ?thesis
      using True admits go "2.IH"(1,2) "2.prems"(2) next_ok next_fail by (cases ok) auto
  qed
qed simp

section \<open>Property\<close>

text \<open>C17: the circuit breaker lets a call through exactly when fewer calls than its limit have failed in a
  row, or the last failure is longer ago than its time-out; a failure of a call let through after the
  time-out starts the waiting again.\<close>

theorem breaker_exact:
  assumes "0 < limit"
  shows "breaker_run calls (new_circuit_breaker limit timeout) = admitted limit timeout 0 0 calls"
  by (rule breaker_refines) (use assms in \<open>simp_all add: breaker_abs_def new_circuit_breaker_def\<close>)

lemma breaker_exact_witness:
  "breaker_run [Call 0 1 False, Call 2 3 False, Call 4 5 True, Call 90 91 False, Call 100 101 True]
     (new_circuit_breaker 2 60) = [True, True, False, True, False]"
  using breaker_exact [of 2 "[Call 0 1 False, Call 2 3 False, Call 4 5 True, Call 90 91 False, Call 100 101 True]" 60]
  by simp

end
