(* ===== verification/Payment_Service.thy ===== *)
theory Payment_Service
  imports Wallet_Service Gateway_Service
begin

text \<open>
  \<open>internal/services/payment/service.go\<close>: a payment request, from the row of the payment to the
  asynchronous call of the gateway, over the Go interfaces of the repository, the wallet service, the
  gateway and the publisher; and these put together as \<open>cmd/main.go\<close> does.  Logging is left out.
\<close>

definition StatusPending :: string where "StatusPending = ''pending''"
definition StatusProcessing :: string where "StatusProcessing = ''processing''"
definition StatusCompleted :: string where "StatusCompleted = ''completed''"
definition StatusFailed :: string where "StatusFailed = ''failed''"

lemmas statuses = StatusPending_def StatusProcessing_def StatusCompleted_def StatusFailed_def

record payment_request =
  rq_user_id :: uuid
  rq_amount :: int64
  rq_currency :: string
  rq_service_id :: string
  rq_description :: string

section \<open>The service over its interfaces\<close>

text \<open>The results of publishing are only logged, so publishing has none here.\<close>

record 's payment_deps =
  pd_save :: "payment \<Rightarrow> 's \<Rightarrow> go_error option \<times> 's"
  pd_get :: "uuid \<Rightarrow> 's \<Rightarrow> payment go_result \<times> 's"
  pd_update_status :: "uuid \<Rightarrow> string \<Rightarrow> 's \<Rightarrow> go_error option \<times> 's"
  pd_validate :: "uuid \<Rightarrow> int64 \<Rightarrow> string \<Rightarrow> 's \<Rightarrow> go_error option \<times> 's"
  pd_deduct :: "uuid \<Rightarrow> int64 \<Rightarrow> string \<Rightarrow> uuid \<Rightarrow> 's \<Rightarrow> go_error option \<times> 's"
  pd_refund :: "uuid \<Rightarrow> int64 \<Rightarrow> string \<Rightarrow> uuid \<Rightarrow> string \<Rightarrow> 's \<Rightarrow> go_error option \<times> 's"
  pd_gateway :: "payment \<Rightarrow> 's \<Rightarrow> string go_result \<times> 's"
  pd_publish :: "domain_event \<Rightarrow> 's \<Rightarrow> 's"
  pd_start_saga :: "(uuid \<Rightarrow> uuid \<Rightarrow> int64 \<Rightarrow> string \<Rightarrow> 's \<Rightarrow> go_error option \<times> 's) option"

definition publish_payment_failed ::
  "draws \<Rightarrow> 's payment_deps \<Rightarrow> payment \<Rightarrow> string \<Rightarrow> string \<Rightarrow> 's \<Rightarrow> 's" where
  "publish_payment_failed dr deps p code reason = pd_publish deps (Payment_Failed_Event
     \<lparr>be_id = dr_uuid dr 3, be_type = PaymentFailed, be_aggregate_id = py_id p, be_version = 2,
      be_timestamp = dr_now dr 3, be_correlation_id = py_correlation_id p, be_metadata = []\<rparr>
     \<lparr>pf_user_id = py_user_id p, pf_amount = py_amount p, pf_currency = py_currency p, pf_reason = reason,
      pf_error_code = code\<rparr>)"

definition new_payment :: "draws \<Rightarrow> payment_request \<Rightarrow> payment" where
  "new_payment dr req =
     \<lparr>py_id = dr_uuid dr 1, py_user_id = rq_user_id req, py_amount = rq_amount req,
      py_currency = rq_currency req, py_service_id = rq_service_id req, py_description = rq_description req,
      py_status = StatusPending, py_gateway_txn_id = '''', py_created_at = dr_now dr 0,
      py_updated_at = dr_now dr 1, py_correlation_id = dr_uuid dr 0\<rparr>"

definition payment_initiated_event :: "draws \<Rightarrow> payment_request \<Rightarrow> domain_event" where
  "payment_initiated_event dr req = Payment_Initiated_Event
     \<lparr>be_id = dr_uuid dr 2, be_type = PaymentInitiated, be_aggregate_id = dr_uuid dr 1, be_version = 1,
      be_timestamp = dr_now dr 2, be_correlation_id = dr_uuid dr 0, be_metadata = []\<rparr>
     \<lparr>pi_user_id = rq_user_id req, pi_amount = rq_amount req, pi_currency = rq_currency req,
      pi_service_id = rq_service_id req, pi_description = rq_description req\<rparr>"

text \<open>
  A failed step of the manual flow: the status, the event and the error; the result of updating the
  status is not looked at.
\<close>

definition fail_payment_step ::
  "draws \<Rightarrow> 's payment_deps \<Rightarrow> payment \<Rightarrow> string \<Rightarrow> go_error \<Rightarrow> 's \<Rightarrow> 's" where
  "fail_payment_step dr deps p code x s =
     publish_payment_failed dr deps p code x (snd (pd_update_status deps (py_id p) StatusFailed s))"

text \<open>
  \<open>ProcessPayment\<close>: the payment returned, the error, and whether the goroutine that calls the
  gateway has been started.
\<close>

definition process_payment ::
  "draws \<Rightarrow> 's payment_deps \<Rightarrow> payment_request \<Rightarrow> 's \<Rightarrow> (payment option \<times> go_error option \<times> bool) \<times> 's" where
  "process_payment dr deps req s =
     (let p = new_payment dr req;
          failed = p\<lparr>py_status := StatusFailed\<rparr>;
          processing = p\<lparr>py_status := StatusProcessing\<rparr>
      in case pd_save deps p s of
           (Some x, s) \<Rightarrow> ((None, Some (''failed to save payment: '' @ x), False), s)
         | (None, s) \<Rightarrow>
             (let s = pd_publish deps (payment_initiated_event dr req) s
              in case pd_start_saga deps of
                   Some start \<Rightarrow>
                     (case start (py_id p) (rq_user_id req) (rq_amount req) (rq_currency req) s of
                        (Some x, s) \<Rightarrow>
                          ((Some failed, Some (''failed to start payment saga: '' @ x), False),
                           fail_payment_step dr deps failed ''saga_start_failed'' x s)
                      | (None, s) \<Rightarrow>
                          ((Some processing, None, False), snd (pd_update_status deps (py_id p) StatusProcessing s)))
                 | None \<Rightarrow>
                     (case pd_validate deps (rq_user_id req) (rq_amount req) (rq_currency req) s of
                        (Some x, s) \<Rightarrow>
                          ((Some failed, Some (''insufficient balance: '' @ x), False),
                           fail_payment_step dr deps failed ''insufficient_balance'' x s)
                      | (None, s) \<Rightarrow>
                          (case pd_deduct deps (rq_user_id req) (rq_amount req) (rq_currency req) (py_id p) s of
                             (Some x, s) \<Rightarrow>
                               ((Some failed, Some (''failed to deduct balance: '' @ x), False),
                                fail_payment_step dr deps failed ''deduction_failed'' x s)
                           | (None, s) \<Rightarrow>
                               ((Some processing, None, True),
                                snd (pd_update_status deps (py_id p) StatusProcessing s))))))"

text \<open>The goroutine: the errors of the refund and of the updates of the status are dropped.\<close>

definition finish_payment :: "draws \<Rightarrow> 's payment_deps \<Rightarrow> payment \<Rightarrow> 's \<Rightarrow> 's" where
  "finish_payment dr deps p s =
     (case pd_gateway deps p s of
        (Inl x, s) \<Rightarrow>
          (let s = snd (pd_refund deps (py_user_id p) (py_amount p) (py_currency p) (py_id p) ''gateway_failure'' s);
               s = snd (pd_update_status deps (py_id p) StatusFailed s)
           in publish_payment_failed dr deps p ''gateway_error'' x s)
      | (Inr txn, s) \<Rightarrow>
          (let s = snd (pd_update_status deps (py_id p) StatusCompleted s)
           in pd_publish deps (Payment_Completed_Event
                \<lparr>be_id = dr_uuid dr 3, be_type = PaymentCompleted, be_aggregate_id = py_id p, be_version = 1,
                 be_timestamp = dr_now dr 3, be_correlation_id = py_correlation_id p, be_metadata = []\<rparr>
                \<lparr>pc_user_id = py_user_id p, pc_amount = py_amount p, pc_currency = py_currency p,
                 pc_gateway_txn_id = txn, pc_processed_at = 0\<rparr>) s))"

definition get_payment :: "'s payment_deps \<Rightarrow> uuid \<Rightarrow> 's \<Rightarrow> payment go_result \<times> 's" where
  "get_payment deps i s = pd_get deps i s"

section \<open>The server\<close>

text \<open>
  The database, the breaker of the gateway and, as a ghost, all events handed to the publisher.  The
  services of \<open>main\<close>, with the draws of each call; no saga orchestrator is ever set on the payment
  service.
\<close>

record server =
  sr_db :: db
  sr_breaker :: circuit_breaker
  sr_published :: "domain_event list"

record server_env =
  sn_db :: db_env
  sn_validate :: draws
  sn_deduct :: draws
  sn_refund :: draws
  sn_gateway :: gateway_env
  sn_provider :: string

definition on_db :: "(db \<Rightarrow> 'a \<times> db) \<Rightarrow> server \<Rightarrow> 'a \<times> server" where
  "on_db f s = (case f (sr_db s) of (r, d) \<Rightarrow> (r, s\<lparr>sr_db := d\<rparr>))"

definition with_events :: "(db \<Rightarrow> 'a \<times> domain_event list \<times> db) \<Rightarrow> server \<Rightarrow> 'a \<times> server" where
  "with_events f s = (case f (sr_db s) of (r, evs, d) \<Rightarrow> (r, s\<lparr>sr_db := d, sr_published := sr_published s @ evs\<rparr>))"

definition server_deps :: "server_env \<Rightarrow> server payment_deps" where
  "server_deps env =
     (let repo = pg_wallet_repo (sn_db env)
      in \<lparr>pd_save = (\<lambda>p. on_db (pg_save_payment (sn_db env) p)),
          pd_get = (\<lambda>i. on_db (pg_get_payment (sn_db env) i)),
          pd_update_status = (\<lambda>i st. on_db (pg_update_status (sn_db env) i st)),
          pd_validate = (\<lambda>u a c. with_events (wallet_validate_balance (sn_validate env) repo u a c)),
          pd_deduct = (\<lambda>u a c p. with_events (wallet_deduct_balance (sn_deduct env) repo u a c p)),
          pd_refund = (\<lambda>u a c p r. with_events (wallet_refund_balance (sn_refund env) repo u a c p r)),
          pd_gateway = (\<lambda>p s. case gateway_process_payment (sn_gateway env) (sn_provider env) p (sr_breaker s) of
             (r, evs, cb) \<Rightarrow> (r, s\<lparr>sr_breaker := cb, sr_published := sr_published s @ evs\<rparr>)),
          pd_publish = (\<lambda>e s. s\<lparr>sr_published := sr_published s @ [e]\<rparr>),
          pd_start_saga = None\<rparr>)"

section \<open>Undisturbed runs\<close>

text \<open>No other connection, no lost messages.\<close>

definition undisturbed :: "db_env \<Rightarrow> bool" where
  "undisturbed env \<longleftrightarrow> (\<forall>n. de_fault env n = No_Fault \<and> de_others env n = [])"

lemma exec_undisturbed:
  "undisturbed env \<Longrightarrow> exec env st d =
     (case st (de_now env (db_count d)) (db_tables d) of
        Inl c \<Rightarrow> (Inl (de_violation env c), \<lparr>db_tables = db_tables d, db_count = Suc (db_count d)\<rparr>)
      | Inr (a, tb) \<Rightarrow> (Inr a, \<lparr>db_tables = tb, db_count = Suc (db_count d)\<rparr>))"
  by (simp add: undisturbed_def exec_def Let_def)

text \<open>The wallet of a user, and what the tables say otherwise.\<close>

definition account :: "tables \<Rightarrow> uuid \<Rightarrow> string \<Rightarrow> wallet \<Rightarrow> bool" where
  "account tb user currency w \<longleftrightarrow> schema_ok tb \<and>
     find (\<lambda>w. wl_user_id w = user \<and> wl_currency w = currency) (tb_wallets tb) = Some w"

lemma account_member: "account tb user currency w \<Longrightarrow> w \<in> set (tb_wallets tb)"
  unfolding account_def using find_member by fast

lemma account_schema: "account tb user currency w \<Longrightarrow> schema_ok tb"
  by (simp add: account_def)

lemma account_stored: "account tb user currency w \<Longrightarrow> stored tb (wl_id w) = Some (wl_balance w, wl_version w)"
  by (rule stored_member [OF account_schema account_member])

lemma account_balance: "account tb user currency w \<Longrightarrow> 0 \<le> sint (wl_balance w)"
  by (rule stored_balance [OF account_schema account_stored])

lemma get_wallet_undisturbed:
  assumes "undisturbed env" "account (db_tables d) user currency w"
  shows "pg_get_wallet env user currency d = (Inr w, \<lparr>db_tables = db_tables d, db_count = Suc (db_count d)\<rparr>)"
  using assms by (simp add: pg_get_wallet_def query_row_def exec_undisturbed get_wallet_stmt_def account_def)

lemma create_transaction_undisturbed:
  assumes "undisturbed env" "transaction_violation (db_tables d) t = None"
  shows "pg_create_transaction env t d =
    (None, \<lparr>db_tables = (db_tables d)\<lparr>tb_transactions := tb_transactions (db_tables d) @ [t]\<rparr>, db_count = Suc (db_count d)\<rparr>)"
  using assms by (simp add: pg_create_transaction_def exec_only_def exec_undisturbed create_transaction_stmt_def)

lemma update_balance_undisturbed:
  assumes "undisturbed env" "account (db_tables d) user currency w" "0 \<le> sint b" "wl_version w + 1 < 2 ^ 31"
  obtains tb where "pg_update_balance env (wl_id w) b (wl_version w) d = (None, \<lparr>db_tables = tb, db_count = Suc (db_count d)\<rparr>)"
    "tb_payments tb = tb_payments (db_tables d)" "tb_transactions tb = tb_transactions (db_tables d)"
    "account tb user currency (updated_wallet (de_now env (db_count d)) b w)"
proof -
  let ?now = "de_now env (db_count d)"
  note w = account_member [OF assms(2)]
  have ok: "schema_ok (db_tables d)" using assms(2) by (simp add: account_def)
  have unique: "w' = w" if "w' \<in> set (tb_wallets (db_tables d))" "wl_id w' = wl_id w" for w'
    using that w ok by (auto simp: schema_ok_def distinct_map dest: inj_onD)
  show ?thesis
  proof (cases rule: update_balance_cases [of "wl_id w" b "wl_version w" ?now "db_tables d"])
    case (refused c)
    have "wallet_violation (updated_wallet ?now b w) = None"
      using assms(3,4) by (simp add: wallet_violation_def updated_wallet_def i64_less_def)
    then have "find (\<lambda>w'. (wl_id w' = wl_id w \<and> wl_version w' = wl_version w) \<and>
        wallet_violation (updated_wallet ?now b w') \<noteq> None) (tb_wallets (db_tables d)) = None"
      using unique by (auto simp: find_None_iff)
    with refused show ?thesis by (simp add: update_balance_stmt_def Let_def)
  next
    case changed
    let ?tb = "(db_tables d)\<lparr>tb_wallets := map (update_row (wl_id w) (wl_version w) ?now b) (tb_wallets (db_tables d))\<rparr>"
    have "filter (\<lambda>w'. wl_id w' = wl_id w \<and> wl_version w' = wl_version w) (tb_wallets (db_tables d)) \<noteq> []"
      using w by (auto simp: filter_empty_conv)
    then have run: "pg_update_balance env (wl_id w) b (wl_version w) d = (None, \<lparr>db_tables = ?tb, db_count = Suc (db_count d)\<rparr>)"
      using assms(1) changed(1) by (simp add: pg_update_balance_def exec_undisturbed)
    have "schema_ok ?tb" using update_balance_schema [OF ok, of "wl_id w" b "wl_version w" ?now] changed(1) by simp
    moreover have "find (\<lambda>w. wl_user_id w = user \<and> wl_currency w = currency) (tb_wallets ?tb) =
        map_option (update_row (wl_id w) (wl_version w) ?now b)
          (find (\<lambda>w. wl_user_id w = user \<and> wl_currency w = currency) (tb_wallets (db_tables d)))"
      by (simp add: find_map_kept update_row_def updated_wallet_def)
    ultimately have "account ?tb user currency (updated_wallet ?now b w)"
      using assms(2) by (simp add: account_def update_row_def)
    with run show ?thesis by (intro that) simp_all
  qed
qed

text \<open>A transaction row that can be stored.\<close>

lemma new_transaction_ok:
  assumes "account tb user currency w" "length currency \<le> 3" "0 < sint amount" "kind \<in> {TypeDebit, TypeCredit}"
    and "dr_uuid dr 0 \<notin> tx_id ` set (tb_transactions tb)" "pid \<in> py_id ` set (tb_payments tb)"
  shows "transaction_violation tb (new_transaction dr kind w amount currency pid descr) = None"
  using assms account_member [OF assms(1)]
  by (auto simp: transaction_violation_def new_transaction_def TypeDebit_def TypeCredit_def TxnStatusPending_def i64_le_def)

lemma account_transaction:
  assumes "account tb user currency w" "transaction_violation tb t = None"
  shows "account (tb\<lparr>tb_transactions := tb_transactions tb @ [t]\<rparr>) user currency w"
  using assms create_transaction_schema [of tb t 0] by (simp add: account_def create_transaction_stmt_def)

lemma deduct_undisturbed:
  assumes "undisturbed env" "account (db_tables d) user currency w" "length currency \<le> 3" "0 < sint amount"
    and "dr_uuid dr 0 \<notin> tx_id ` set (tb_transactions (db_tables d))" "pid \<in> py_id ` set (tb_payments (db_tables d))"
    and "wl_version w + 1 < 2 ^ 31" "sint amount \<le> sint (wl_balance w)"
  obtains evs tb now where "wallet_deduct_balance dr (pg_wallet_repo env) user amount currency pid d =
      (None, evs, \<lparr>db_tables = tb, db_count = Suc (Suc (Suc (db_count d)))\<rparr>)"
    "tb_payments tb = tb_payments (db_tables d)"
    "tb_transactions tb = tb_transactions (db_tables d) @ [new_transaction dr TypeDebit w amount currency pid
       (''Payment deduction for payment '' @ pid)]"
    "account tb user currency (updated_wallet now (wl_balance w - amount) w)"
proof -
  let ?t = "new_transaction dr TypeDebit w amount currency pid (''Payment deduction for payment '' @ pid)"
  let ?tb1 = "(db_tables d)\<lparr>tb_transactions := tb_transactions (db_tables d) @ [?t]\<rparr>"
  have t: "transaction_violation (db_tables d) ?t = None" by (rule new_transaction_ok) (use assms in auto)
  have "sint (wl_balance w - amount) = sint (wl_balance w) - sint amount"
    using assms(4,8) sint_range [of "wl_balance w"] by (intro sint_sub_exact) linarith+
  then have "0 \<le> sint (wl_balance w - amount)" using assms(8) by simp
  from update_balance_undisturbed [of env "\<lparr>db_tables = ?tb1, db_count = Suc (Suc (db_count d))\<rparr>" user currency w, OF assms(1) _ this assms(7)]
    account_transaction [OF assms(2) t]
  obtain tb where tb: "pg_update_balance env (wl_id w) (wl_balance w - amount) (wl_version w)
        \<lparr>db_tables = ?tb1, db_count = Suc (Suc (db_count d))\<rparr> = (None, \<lparr>db_tables = tb, db_count = Suc (Suc (Suc (db_count d)))\<rparr>)"
      "tb_payments tb = tb_payments (db_tables d)" "tb_transactions tb = tb_transactions (db_tables d) @ [?t]"
      "account tb user currency (updated_wallet (de_now env (Suc (Suc (db_count d)))) (wl_balance w - amount) w)"
    by auto
  have create: "pg_create_transaction env ?t \<lparr>db_tables = db_tables d, db_count = Suc (db_count d)\<rparr> =
      (None, \<lparr>db_tables = ?tb1, db_count = Suc (Suc (db_count d))\<rparr>)"
    using create_transaction_undisturbed [of env "\<lparr>db_tables = db_tables d, db_count = Suc (db_count d)\<rparr>" ?t] assms(1) t by simp
  have "\<not> i64_less (wl_balance w) amount" using assms(8) by (simp add: i64_less_def)
  then have "\<exists>evs. wallet_deduct_balance dr (pg_wallet_repo env) user amount currency pid d =
      (None, evs, \<lparr>db_tables = tb, db_count = Suc (Suc (Suc (db_count d)))\<rparr>)"
    using get_wallet_undisturbed [OF assms(1,2)] create tb(1)
    by (simp add: wallet_deduct_balance_def pg_wallet_repo_def Let_def changed_event_def)
  with tb show ?thesis using that by blast
qed

lemma refund_undisturbed:
  assumes "undisturbed env" "account (db_tables d) user currency w" "length currency \<le> 3" "0 < sint amount"
    and "dr_uuid dr 0 \<notin> tx_id ` set (tb_transactions (db_tables d))" "pid \<in> py_id ` set (tb_payments (db_tables d))"
    and "wl_version w + 1 < 2 ^ 31" "0 \<le> sint (wl_balance w + amount)"
  obtains evs tb now where "wallet_refund_balance dr (pg_wallet_repo env) user amount currency pid reason d =
      (None, evs, \<lparr>db_tables = tb, db_count = Suc (Suc (Suc (db_count d)))\<rparr>)"
    "tb_payments tb = tb_payments (db_tables d)"
    "tb_transactions tb = tb_transactions (db_tables d) @ [new_transaction dr TypeCredit w amount currency pid
       (''Refund for payment '' @ pid @ '': '' @ reason)]"
    "account tb user currency (updated_wallet now (wl_balance w + amount) w)"
proof -
  let ?t = "new_transaction dr TypeCredit w amount currency pid (''Refund for payment '' @ pid @ '': '' @ reason)"
  let ?tb1 = "(db_tables d)\<lparr>tb_transactions := tb_transactions (db_tables d) @ [?t]\<rparr>"
  have t: "transaction_violation (db_tables d) ?t = None" by (rule new_transaction_ok) (use assms in auto)
  from update_balance_undisturbed [of env "\<lparr>db_tables = ?tb1, db_count = Suc (Suc (db_count d))\<rparr>" user currency w, OF assms(1) _ assms(8,7)]
    account_transaction [OF assms(2) t]
  obtain tb where tb: "pg_update_balance env (wl_id w) (wl_balance w + amount) (wl_version w)
        \<lparr>db_tables = ?tb1, db_count = Suc (Suc (db_count d))\<rparr> = (None, \<lparr>db_tables = tb, db_count = Suc (Suc (Suc (db_count d)))\<rparr>)"
      "tb_payments tb = tb_payments (db_tables d)" "tb_transactions tb = tb_transactions (db_tables d) @ [?t]"
      "account tb user currency (updated_wallet (de_now env (Suc (Suc (db_count d)))) (wl_balance w + amount) w)"
    by auto
  have create: "pg_create_transaction env ?t \<lparr>db_tables = db_tables d, db_count = Suc (db_count d)\<rparr> =
      (None, \<lparr>db_tables = ?tb1, db_count = Suc (Suc (db_count d))\<rparr>)"
    using create_transaction_undisturbed [of env "\<lparr>db_tables = db_tables d, db_count = Suc (db_count d)\<rparr>" ?t] assms(1) t by simp
  have "\<exists>evs. wallet_refund_balance dr (pg_wallet_repo env) user amount currency pid reason d =
      (None, evs, \<lparr>db_tables = tb, db_count = Suc (Suc (Suc (db_count d)))\<rparr>)"
    using get_wallet_undisturbed [OF assms(1,2)] create tb(1)
    by (simp add: wallet_refund_balance_def pg_wallet_repo_def Let_def changed_event_def)
  with tb show ?thesis using that by blast
qed

section \<open>A payment from end to end\<close>

text \<open>The request, and the goroutine it may start, run to their ends.\<close>

definition run_payment :: "draws \<Rightarrow> server_env \<Rightarrow> payment_request \<Rightarrow> server \<Rightarrow> go_error option \<times> server" where
  "run_payment dr env req s =
     (case process_payment dr (server_deps env) req s of
        ((p, err, started), s) \<Rightarrow> (err, if started then finish_payment dr (server_deps env) (the p) s else s))"

text \<open>The row of a payment; the transaction id of the gateway is never stored.\<close>

definition settled :: "tables \<Rightarrow> uuid \<Rightarrow> string \<Rightarrow> bool" where
  "settled tb pid status \<longleftrightarrow>
     (\<exists>q. find (\<lambda>p. py_id p = pid) (tb_payments tb) = Some q \<and> py_status q = status \<and> py_gateway_txn_id q = '''')"

lemma settled_id: "settled tb pid status \<Longrightarrow> pid \<in> py_id ` set (tb_payments tb)"
  using find_member by (fastforce simp: settled_def)

lemma settled_payments: "settled tb pid status \<Longrightarrow> tb_payments tb' = tb_payments tb \<Longrightarrow> settled tb' pid status"
  by (simp add: settled_def)

lemma save_payment_undisturbed:
  assumes "undisturbed env" "payment_violation p = None" "py_id p \<notin> py_id ` set (tb_payments (db_tables d))"
    and "account (db_tables d) user currency w"
  obtains tb where "pg_save_payment env p d = (None, \<lparr>db_tables = tb, db_count = Suc (db_count d)\<rparr>)"
    "tb_payments tb = tb_payments (db_tables d) @ [p]" "tb_transactions tb = tb_transactions (db_tables d)"
    "account tb user currency w"
proof (rule that)
  let ?tb = "(db_tables d)\<lparr>tb_payments := tb_payments (db_tables d) @ [p]\<rparr>"
  show "pg_save_payment env p d = (None, \<lparr>db_tables = ?tb, db_count = Suc (db_count d)\<rparr>)"
    using assms(1-3) by (simp add: pg_save_payment_def exec_only_def exec_undisturbed save_payment_stmt_def)
  show "account ?tb user currency w"
    using save_payment_schema [OF account_schema [OF assms(4)], of p 0] assms(2-4)
    by (simp add: save_payment_stmt_def account_def)
qed simp_all

lemma update_status_undisturbed:
  assumes "undisturbed env" "length status \<le> 50" "account (db_tables d) user currency w" "settled (db_tables d) pid st"
  obtains tb where "snd (pg_update_status env pid status d) = \<lparr>db_tables = tb, db_count = Suc (db_count d)\<rparr>"
    "settled tb pid status" "tb_transactions tb = tb_transactions (db_tables d)" "account tb user currency w"
proof -
  let ?now = "de_now env (db_count d)"
  let ?tb = "(db_tables d)\<lparr>tb_payments := map (update_payment pid status None ?now) (tb_payments (db_tables d))\<rparr>"
  obtain q where q: "find (\<lambda>p. py_id p = pid) (tb_payments (db_tables d)) = Some q" "py_gateway_txn_id q = ''''"
    using assms(4) by (auto simp: settled_def)
  have "pg_update_status env pid status d = (None, \<lparr>db_tables = ?tb, db_count = Suc (db_count d)\<rparr>)"
    using assms(1,2) by (simp add: pg_update_status_def exec_only_def exec_undisturbed update_status_stmt_def)
  moreover have "find (\<lambda>p. py_id p = pid) (tb_payments ?tb) = Some (update_payment pid status None ?now q)"
    using q by (simp add: find_map_kept)
  moreover have "py_id q = pid" using q(1) find_member by fast
  moreover have "account ?tb user currency w"
    using update_status_schema [OF account_schema [OF assms(3)], of pid status ?now] assms(2,3)
    by (simp add: update_status_stmt_def account_def)
  ultimately show ?thesis using q(2) by (intro that [of ?tb]) (auto simp: settled_def update_payment_def)
qed

lemma updated_wallet_simps [simp]:
  "wl_balance (updated_wallet now b w) = b" "wl_version (updated_wallet now b w) = wl_version w + 1"
  by (simp_all add: updated_wallet_def)

text \<open>The calls of the server.\<close>

lemma server_deps_simps [simp]:
  "pd_save (server_deps env) p = on_db (pg_save_payment (sn_db env) p)"
  "pd_update_status (server_deps env) i st = on_db (pg_update_status (sn_db env) i st)"
  "pd_validate (server_deps env) u a c =
     with_events (wallet_validate_balance (sn_validate env) (pg_wallet_repo (sn_db env)) u a c)"
  "pd_deduct (server_deps env) u a c pid =
     with_events (wallet_deduct_balance (sn_deduct env) (pg_wallet_repo (sn_db env)) u a c pid)"
  "pd_refund (server_deps env) u a c pid r =
     with_events (wallet_refund_balance (sn_refund env) (pg_wallet_repo (sn_db env)) u a c pid r)"
  "pd_publish (server_deps env) e s = s\<lparr>sr_published := sr_published s @ [e]\<rparr>"
  "pd_start_saga (server_deps env) = None"
  "pd_gateway (server_deps env) p s =
     (case gateway_process_payment (sn_gateway env) (sn_provider env) p (sr_breaker s) of
        (r, evs, cb) \<Rightarrow> (r, s\<lparr>sr_breaker := cb, sr_published := sr_published s @ evs\<rparr>))"
  by (simp_all add: server_deps_def Let_def)

lemma new_payment_simps [simp]:
  "py_id (new_payment dr req) = dr_uuid dr 1" "py_user_id (new_payment dr req) = rq_user_id req"
  "py_amount (new_payment dr req) = rq_amount req" "py_currency (new_payment dr req) = rq_currency req"
  "py_gateway_txn_id (new_payment dr req) = ''''"
  by (simp_all add: new_payment_def)

text \<open>The part of the goroutine, from a wallet the amount has been taken from.\<close>

lemma finish_undisturbed:
  assumes "undisturbed (sn_db env)" "account (db_tables (sr_db s)) user currency w" "length currency \<le> 3"
    and "py_user_id p = user" "py_currency p = currency" "py_amount p = amount" "py_id p = pid"
    and "0 < sint amount" "dr_uuid (sn_refund env) 0 \<notin> tx_id ` set (tb_transactions (db_tables (sr_db s)))"
    and "settled (db_tables (sr_db s)) pid st" "wl_version w + 1 < 2 ^ 31" "0 \<le> sint (wl_balance w + amount)"
    and "gateway_process_payment (sn_gateway env) (sn_provider env) p (sr_breaker s) = (answer, evs, cb)"
    and "tb = db_tables (sr_db (finish_payment dr (server_deps env) p s))"
  shows "case answer of
       Inr txn \<Rightarrow> settled tb pid StatusCompleted \<and> stored tb (wl_id w) = Some (wl_balance w, wl_version w) \<and>
         tb_transactions tb = tb_transactions (db_tables (sr_db s))
     | Inl x \<Rightarrow> settled tb pid StatusFailed \<and> stored tb (wl_id w) = Some (wl_balance w + amount, wl_version w + 1) \<and>
         tb_transactions tb = tb_transactions (db_tables (sr_db s)) @ [new_transaction (sn_refund env) TypeCredit w amount
           currency pid (''Refund for payment '' @ pid @ '': '' @ ''gateway_failure'')]"
proof (cases answer)
  case (Inr txn)
  have len: "length StatusCompleted \<le> 50" by (simp add: StatusCompleted_def)
  obtain tb' where status:
    "snd (pg_update_status (sn_db env) pid StatusCompleted (sr_db s)) = \<lparr>db_tables = tb', db_count = Suc (db_count (sr_db s))\<rparr>"
    "settled tb' pid StatusCompleted" "tb_transactions tb' = tb_transactions (db_tables (sr_db s))" "account tb' user currency w"
    by (rule update_status_undisturbed [OF assms(1) len assms(2,10)])
  have "tb = tb'"
    using Inr assms(7,13,14) status(1) by (auto simp: finish_payment_def on_db_def split: prod.split)
  with Inr status account_stored [OF status(4)] show ?thesis by simp
next
  case (Inl x)
  have len: "length StatusFailed \<le> 50" by (simp add: StatusFailed_def)
  obtain evs' tb1 now where refund:
    "wallet_refund_balance (sn_refund env) (pg_wallet_repo (sn_db env)) user amount currency pid ''gateway_failure'' (sr_db s) =
      (None, evs', \<lparr>db_tables = tb1, db_count = Suc (Suc (Suc (db_count (sr_db s))))\<rparr>)"
    "tb_payments tb1 = tb_payments (db_tables (sr_db s))"
    "tb_transactions tb1 = tb_transactions (db_tables (sr_db s)) @ [new_transaction (sn_refund env) TypeCredit w amount
       currency pid (''Refund for payment '' @ pid @ '': '' @ ''gateway_failure'')]"
    "account tb1 user currency (updated_wallet now (wl_balance w + amount) w)"
    by (rule refund_undisturbed [OF assms(1,2,3,8,9) settled_id [OF assms(10)] assms(11,12)])
  let ?d = "\<lparr>db_tables = tb1, db_count = Suc (Suc (Suc (db_count (sr_db s))))\<rparr>"
  have st: "settled (db_tables ?d) pid st" using settled_payments [OF assms(10) refund(2)] by simp
  have acc: "account (db_tables ?d) user currency (updated_wallet now (wl_balance w + amount) w)" using refund(4) by simp
  obtain tb' where status: "snd (pg_update_status (sn_db env) pid StatusFailed ?d) =
      \<lparr>db_tables = tb', db_count = Suc (db_count ?d)\<rparr>"
    "settled tb' pid StatusFailed" "tb_transactions tb' = tb_transactions (db_tables ?d)"
    "account tb' user currency (updated_wallet now (wl_balance w + amount) w)"
    by (rule update_status_undisturbed [OF assms(1) len acc st])
  have "tb0 = tb'" if "tb0 = db_tables (sr_db (finish_payment dr (server_deps env) p s))" for tb0
    using that Inl assms(4-7,13) refund(1) status(1)
    by (auto simp: finish_payment_def on_db_def with_events_def publish_payment_failed_def split: prod.split)
  with Inl refund status account_stored [OF status(4)] show ?thesis by (simp add: assms(14))
qed

definition processing_payment :: "draws \<Rightarrow> payment_request \<Rightarrow> payment" where
  "processing_payment dr req = (new_payment dr req)\<lparr>py_status := StatusProcessing\<rparr>"

lemma find_append_fresh: "f p \<notin> f ` set xs \<Longrightarrow> find (\<lambda>x. f x = f p) (xs @ [p]) = Some p"
  by (induction xs) auto

lemma validate_undisturbed:
  assumes "undisturbed env" "account (db_tables d) user currency w"
  shows "\<exists>evs. wallet_validate_balance dr (pg_wallet_repo env) user amount currency d =
    (if i64_less (wl_balance w) amount then Some (''insufficient balance: required '' @ show_int (sint amount) @
       '', available '' @ show_int (sint (wl_balance w))) else None, evs,
     \<lparr>db_tables = db_tables d, db_count = Suc (db_count d)\<rparr>)"
  using get_wallet_undisturbed [OF assms] by (simp add: wallet_validate_balance_def pg_wallet_repo_def)

text \<open>The part of the handler, up to the start of the goroutine.\<close>

lemma process_refused:
  assumes "undisturbed (sn_db env)" "account (db_tables (sr_db s)) (rq_user_id req) (rq_currency req) w"
    and "payment_violation (new_payment dr req) = None" "dr_uuid dr 1 \<notin> py_id ` set (tb_payments (db_tables (sr_db s)))"
    and "sint (wl_balance w) < sint (rq_amount req)"
  shows "\<exists>err s' tb. run_payment dr env req s = (Some err, s') \<and> tb = db_tables (sr_db s') \<and>
    settled tb (dr_uuid dr 1) StatusFailed \<and> stored tb (wl_id w) = Some (wl_balance w, wl_version w) \<and>
    tb_transactions tb = tb_transactions (db_tables (sr_db s))"
proof -
  let ?pid = "dr_uuid dr 1"
  obtain tb where save: "pg_save_payment (sn_db env) (new_payment dr req) (sr_db s) =
      (None, \<lparr>db_tables = tb, db_count = Suc (db_count (sr_db s))\<rparr>)"
    "tb_payments tb = tb_payments (db_tables (sr_db s)) @ [new_payment dr req]"
    "tb_transactions tb = tb_transactions (db_tables (sr_db s))"
    "account tb (rq_user_id req) (rq_currency req) w"
    by (rule save_payment_undisturbed [OF assms(1,3) _ assms(2)]) (use assms(4) in simp)
  let ?d1 = "\<lparr>db_tables = tb, db_count = Suc (db_count (sr_db s))\<rparr>"
  let ?d2 = "\<lparr>db_tables = tb, db_count = Suc (Suc (db_count (sr_db s)))\<rparr>"
  have st: "settled (db_tables ?d2) ?pid StatusPending"
    using save(2) find_append_fresh [of py_id "new_payment dr req"] assms(4)
    by (simp add: settled_def) (simp add: new_payment_def)
  have less: "i64_less (wl_balance w) (rq_amount req)" using assms(5) by (simp add: i64_less_def)
  obtain evs err where validate: "wallet_validate_balance (sn_validate env) (pg_wallet_repo (sn_db env)) (rq_user_id req)
      (rq_amount req) (rq_currency req) ?d1 = (Some err, evs, ?d2)"
    using validate_undisturbed [OF assms(1), of ?d1 "rq_user_id req" "rq_currency req" w "sn_validate env" "rq_amount req"]
      save(4) less by auto
  have acc: "account (db_tables ?d2) (rq_user_id req) (rq_currency req) w" using save(4) by simp
  have len: "length StatusFailed \<le> 50" by (simp add: StatusFailed_def)
  obtain tb' where status: "snd (pg_update_status (sn_db env) ?pid StatusFailed ?d2) = \<lparr>db_tables = tb', db_count = Suc (db_count ?d2)\<rparr>"
    "settled tb' ?pid StatusFailed" "tb_transactions tb' = tb_transactions (db_tables ?d2)"
    "account tb' (rq_user_id req) (rq_currency req) w"
    by (rule update_status_undisturbed [OF assms(1) len acc st])
  show ?thesis
    using save(1,3) validate status account_stored [OF status(4)]
    by (auto simp: run_payment_def process_payment_def Let_def on_db_def with_events_def fail_payment_step_def
      publish_payment_failed_def split: prod.split)
qed

lemma process_started:
  assumes "undisturbed (sn_db env)" "account (db_tables (sr_db s)) (rq_user_id req) (rq_currency req) w"
    and "payment_violation (new_payment dr req) = None" "dr_uuid dr 1 \<notin> py_id ` set (tb_payments (db_tables (sr_db s)))"
    and "dr_uuid (sn_deduct env) 0 \<notin> tx_id ` set (tb_transactions (db_tables (sr_db s)))"
    and "wl_version w + 1 < 2 ^ 31" "sint (rq_amount req) \<le> sint (wl_balance w)"
  obtains s' now where
    "process_payment dr (server_deps env) req s = ((Some (processing_payment dr req), None, True), s')"
    "sr_breaker s' = sr_breaker s" "settled (db_tables (sr_db s')) (dr_uuid dr 1) StatusProcessing"
    "tb_transactions (db_tables (sr_db s')) = tb_transactions (db_tables (sr_db s)) @
       [new_transaction (sn_deduct env) TypeDebit w (rq_amount req) (rq_currency req) (dr_uuid dr 1)
         (''Payment deduction for payment '' @ dr_uuid dr 1)]"
    "account (db_tables (sr_db s')) (rq_user_id req) (rq_currency req)
       (updated_wallet now (wl_balance w - rq_amount req) w)"
proof -
  let ?pid = "dr_uuid dr 1"
  obtain tb where save: "pg_save_payment (sn_db env) (new_payment dr req) (sr_db s) =
      (None, \<lparr>db_tables = tb, db_count = Suc (db_count (sr_db s))\<rparr>)"
    "tb_payments tb = tb_payments (db_tables (sr_db s)) @ [new_payment dr req]"
    "tb_transactions tb = tb_transactions (db_tables (sr_db s))"
    "account tb (rq_user_id req) (rq_currency req) w"
    by (rule save_payment_undisturbed [OF assms(1,3) _ assms(2)]) (use assms(4) in simp)
  let ?d1 = "\<lparr>db_tables = tb, db_count = Suc (db_count (sr_db s))\<rparr>"
  let ?d2 = "\<lparr>db_tables = tb, db_count = Suc (Suc (db_count (sr_db s)))\<rparr>"
  have st: "settled (db_tables ?d2) ?pid StatusPending"
    using save(2) find_append_fresh [of py_id "new_payment dr req"] assms(4)
    by (simp add: settled_def) (simp add: new_payment_def)
  have less: "\<not> i64_less (wl_balance w) (rq_amount req)" using assms(7) by (simp add: i64_less_def)
  obtain evs where validate: "wallet_validate_balance (sn_validate env) (pg_wallet_repo (sn_db env)) (rq_user_id req)
      (rq_amount req) (rq_currency req) ?d1 = (None, evs, ?d2)"
    using validate_undisturbed [OF assms(1), of ?d1 "rq_user_id req" "rq_currency req" w "sn_validate env" "rq_amount req"]
      save(4) less by auto
  have acc: "account (db_tables ?d2) (rq_user_id req) (rq_currency req) w" using save(4) by simp
  have fields: "length (rq_currency req) \<le> 3" "0 < sint (rq_amount req)"
    using assms(3) by (auto simp: payment_violation_def i64_le_def split: if_splits)
  have fresh: "dr_uuid (sn_deduct env) 0 \<notin> tx_id ` set (tb_transactions (db_tables ?d2))" using assms(5) save(3) by simp
  obtain evs' tb' now where deduct: "wallet_deduct_balance (sn_deduct env) (pg_wallet_repo (sn_db env)) (rq_user_id req)
      (rq_amount req) (rq_currency req) ?pid ?d2 = (None, evs', \<lparr>db_tables = tb', db_count = Suc (Suc (Suc (db_count ?d2)))\<rparr>)"
    "tb_payments tb' = tb_payments (db_tables ?d2)"
    "tb_transactions tb' = tb_transactions (db_tables ?d2) @ [new_transaction (sn_deduct env) TypeDebit w (rq_amount req)
       (rq_currency req) ?pid (''Payment deduction for payment '' @ ?pid)]"
    "account tb' (rq_user_id req) (rq_currency req) (updated_wallet now (wl_balance w - rq_amount req) w)"
    by (rule deduct_undisturbed [OF assms(1) acc fields fresh settled_id [OF st] assms(6,7)])
  let ?d3 = "\<lparr>db_tables = tb', db_count = Suc (Suc (Suc (db_count ?d2)))\<rparr>"
  have st3: "settled (db_tables ?d3) ?pid StatusPending" using settled_payments [OF st deduct(2)] by simp
  have acc3: "account (db_tables ?d3) (rq_user_id req) (rq_currency req) (updated_wallet now (wl_balance w - rq_amount req) w)"
    using deduct(4) by simp
  have len: "length StatusProcessing \<le> 50" by (simp add: StatusProcessing_def)
  obtain tb'' where status: "snd (pg_update_status (sn_db env) ?pid StatusProcessing ?d3) = \<lparr>db_tables = tb'', db_count = Suc (db_count ?d3)\<rparr>"
    "settled tb'' ?pid StatusProcessing" "tb_transactions tb'' = tb_transactions (db_tables ?d3)"
    "account tb'' (rq_user_id req) (rq_currency req) (updated_wallet now (wl_balance w - rq_amount req) w)"
    by (rule update_status_undisturbed [OF assms(1) len acc3 st3])
  let ?s' = "snd (process_payment dr (server_deps env) req s)"
  have "process_payment dr (server_deps env) req s = ((Some (processing_payment dr req), None, True), ?s') \<and>
      sr_breaker ?s' = sr_breaker s \<and> db_tables (sr_db ?s') = tb''"
    using save(1) validate deduct(1) status(1)
    by (auto simp: process_payment_def Let_def on_db_def with_events_def processing_payment_def split: prod.split)
  then show ?thesis using that [of ?s' now] status(2-4) deduct(3) save(3) by simp
qed

section \<open>Property\<close>

text \<open>On an undisturbed database a payment that passes the checks of its table comes to one of three
  ends.  The wallet does not have the amount: an error, the payment failed, no money moved.  The gateway
  accepts: the payment completed, exactly the amount taken once, one debit.  The gateway fails or
  declines: the payment failed and the balance as before, one debit and one credit of the amount.  In
  no case is the gateway's transaction id stored with the payment.\<close>

theorem payment_settles:
  assumes "undisturbed (sn_db env)" "account (db_tables (sr_db s)) (rq_user_id req) (rq_currency req) w"
    and "payment_violation (new_payment dr req) = None" "dr_uuid dr 1 \<notin> py_id ` set (tb_payments (db_tables (sr_db s)))"
    and "dr_uuid (sn_deduct env) 0 \<notin> tx_id ` set (tb_transactions (db_tables (sr_db s)))"
    and "dr_uuid (sn_refund env) 0 \<notin> tx_id ` set (tb_transactions (db_tables (sr_db s)))"
    and "dr_uuid (sn_refund env) 0 \<noteq> dr_uuid (sn_deduct env) 0" "wl_version w + 2 < 2 ^ 31"
    and "run_payment dr env req s = (err, s')" "tb = db_tables (sr_db s)" "tb' = db_tables (sr_db s')"
    and "gateway_process_payment (sn_gateway env) (sn_provider env) (processing_payment dr req) (sr_breaker s) =
      (answer, evs, cb)"
  shows "if sint (wl_balance w) < sint (rq_amount req)
    then err \<noteq> None \<and> settled tb' (dr_uuid dr 1) ''failed'' \<and>
      stored tb' (wl_id w) = Some (wl_balance w, wl_version w) \<and> tb_transactions tb' = tb_transactions tb
    else err = None \<and> (\<exists>debit. tx_type debit = ''debit'' \<and> tx_amount debit = rq_amount req \<and>
      (case answer of
         Inr txn \<Rightarrow> settled tb' (dr_uuid dr 1) ''completed'' \<and>
           stored tb' (wl_id w) = Some (wl_balance w - rq_amount req, wl_version w + 1) \<and>
           tb_transactions tb' = tb_transactions tb @ [debit]
       | Inl x \<Rightarrow> settled tb' (dr_uuid dr 1) ''failed'' \<and>
           stored tb' (wl_id w) = Some (wl_balance w, wl_version w + 2) \<and>
           (\<exists>credit. tx_type credit = ''credit'' \<and> tx_amount credit = rq_amount req \<and>
              tb_transactions tb' = tb_transactions tb @ [debit, credit])))"
proof (cases "sint (wl_balance w) < sint (rq_amount req)")
  case True
  then show ?thesis using process_refused [OF assms(1-4) True] assms(9-11) by (auto simp: StatusFailed_def)
next
  case False
  then have enough: "sint (rq_amount req) \<le> sint (wl_balance w)" by simp
  have v: "wl_version w + 1 < 2 ^ 31" using assms(8) by simp
  obtain s1 now where start:
    "process_payment dr (server_deps env) req s = ((Some (processing_payment dr req), None, True), s1)"
    "sr_breaker s1 = sr_breaker s" "settled (db_tables (sr_db s1)) (dr_uuid dr 1) StatusProcessing"
    "tb_transactions (db_tables (sr_db s1)) = tb_transactions (db_tables (sr_db s)) @
       [new_transaction (sn_deduct env) TypeDebit w (rq_amount req) (rq_currency req) (dr_uuid dr 1)
         (''Payment deduction for payment '' @ dr_uuid dr 1)]" (is "_ = _ @ [?debit]")
    "account (db_tables (sr_db s1)) (rq_user_id req) (rq_currency req)
       (updated_wallet now (wl_balance w - rq_amount req) w)"
    by (rule process_started [OF assms(1-5) v enough])
  let ?w = "updated_wallet now (wl_balance w - rq_amount req) w"
  have fields: "length (rq_currency req) \<le> 3" "0 < sint (rq_amount req)"
    using assms(3) by (auto simp: payment_violation_def i64_le_def split: if_splits)
  have debit: "tx_type ?debit = ''debit''" "tx_amount ?debit = rq_amount req"
    by (simp_all add: new_transaction_def TypeDebit_def)
  let ?tb = "db_tables (sr_db (finish_payment dr (server_deps env) (processing_payment dr req) s1))"
  have fresh: "dr_uuid (sn_refund env) 0 \<notin> tx_id ` set (tb_transactions (db_tables (sr_db s1)))"
    using assms(6,7) start(4) by (simp add: new_transaction_def)
  have v2: "wl_version ?w + 1 < 2 ^ 31" using assms(8) by simp
  have nonneg: "0 \<le> sint (wl_balance ?w + rq_amount req)" using account_balance [OF assms(2)] by simp
  have p: "py_user_id (processing_payment dr req) = rq_user_id req" "py_currency (processing_payment dr req) = rq_currency req"
    "py_amount (processing_payment dr req) = rq_amount req" "py_id (processing_payment dr req) = dr_uuid dr 1"
    by (simp_all add: processing_payment_def)
  have gw: "gateway_process_payment (sn_gateway env) (sn_provider env) (processing_payment dr req) (sr_breaker s1) =
      (answer, evs, cb)" using assms(12) start(2) by simp
  note finish = finish_undisturbed [OF assms(1) start(5) fields(1) p fields(2) fresh start(3) v2 nonneg gw refl, of dr]
  have run: "err = None" "tb' = ?tb" using assms(9,11) start(1) by (auto simp: run_payment_def)
  show ?thesis
    using finish False run assms(10) start(4) debit
    by (cases answer) (auto simp: StatusCompleted_def StatusFailed_def new_transaction_def TypeCredit_def)
qed

definition example_request :: payment_request where
  "example_request = \<lparr>rq_user_id = ''u'', rq_amount = 30, rq_currency = ''USD'', rq_service_id = ''s'', rq_description = ''''\<rparr>"

definition example_server :: server where
  "example_server = \<lparr>sr_db = example_db, sr_breaker = new_circuit_breaker 5 60, sr_published = []\<rparr>"

definition tagged_draws :: "string \<Rightarrow> draws" where
  "tagged_draws t = \<lparr>dr_uuid = (\<lambda>n. t), dr_now = (\<lambda>_. 0)\<rparr>"

definition example_server_env :: server_env where
  "example_server_env = \<lparr>sn_db = quiet, sn_validate = tagged_draws ''v'', sn_deduct = tagged_draws ''d'',
     sn_refund = tagged_draws ''r'', sn_gateway = \<lparr>ge_ctx = None, ge_scenario = 0, ge_draws = (\<lambda>_. ('''', 0)),
     ge_start = 0, ge_failed_at = 0, ge_unix = 0, ge_duration = 0\<rparr>, sn_provider = ''stripe''\<rparr>"

definition example_funds :: wallet where
  "example_funds = \<lparr>wl_id = ''w'', wl_user_id = ''u'', wl_balance = 100, wl_currency = ''USD'', wl_created_at = 0,
     wl_updated_at = 0, wl_version = 1\<rparr>"

lemma example_payment:
  "undisturbed (sn_db example_server_env)"
  "account (db_tables (sr_db example_server)) (rq_user_id example_request) (rq_currency example_request) example_funds"
  "dr_uuid (tagged_draws ''n'') 1 \<notin> py_id ` set (tb_payments (db_tables (sr_db example_server)))"
  "dr_uuid (sn_deduct example_server_env) 0 \<notin> tx_id ` set (tb_transactions (db_tables (sr_db example_server)))"
  "dr_uuid (sn_refund example_server_env) 0 \<notin> tx_id ` set (tb_transactions (db_tables (sr_db example_server)))"
  "dr_uuid (sn_refund example_server_env) 0 \<noteq> dr_uuid (sn_deduct example_server_env) 0"
  using example_schema
  by (simp_all add: undisturbed_def example_server_env_def quiet_def account_def example_server_def example_request_def
      example_db_def example_funds_def tagged_draws_def)

lemma example_funds_simps: "wl_balance example_funds = 100" "wl_version example_funds = 1" "wl_id example_funds = ''w''"
  by (simp_all add: example_funds_def)

lemma example_gateway:
  "\<exists>txn evs cb. gateway_process_payment (sn_gateway example_server_env) (sn_provider example_server_env)
     (processing_payment (tagged_draws ''n'') example_request) (sr_breaker example_server) = (Inr txn, evs, cb)"
  by (simp add: gateway_process_payment_def can_execute_def call_gateway_api_def example_server_env_def
    example_server_def new_circuit_breaker_def)

lemma payment_settles_witness:
  "(\<lambda>tb. settled tb ''n'' ''completed'' \<and> stored tb ''w'' = Some (70, 2))
    (db_tables (sr_db (snd (run_payment (tagged_draws ''n'') example_server_env example_request example_server))))"
proof -
  let ?dr = "tagged_draws ''n''" and ?env = example_server_env and ?s = example_server
  obtain err s' where run: "run_payment ?dr ?env example_request ?s = (err, s')"
    by (cases "run_payment ?dr ?env example_request ?s")
  have ok: "payment_violation (new_payment ?dr example_request) = None"
    by (simp add: payment_violation_def new_payment_def example_request_def statuses i64_le_def)
  obtain txn evs cb where gateway: "gateway_process_payment (sn_gateway ?env) (sn_provider ?env)
      (processing_payment ?dr example_request) (sr_breaker ?s) = (Inr txn, evs, cb)"
    using example_gateway by blast
  from payment_settles [OF example_payment(1,2) ok example_payment(3-6) _ run refl refl gateway] run
  show ?thesis by (auto simp: example_request_def tagged_draws_def example_funds_simps)
qed

section \<open>What becomes of the events\<close>

text \<open>An event the publisher refuses, or of a type no handler of the server is registered for.\<close>

definition unheard :: "domain_event \<Rightarrow> bool" where
  "unheard e \<longleftrightarrow> (\<forall>b. e = Base_Event b \<longrightarrow>
     be_type b \<in> {WalletValidated, WalletInsufficient, GatewayRequestSent, GatewayError, AlertTriggered})"

lemma wallet_events_unheard:
  "wallet_validate_balance dr repo u a c s = (r, evs, s') \<Longrightarrow> list_all unheard evs"
  "wallet_deduct_balance dr repo u a c pid s = (r, evs, s') \<Longrightarrow> list_all unheard evs"
  "wallet_refund_balance dr repo u a c pid reason s = (r, evs, s') \<Longrightarrow> list_all unheard evs"
  by (auto simp: wallet_validate_balance_def wallet_deduct_balance_def wallet_refund_balance_def Let_def
    balance_event_def changed_event_def unheard_def split: prod.splits sum.splits option.splits if_splits)

lemma gateway_events_unheard:
  "gateway_process_payment env provider p cb = (r, evs, cb') \<Longrightarrow> list_all unheard evs"
  by (auto simp: gateway_process_payment_def gateway_error_event_def gateway_request_sent_def
    gateway_response_event_def gateway_event_def unheard_def split: prod.splits sum.splits bool.splits)

abbreviation all_unheard :: "server \<Rightarrow> bool" where
  "all_unheard s \<equiv> list_all unheard (sr_published s)"

lemma on_db_unheard: "on_db f s = (r, s') \<Longrightarrow> all_unheard s' \<longleftrightarrow> all_unheard s"
  by (auto simp: on_db_def split: prod.splits)

lemma on_db_unheard_snd: "all_unheard (snd (on_db f s)) \<longleftrightarrow> all_unheard s"
  by (cases "on_db f s") (simp add: on_db_unheard)

lemma with_events_unheard:
  assumes "\<And>r evs d'. f (sr_db s) = (r, evs, d') \<Longrightarrow> list_all unheard evs" "with_events f s = (r, s')" "all_unheard s"
  shows "all_unheard s'"
  using assms by (auto simp: with_events_def split: prod.splits)

lemma save_unheard: "pd_save (server_deps env) p s = (x, s') \<Longrightarrow> all_unheard s \<Longrightarrow> all_unheard s'"
  by (simp add: on_db_unheard)

lemma validate_unheard:
  "pd_validate (server_deps env) u a c s = (x, s') \<Longrightarrow> all_unheard s \<Longrightarrow> all_unheard s'"
  unfolding server_deps_simps by (rule with_events_unheard [OF wallet_events_unheard(1)])

lemma deduct_unheard:
  "pd_deduct (server_deps env) u a c pid s = (x, s') \<Longrightarrow> all_unheard s \<Longrightarrow> all_unheard s'"
  unfolding server_deps_simps by (rule with_events_unheard [OF wallet_events_unheard(2)])

lemma refund_unheard:
  "pd_refund (server_deps env) u a c pid reason s = (x, s') \<Longrightarrow> all_unheard s \<Longrightarrow> all_unheard s'"
  unfolding server_deps_simps by (rule with_events_unheard [OF wallet_events_unheard(3)])

lemmas deps_unheard = save_unheard validate_unheard deduct_unheard refund_unheard

lemma payment_events_unheard:
  "unheard (payment_initiated_event dr req)" "all_unheard s \<Longrightarrow> all_unheard (publish_payment_failed dr (server_deps env) p code x s)"
  by (simp_all add: payment_initiated_event_def publish_payment_failed_def unheard_def)

lemma process_unheard:
  assumes "process_payment dr (server_deps env) req s = (r, s')" "all_unheard s"
  shows "all_unheard s'"
proof -
  let ?dp = "server_deps env"
  have step: "all_unheard (fail_payment_step dr ?dp p code x s1)" if "all_unheard s1" for p code x s1
    unfolding fail_payment_step_def by (rule payment_events_unheard) (use that in \<open>simp add: on_db_unheard_snd\<close>)
  have status: "all_unheard (snd (pd_update_status ?dp i st s1))" if "all_unheard s1" for i st s1
    using that by (simp add: on_db_unheard_snd)
  obtain e s1 where s1: "pd_save ?dp (new_payment dr req) s = (e, s1)" by (cases "pd_save ?dp (new_payment dr req) s")
  let ?s1 = "pd_publish ?dp (payment_initiated_event dr req) s1"
  have u1: "all_unheard s1" "all_unheard ?s1" using deps_unheard(1) [OF s1 assms(2)] payment_events_unheard(1) by simp_all
  obtain v s2 where s2: "pd_validate ?dp (rq_user_id req) (rq_amount req) (rq_currency req) ?s1 = (v, s2)"
    by (cases "pd_validate ?dp (rq_user_id req) (rq_amount req) (rq_currency req) ?s1")
  note u2 = deps_unheard(2) [OF s2 u1(2)]
  obtain x s3 where s3: "pd_deduct ?dp (rq_user_id req) (rq_amount req) (rq_currency req) (py_id (new_payment dr req)) s2 = (x, s3)"
    by (cases "pd_deduct ?dp (rq_user_id req) (rq_amount req) (rq_currency req) (py_id (new_payment dr req)) s2")
  note u3 = deps_unheard(3) [OF s3 u2]
  show ?thesis
    using assms(1) s1 s2 s3 u1 step [OF u2] step [OF u3] status [OF u3]
    unfolding process_payment_def Let_def by (auto split: option.splits simp del: server_deps_simps(1-6))
qed

lemma finish_unheard:
  assumes "all_unheard s"
  shows "all_unheard (finish_payment dr (server_deps env) p s)"
proof -
  let ?dp = "server_deps env"
  obtain r evs cb where gw: "gateway_process_payment (sn_gateway env) (sn_provider env) p (sr_breaker s) = (r, evs, cb)"
    by (rule prod_cases3)
  let ?s1 = "s\<lparr>sr_breaker := cb, sr_published := sr_published s @ evs\<rparr>"
  have u1: "all_unheard ?s1" using assms gateway_events_unheard [OF gw] by simp
  have refund: "all_unheard (snd (pd_refund ?dp u a c pid reason ?s1))" for u a c pid reason
    using deps_unheard(4) [of env u a c pid reason ?s1 _ "snd (pd_refund ?dp u a c pid reason ?s1)"] u1
    by (metis prod.collapse)
  show ?thesis
  proof (cases r)
    case (Inl x)
    then show ?thesis
      using gw refund by (auto simp: finish_payment_def Let_def on_db_unheard_snd intro!: payment_events_unheard)
  next
    case (Inr txn)
    then show ?thesis
      using gw u1 by (auto simp: finish_payment_def Let_def on_db_unheard_snd unheard_def)
  qed
qed

text \<open>C34: whatever becomes of a payment and whatever the database, the gateway and the broker do: none of
  the events its run hands to the publisher reaches a handler of the server.  The publisher refuses the
  events that embed \<open>BaseEvent\<close>, and for the types of those it accepts no handler is registered.\<close>

theorem published_events_unheard:
  assumes "run_payment dr env req s = (err, s')" "sr_published s = []" "e \<in> set (sr_published s')"
    and "msg \<in> set (snd (publish format_time write_err e))"
  shows "process_message server_handlers msg = (None, [])"
proof -
  obtain p started s1 where run: "process_payment dr (server_deps env) req s = ((p, err, started), s1)"
    "s' = (if started then finish_payment dr (server_deps env) (the p) s1 else s1)"
    using assms(1) by (auto simp: run_payment_def split: prod.splits)
  have "all_unheard s1" by (rule process_unheard [OF run(1)]) (simp add: assms(2))
  then have "all_unheard s'" using run(2) finish_unheard by simp
  then have "unheard e" using assms(3) by (simp add: list_all_iff)
  from assms(4) show ?thesis
  proof (rule published_message)
    fix b data
    assume "e = Base_Event b" "msg = kafka_message_of format_time b data"
    with \<open>unheard e\<close> show ?thesis using message_ignored [of b format_time data] by (simp add: unheard_def)
  qed
qed

lemma published_events_unheard_witness:
  "(\<lambda>s'. list_all (\<lambda>e. list_all (\<lambda>msg. process_message server_handlers msg = (None, []))
      (snd (publish show_int None e))) (sr_published s'))
    (snd (run_payment (tagged_draws ''n'') example_server_env example_request example_server))"
proof -
  obtain err s' where run: "run_payment (tagged_draws ''n'') example_server_env example_request example_server = (err, s')"
    by (cases "run_payment (tagged_draws ''n'') example_server_env example_request example_server")
  have "sr_published example_server = []" by (simp add: example_server_def)
  from published_events_unheard [OF run this] run show ?thesis by (simp add: list_all_iff)
qed

end
