(* ===== verification/Go_Time.thy ===== *)
theory Go_Time
  imports Go_Float "HOL-Library.Signed_Division"
begin

text \<open>
  What the program uses of the packages \<open>time\<close> and \<open>strconv\<close> beyond adding and comparing:
  the bounds of a \<open>time.Duration\<close>, \<open>Since\<close>, \<open>Seconds\<close>, \<open>String\<close>,
  \<open>ParseDuration\<close>, \<open>Atoi\<close> and \<open>ParseBool\<close>, by the algorithms of the standard library.  A text
  is its bytes; a parser that fails returns \<open>None\<close>, since the program never shows its error.
\<close>

section \<open>Durations\<close>

abbreviation max_duration :: duration where "max_duration \<equiv> 2 ^ 63 - 1"
abbreviation min_duration :: duration where "min_duration \<equiv> - (2 ^ 63)"

definition valid_duration :: "duration \<Rightarrow> bool" where
  "valid_duration d \<longleftrightarrow> min_duration \<le> d \<and> d \<le> max_duration"

text \<open>The negation of the least duration is itself; a difference of times out of range is the nearest duration.\<close>

definition neg_duration :: "duration \<Rightarrow> duration" where
  "neg_duration d = (if d = min_duration then d else - d)"

definition sub_time :: "time \<Rightarrow> time \<Rightarrow> duration" where
  "sub_time t u = max min_duration (min max_duration (t - u))"

lemma sub_time_gt: "valid_duration d \<Longrightarrow> d < sub_time t u \<Longrightarrow> d < t - u"
  by (auto simp: sub_time_def valid_duration_def min_def max_def split: if_splits)

lemma sub_time_gtI: "valid_duration d \<Longrightarrow> d < t - u \<Longrightarrow> d < max_duration \<Longrightarrow> d < sub_time t u"
  by (auto simp: sub_time_def valid_duration_def)

definition seconds_of :: "duration \<Rightarrow> float64" where
  "seconds_of d = fadd (f_of_int (d sdiv 1000000000)) (fdiv (f_of_int (d smod 1000000000)) (f_of_int 1000000000))"

section \<open>Numbers\<close>

definition is_digit :: "char \<Rightarrow> bool" where
  "is_digit c \<longleftrightarrow> 48 \<le> (of_char c :: nat) \<and> (of_char c :: nat) \<le> 57"

definition digit_value :: "char \<Rightarrow> int" where
  "digit_value c = of_char c - 48"

definition digits_value :: "string \<Rightarrow> int" where
  "digits_value ds = foldl (\<lambda>n c. n * 10 + digit_value c) 0 ds"

text \<open>\<open>strconv.Atoi\<close>: a sign, and at least one digit; a value out of the range of an \<open>int\<close> is an error.\<close>

definition unsigned_part :: "string \<Rightarrow> bool \<times> string" where
  "unsigned_part s = (case s of
     [] \<Rightarrow> (False, [])
   | c # cs \<Rightarrow> if c = CHR ''-'' then (True, cs) else if c = CHR ''+'' then (False, cs) else (False, s))"

definition atoi :: "string \<Rightarrow> int option" where
  "atoi s = (case unsigned_part s of (neg, ds) \<Rightarrow>
     if ds = [] \<or> \<not> list_all is_digit ds then None
     else (let n = (if neg then - digits_value ds else digits_value ds)
           in if - (2 ^ 63) \<le> n \<and> n < 2 ^ 63 then Some n else None))"

definition parse_bool :: "string \<Rightarrow> bool option" where
  "parse_bool s =
     (if s \<in> {''1'', ''t'', ''T'', ''true'', ''TRUE'', ''True''} then Some True
      else if s \<in> {''0'', ''f'', ''F'', ''false'', ''FALSE'', ''False''} then Some False
      else None)"

section \<open>\<open>ParseDuration\<close>\<close>

text \<open>
  The whole part of a number: \<open>None\<close> when it leaves the range of an \<open>int64\<close>.  Of the digits
  after the point those that do not fit are skipped; \<open>scale\<close> is the power of ten for those that do.
\<close>

fun leading_int :: "int \<Rightarrow> string \<Rightarrow> (int \<times> string) option" where
  "leading_int x [] = Some (x, [])"
| "leading_int x (c # cs) =
     (if \<not> is_digit c then Some (x, c # cs)
      else if x > 2 ^ 63 div 10 then None
      else let y = x * 10 + digit_value c in if y > 2 ^ 63 then None else leading_int y cs)"

fun leading_fraction :: "bool \<Rightarrow> int \<Rightarrow> float64 \<Rightarrow> string \<Rightarrow> int \<times> float64 \<times> string" where
  "leading_fraction overflow x scale [] = (x, scale, [])"
| "leading_fraction overflow x scale (c # cs) =
     (if \<not> is_digit c then (x, scale, c # cs)
      else if overflow then leading_fraction True x scale cs
      else if x > (2 ^ 63 - 1) div 10 then leading_fraction True x scale cs
      else let y = x * 10 + digit_value c
           in if y > 2 ^ 63 then leading_fraction True x scale cs
              else leading_fraction False y (fmul scale (f_of_int 10)) cs)"

definition is_unit_char :: "char \<Rightarrow> bool" where
  "is_unit_char c \<longleftrightarrow> c \<noteq> CHR ''.'' \<and> \<not> is_digit c"

text \<open>Both forms of the micro sign, as their bytes.\<close>

definition micro_sign :: string where
  "micro_sign = [char_of (194 :: nat), char_of (181 :: nat)]"

definition micro_letter :: string where
  "micro_letter = [char_of (206 :: nat), char_of (188 :: nat)]"

definition unit_of :: "string \<Rightarrow> int option" where
  "unit_of u = map_of [(''ns'', 1), (''us'', 1000), (micro_sign @ ''s'', 1000), (micro_letter @ ''s'', 1000),
     (''ms'', 1000000), (''s'', 1000000000), (''m'', 60000000000), (''h'', 3600000000000)] u"

text \<open>What follows the whole part: the fraction, if there is a point, and whether it has digits; then the unit.\<close>

definition fraction_part :: "string \<Rightarrow> int \<times> float64 \<times> string \<times> bool" where
  "fraction_part s =
     (if s \<noteq> [] \<and> hd s = CHR ''.''
      then (case leading_fraction False 0 (FFin 1) (tl s) of (f, scale, s2) \<Rightarrow> (f, scale, s2, length s2 \<noteq> length (tl s)))
      else (0, FFin 1, s, False))"

definition scaled :: "int \<Rightarrow> int \<Rightarrow> float64 \<Rightarrow> int \<Rightarrow> int option" where
  "scaled v f scale n =
     (if v > 2 ^ 63 div n then None
      else (let w = (if f > 0 then v * n + f_to_int64 (fmul (f_of_int f) (fdiv (f_of_int n) scale)) else v * n)
            in if w > 2 ^ 63 then None else Some w))"

definition with_unit :: "int \<Rightarrow> int \<Rightarrow> float64 \<Rightarrow> string \<Rightarrow> (int \<times> string) option" where
  "with_unit v f scale s =
     (if takeWhile is_unit_char s = [] then None
      else (case unit_of (takeWhile is_unit_char s) of None \<Rightarrow> None
            | Some n \<Rightarrow> map_option (\<lambda>w. (w, dropWhile is_unit_char s)) (scaled v f scale n)))"

text \<open>One number with its unit, and the rest of the text.\<close>

definition duration_term :: "string \<Rightarrow> (int \<times> string) option" where
  "duration_term s =
     (case s of [] \<Rightarrow> None | c # _ \<Rightarrow>
        if \<not> (c = CHR ''.'' \<or> is_digit c) then None
        else (case leading_int 0 s of None \<Rightarrow> None
              | Some (v, s1) \<Rightarrow>
                 (case fraction_part s1 of (f, scale, s2, post) \<Rightarrow>
                    if length s1 = length s \<and> \<not> post then None else with_unit v f scale s2)))"

lemma leading_int_length: "leading_int x s = Some (v, s') \<Longrightarrow> length s' \<le> length s"
  by (induction x s rule: leading_int.induct) (auto simp: Let_def split: if_splits)

lemma leading_fraction_length: "leading_fraction b x sc s = (f, sc', s') \<Longrightarrow> length s' \<le> length s"
  by (induction b x sc s rule: leading_fraction.induct) (auto simp: Let_def split: if_splits)

lemma fraction_part_length: "fraction_part s = (f, scale, s', post) \<Longrightarrow> length s' \<le> length s"
  by (cases s) (auto simp: fraction_part_def dest: leading_fraction_length split: if_splits prod.splits)

lemma with_unit_length: "with_unit v f scale s = Some (w, s') \<Longrightarrow> length s' < length s"
proof -
  assume "with_unit v f scale s = Some (w, s')"
  then have "takeWhile is_unit_char s \<noteq> []" "s' = dropWhile is_unit_char s"
    by (auto simp: with_unit_def split: if_splits option.splits)
  moreover have "length (takeWhile is_unit_char s) + length (dropWhile is_unit_char s) = length s"
    by (metis length_append takeWhile_dropWhile_id)
  ultimately show ?thesis by (cases "takeWhile is_unit_char s") auto
qed

lemma duration_term_length: "duration_term s = Some (w, s') \<Longrightarrow> length s' < length s"
  by (auto simp: duration_term_def simp del: leading_int.simps
      dest!: leading_int_length fraction_part_length with_unit_length
      split: list.splits if_splits option.splits prod.splits)

function duration_sum :: "int \<Rightarrow> string \<Rightarrow> int option" where
  "duration_sum d s =
     (if s = [] then Some d
      else (case duration_term s of None \<Rightarrow> None
            | Some (w, s') \<Rightarrow> if d + w > 2 ^ 63 then None else duration_sum (d + w) s'))"
  by pat_completeness auto

termination duration_sum
  by (relation "measure (\<lambda>(d, s). length s)") (auto dest: duration_term_length)

declare duration_sum.simps [simp del]

definition parse_duration :: "string \<Rightarrow> duration option" where
  "parse_duration orig =
     (case unsigned_part orig of (neg, s) \<Rightarrow>
        if s = ''0'' then Some 0
        else if s = [] then None
        else (case duration_sum 0 s of None \<Rightarrow> None
              | Some d \<Rightarrow> if neg then Some (- d) else if d > 2 ^ 63 - 1 then None else Some d))"

section \<open>\<open>Duration.String\<close>\<close>

text \<open>The last \<open>p\<close> digits as a fraction, without its trailing zeros.\<close>

definition fraction_text :: "nat \<Rightarrow> nat \<Rightarrow> string" where
  "fraction_text p u =
     (let ds = show_nat (u mod 10 ^ p);
          padded = replicate (p - length ds) (CHR ''0'') @ ds;
          ts = rev (dropWhile (\<lambda>c. c = CHR ''0'') (rev padded))
      in if ts = [] then [] else CHR ''.'' # ts)"

definition duration_string :: "duration \<Rightarrow> string" where
  "duration_string d =
     (let u = nat \<bar>d\<bar>;
          body =
            (if u = 0 then ''0s''
             else if u < 1000 then show_nat u @ ''ns''
             else if u < 1000000 then show_nat (u div 1000) @ fraction_text 3 u @ micro_sign @ ''s''
             else if u < 1000000000 then show_nat (u div 1000000) @ fraction_text 6 u @ ''ms''
             else (let sec = u div 1000000000; minutes = sec div 60;
                       secs = show_nat (sec mod 60) @ fraction_text 9 u @ ''s''
                   in if minutes = 0 then secs
                      else if minutes div 60 = 0 then show_nat minutes @ ''m'' @ secs
                      else show_nat (minutes div 60) @ ''h'' @ show_nat (minutes mod 60) @ ''m'' @ secs))
      in if d < 0 then ''-'' @ body else body)"

end
