(* ===== verification/Metrics_Service.thy ===== *)
theory Metrics_Service
  imports Kafka_Events Go_Time "HOL-Library.AList"
begin

text \<open>
  \<open>internal/services/metrics/service.go\<close> with its repository (\<open>MetricsRepository\<close> of
  \<open>pkg/database/repositories.go\<close>, tables \<open>metrics\<close> and \<open>alerts\<close> of the migration), the event
  handlers \<open>main\<close> registers for it and the loop that checks the alert rules.

  The collectors belong to the Prometheus library; kept are the calls made to them, in order.  Every
  reading of the clock, uuid, statement and write to Kafka takes one tick; the environment says for
  each tick what comes of it: the time or uuid, the rows other processes have inserted before a
  statement, whether its request or reply is lost, after how many rows the connection breaks while a
  result is read, and the error of the writer.  Storing a time rounds it, as \<open>me_stored\<close> says.  A
  nil map and an empty one are the same.  Logging is left out.
\<close>

section \<open>Data\<close>

datatype collector_call =
    Counter_Inc string
  | Gauge_Inc string
  | Gauge_Dec string
  | Histogram_Observe string float64
  | Gauge_Set string "string list" float64

record metric_point =
  mp_timestamp :: time
  mp_value :: float64
  mp_labels :: metadata

record alert_rule =
  ar_id :: uuid
  ar_name :: string
  ar_metric_name :: string
  ar_condition :: string
  ar_threshold :: float64
  ar_duration :: duration
  ar_enabled :: bool
  ar_last_fired :: time
  ar_description :: string

text \<open>An alert; in its row the two maps are documents.\<close>

record 'm alert =
  al_id :: uuid
  al_rule_id :: uuid
  al_rule_name :: string
  al_metric_name :: string
  al_value :: float64
  al_threshold :: float64
  al_condition :: string
  al_severity :: string
  al_message :: string
  al_labels :: 'm
  al_annotations :: 'm
  al_fired_at :: time

record metric_row =
  mr_metric_name :: string
  mr_value :: float64
  mr_labels :: json
  mr_timestamp :: time

record metric_tables =
  mt_metrics :: "metric_row list"
  mt_alerts :: "json alert list"

record metric_env =
  me_now :: "nat \<Rightarrow> time"
  me_uuid :: "nat \<Rightarrow> uuid"
  me_fault :: "nat \<Rightarrow> fault"
  me_rows :: "nat \<Rightarrow> nat option"
  me_others :: "nat \<Rightarrow> metric_row list \<times> json alert list"
  me_violation :: "string \<Rightarrow> go_error"
  me_stored :: "time \<Rightarrow> time"
  me_write :: "nat \<Rightarrow> go_error option"
  me_format :: "time \<Rightarrow> string"

text \<open>The service, its tables, and as ghosts the calls to the collectors and what was written to Kafka.\<close>

record metrics_state =
  mv_rules :: "(uuid \<times> alert_rule) list"
  mv_calls :: "collector_call list"
  mv_tables :: metric_tables
  mv_kafka :: "kafka_message list"
  mv_tick :: nat

section \<open>The environment\<close>

definition tick :: "metrics_state \<Rightarrow> metrics_state" where
  "tick s = s\<lparr>mv_tick := mv_tick s + 1\<rparr>"

definition read_clock :: "metric_env \<Rightarrow> metrics_state \<Rightarrow> time \<times> metrics_state" where
  "read_clock env s = (me_now env (mv_tick s), tick s)"

definition new_uuid :: "metric_env \<Rightarrow> metrics_state \<Rightarrow> uuid \<times> metrics_state" where
  "new_uuid env s = (me_uuid env (mv_tick s), tick s)"

definition collect :: "collector_call list \<Rightarrow> metrics_state \<Rightarrow> metrics_state" where
  "collect cs s = s\<lparr>mv_calls := mv_calls s @ cs\<rparr>"

type_synonym 'a metric_statement = "metric_tables \<Rightarrow> string + 'a \<times> metric_tables"

definition insert_others :: "metric_row list \<times> json alert list \<Rightarrow> metric_tables \<Rightarrow> metric_tables" where
  "insert_others rows tb = tb\<lparr>mt_metrics := mt_metrics tb @ fst rows, mt_alerts := mt_alerts tb @ snd rows\<rparr>"

fun after_stmt :: "metric_tables \<Rightarrow> string + 'a \<times> metric_tables \<Rightarrow> metric_tables" where
  "after_stmt tb (Inl _) = tb"
| "after_stmt tb (Inr (_, tb')) = tb'"

definition run_stmt :: "metric_env \<Rightarrow> 'a metric_statement \<Rightarrow> metrics_state \<Rightarrow> 'a go_result \<times> metrics_state" where
  "run_stmt env st s =
     (let n = mv_tick s; tb = insert_others (me_others env n) (mv_tables s)
      in case me_fault env n of
           Lost_Request x \<Rightarrow> (Inl x, (tick s)\<lparr>mv_tables := tb\<rparr>)
         | Lost_Reply x \<Rightarrow> (Inl x, (tick s)\<lparr>mv_tables := after_stmt tb (st tb)\<rparr>)
         | No_Fault \<Rightarrow>
             ((case st tb of Inl c \<Rightarrow> Inl (me_violation env c) | Inr (a, _) \<Rightarrow> Inr a),
              (tick s)\<lparr>mv_tables := after_stmt tb (st tb)\<rparr>))"

text \<open>The loop over \<open>rows.Next()\<close>, which ends without an error when the connection breaks.\<close>

definition rows_read :: "nat option \<Rightarrow> 'a list \<Rightarrow> 'a list" where
  "rows_read broken xs = (case broken of None \<Rightarrow> xs | Some k \<Rightarrow> take k xs)"

definition query_rows ::
  "metric_env \<Rightarrow> (metric_tables \<Rightarrow> 'a list) \<Rightarrow> metrics_state \<Rightarrow> 'a list go_result \<times> metrics_state" where
  "query_rows env q s =
     (case run_stmt env (\<lambda>tb. Inr (q tb, tb)) s of
        (Inl x, s') \<Rightarrow> (Inl x, s')
      | (Inr xs, s') \<Rightarrow> (Inr (rows_read (me_rows env (mv_tick s)) xs), s'))"

definition emit :: "metric_env \<Rightarrow> domain_event \<Rightarrow> metrics_state \<Rightarrow> metrics_state" where
  "emit env e s =
     (tick s)\<lparr>mv_kafka := mv_kafka s @ snd (publish (me_format env) (me_write env (mv_tick s)) e)\<rparr>"

section \<open>The repository\<close>

definition string_labels :: "(string \<times> string) list \<Rightarrow> metadata" where
  "string_labels kvs = map (\<lambda>(k, v). (k, JStr v)) kvs"

definition decode_labels :: "json \<Rightarrow> metadata" where
  "decode_labels j = (case d_str_map j of Inl _ \<Rightarrow> [] | Inr m \<Rightarrow> m)"

definition decode_annotations :: "json \<Rightarrow> metadata" where
  "decode_annotations j = (case d_map j of Inl _ \<Rightarrow> [] | Inr m \<Rightarrow> m)"

definition metric_violation :: "metric_row \<Rightarrow> string option" where
  "metric_violation r = (if 255 < length (mr_metric_name r) then Some ''metric_name'' else None)"

definition alert_violation :: "metric_tables \<Rightarrow> json alert \<Rightarrow> string option" where
  "alert_violation tb a =
     (if 255 < length (al_rule_name a) then Some ''rule_name''
      else if 255 < length (al_metric_name a) then Some ''metric_name''
      else if 10 < length (al_condition a) then Some ''condition''
      else if 20 < length (al_severity a) then Some ''severity''
      else if al_id a \<in> al_id ` set (mt_alerts tb) then Some ''alerts_pkey''
      else None)"

definition insert_metric :: "metric_row \<Rightarrow> unit metric_statement" where
  "insert_metric r tb = (case metric_violation r of Some c \<Rightarrow> Inl c
     | None \<Rightarrow> Inr ((), tb\<lparr>mt_metrics := mt_metrics tb @ [r]\<rparr>))"

definition insert_alert :: "json alert \<Rightarrow> unit metric_statement" where
  "insert_alert a tb = (case alert_violation tb a of Some c \<Rightarrow> Inl c
     | None \<Rightarrow> Inr ((), tb\<lparr>mt_alerts := mt_alerts tb @ [a]\<rparr>))"

definition save_metric ::
  "metric_env \<Rightarrow> string \<Rightarrow> float64 \<Rightarrow> metadata \<Rightarrow> time \<Rightarrow> metrics_state \<Rightarrow> go_error option \<times> metrics_state" where
  "save_metric env name v labels t s =
     (case run_stmt env (insert_metric \<lparr>mr_metric_name = name, mr_value = v, mr_labels = JObj labels,
          mr_timestamp = me_stored env t\<rparr>) s of
        (Inl x, s) \<Rightarrow> (Some x, s) | (Inr _, s) \<Rightarrow> (None, s))"

definition point_of :: "metric_row \<Rightarrow> metric_point" where
  "point_of r = \<lparr>mp_timestamp = mr_timestamp r, mp_value = mr_value r, mp_labels = decode_labels (mr_labels r)\<rparr>"

definition rows_between :: "string \<Rightarrow> time \<Rightarrow> time \<Rightarrow> metric_tables \<Rightarrow> metric_row list" where
  "rows_between name t u tb = sort_key mr_timestamp
     (filter (\<lambda>r. mr_metric_name r = name \<and> t \<le> mr_timestamp r \<and> mr_timestamp r \<le> u) (mt_metrics tb))"

definition repo_get_metrics ::
  "metric_env \<Rightarrow> string \<Rightarrow> time \<Rightarrow> time \<Rightarrow> metrics_state \<Rightarrow> metric_point list go_result \<times> metrics_state" where
  "repo_get_metrics env name t u s =
     query_rows env (\<lambda>tb. map point_of (rows_between name (me_stored env t) (me_stored env u) tb)) s"

definition alert_row :: "metric_env \<Rightarrow> metadata alert \<Rightarrow> json alert" where
  "alert_row env a =
     \<lparr>al_id = al_id a, al_rule_id = al_rule_id a, al_rule_name = al_rule_name a, al_metric_name = al_metric_name a,
      al_value = al_value a, al_threshold = al_threshold a, al_condition = al_condition a,
      al_severity = al_severity a, al_message = al_message a, al_labels = JObj (al_labels a),
      al_annotations = JObj (al_annotations a), al_fired_at = me_stored env (al_fired_at a)\<rparr>"

definition alert_of_row :: "json alert \<Rightarrow> metadata alert" where
  "alert_of_row a =
     \<lparr>al_id = al_id a, al_rule_id = al_rule_id a, al_rule_name = al_rule_name a, al_metric_name = al_metric_name a,
      al_value = al_value a, al_threshold = al_threshold a, al_condition = al_condition a,
      al_severity = al_severity a, al_message = al_message a, al_labels = decode_labels (al_labels a),
      al_annotations = decode_annotations (al_annotations a), al_fired_at = al_fired_at a\<rparr>"

definition save_alert :: "metric_env \<Rightarrow> metadata alert \<Rightarrow> metrics_state \<Rightarrow> go_error option \<times> metrics_state" where
  "save_alert env a s = (case run_stmt env (insert_alert (alert_row env a)) s of
     (Inl x, s) \<Rightarrow> (Some x, s) | (Inr _, s) \<Rightarrow> (None, s))"

definition repo_get_active_alerts :: "metric_env \<Rightarrow> metrics_state \<Rightarrow> metadata alert list go_result \<times> metrics_state" where
  "repo_get_active_alerts env s =
     (case read_clock env s of (now, s) \<Rightarrow>
        query_rows env (\<lambda>tb. map alert_of_row (sort_key (\<lambda>a. - al_fired_at a)
          (filter (\<lambda>a. me_stored env (now - 24 * 3600 * 1000000000) < al_fired_at a) (mt_alerts tb)))) s)"

section \<open>Recording\<close>

definition metrics_event :: "uuid \<Rightarrow> uuid \<Rightarrow> time \<Rightarrow> string \<Rightarrow> float64 \<Rightarrow> metadata \<Rightarrow> domain_event" where
  "metrics_event i agg t name v labels = Metrics_Collected_Event
     \<lparr>be_id = i, be_type = MetricsCollected, be_aggregate_id = agg, be_version = 1, be_timestamp = t,
      be_correlation_id = nil_uuid, be_metadata = []\<rparr>
     \<lparr>mc_metric_type = ''gauge'', mc_metric_name = name, mc_value = v, mc_labels = labels, mc_dimensions = []\<rparr>"

text \<open>Whether publishing and storing succeed is not reported.\<close>

definition publish_metric_event ::
  "metric_env \<Rightarrow> string \<Rightarrow> float64 \<Rightarrow> (string \<times> string) list \<Rightarrow> metrics_state \<Rightarrow> metrics_state" where
  "publish_metric_event env name v labels s =
     (case new_uuid env s of (i, s) \<Rightarrow>
      case new_uuid env s of (agg, s) \<Rightarrow>
      case read_clock env s of (t, s) \<Rightarrow>
        let s = emit env (metrics_event i agg t name v (string_labels labels)) s
        in case read_clock env s of (t, s) \<Rightarrow> snd (save_metric env name v (string_labels labels) t s))"

definition record_payment_initiated :: "metric_env \<Rightarrow> uuid \<Rightarrow> uuid \<Rightarrow> int64 \<Rightarrow> metrics_state \<Rightarrow> metrics_state" where
  "record_payment_initiated env pid user amount s =
     publish_metric_event env ''payment_initiated'' (FFin 1) [(''payment_id'', pid), (''user_id'', user)]
       (collect [Counter_Inc ''payments_total'', Gauge_Inc ''active_payments'',
          Histogram_Observe ''payment_amount'' (f_of_int (sint amount))] s)"

definition record_payment_completed :: "metric_env \<Rightarrow> uuid \<Rightarrow> duration \<Rightarrow> metrics_state \<Rightarrow> metrics_state" where
  "record_payment_completed env pid d s =
     publish_metric_event env ''payment_completed'' (FFin 1) [(''payment_id'', pid), (''duration'', duration_string d)]
       (collect [Counter_Inc ''payments_successful_total'', Gauge_Dec ''active_payments'',
          Histogram_Observe ''payment_duration_seconds'' (seconds_of d)] s)"

definition record_payment_failed :: "metric_env \<Rightarrow> uuid \<Rightarrow> string \<Rightarrow> metrics_state \<Rightarrow> metrics_state" where
  "record_payment_failed env pid code s =
     publish_metric_event env ''payment_failed'' (FFin 1) [(''payment_id'', pid), (''error_code'', code)]
       (collect [Counter_Inc ''payments_failed_total'', Gauge_Dec ''active_payments''] s)"

definition record_wallet_balance :: "metric_env \<Rightarrow> uuid \<Rightarrow> string \<Rightarrow> int64 \<Rightarrow> metrics_state \<Rightarrow> metrics_state" where
  "record_wallet_balance env user currency b s =
     publish_metric_event env ''wallet_balance'' (f_of_int (sint b)) [(''user_id'', user), (''currency'', currency)]
       (collect [Gauge_Set ''wallet_balance'' [user, currency] (f_of_int (sint b))] s)"

definition record_gateway_response_time :: "metric_env \<Rightarrow> string \<Rightarrow> duration \<Rightarrow> metrics_state \<Rightarrow> metrics_state" where
  "record_gateway_response_time env provider d s =
     publish_metric_event env ''gateway_response_time'' (seconds_of d) [(''provider'', provider)]
       (collect [Histogram_Observe ''gateway_response_time_seconds'' (seconds_of d)] s)"

definition record_circuit_breaker_state ::
  "metric_env \<Rightarrow> string \<Rightarrow> string \<Rightarrow> int \<Rightarrow> metrics_state \<Rightarrow> metrics_state" where
  "record_circuit_breaker_state env service provider st s =
     publish_metric_event env ''circuit_breaker_state'' (f_of_int st) [(''service'', service), (''provider'', provider)]
       (collect [Gauge_Set ''circuit_breaker_state'' [service, provider] (f_of_int st)] s)"

section \<open>Alerts\<close>

text \<open>The rule as the caller sees it afterwards, with its id.\<close>

definition add_alert_rule :: "metric_env \<Rightarrow> alert_rule \<Rightarrow> metrics_state \<Rightarrow> alert_rule \<times> metrics_state" where
  "add_alert_rule env r s =
     (case new_uuid env s of (i, s) \<Rightarrow>
        (r\<lparr>ar_id := i\<rparr>, s\<lparr>mv_rules := AList.update i (r\<lparr>ar_id := i\<rparr>) (mv_rules s)\<rparr>))"

definition condition_holds :: "string \<Rightarrow> float64 \<Rightarrow> float64 \<Rightarrow> bool" where
  "condition_holds c v th =
     (if c = ''gt'' then flt th v
      else if c = ''lt'' then flt v th
      else if c = ''eq'' then feq v th
      else if c = ''gte'' then fle th v
      else if c = ''lte'' then fle v th
      else False)"

definition determine_severity :: "float64 \<Rightarrow> float64 \<Rightarrow> string" where
  "determine_severity th v =
     (let d = fdiv (fsub v th) th; a = (if flt d f0 then fneg d else d)
      in if flt (round64 (1 / 2)) a then ''critical'' else if flt (round64 (1 / 5)) a then ''warning'' else ''info'')"

definition new_alert :: "uuid \<Rightarrow> alert_rule \<Rightarrow> metric_point \<Rightarrow> time \<Rightarrow> metadata alert" where
  "new_alert i r p t =
     \<lparr>al_id = i, al_rule_id = ar_id r, al_rule_name = ar_name r, al_metric_name = ar_metric_name r,
      al_value = mp_value p, al_threshold = ar_threshold r, al_condition = ar_condition r,
      al_severity = determine_severity (ar_threshold r) (mp_value p),
      al_message = ''Alert: '' @ ar_name r @ '' - '' @ ar_metric_name r @ '' '' @ ar_condition r @ '' '' @
        show_f2 (ar_threshold r) @ '' (current: '' @ show_f2 (mp_value p) @ '')'',
      al_labels = mp_labels p, al_annotations = [], al_fired_at = t\<rparr>"

definition alert_event :: "uuid \<Rightarrow> time \<Rightarrow> metadata alert \<Rightarrow> domain_event" where
  "alert_event i t a = Base_Event
     \<lparr>be_id = i, be_type = AlertTriggered, be_aggregate_id = al_rule_id a, be_version = 1, be_timestamp = t,
      be_correlation_id = nil_uuid,
      be_metadata = [(''alert_id'', JStr (al_id a)), (''rule_name'', JStr (al_rule_name a)),
        (''metric_name'', JStr (al_metric_name a)), (''value'', JFloat (al_value a)),
        (''threshold'', JFloat (al_threshold a)), (''severity'', JStr (al_severity a)),
        (''message'', JStr (al_message a))]\<rparr>"

definition publish_alert_event :: "metric_env \<Rightarrow> metadata alert \<Rightarrow> metrics_state \<Rightarrow> metrics_state" where
  "publish_alert_event env a s =
     (case new_uuid env s of (i, s) \<Rightarrow> case read_clock env s of (t, s) \<Rightarrow> emit env (alert_event i t a) s)"

definition set_last_fired :: "uuid \<Rightarrow> time \<Rightarrow> metrics_state \<Rightarrow> metrics_state" where
  "set_last_fired i t s = s\<lparr>mv_rules := AList.map_entry i (\<lambda>r. r\<lparr>ar_last_fired := t\<rparr>) (mv_rules s)\<rparr>"

text \<open>The end of \<open>evaluateAlertRule\<close>, once the rule is to fire for a point.\<close>

definition fire_alert :: "metric_env \<Rightarrow> alert_rule \<Rightarrow> metric_point \<Rightarrow> metrics_state \<Rightarrow> go_error option \<times> metrics_state" where
  "fire_alert env r p s =
     (case new_uuid env s of (i, s) \<Rightarrow>
      case read_clock env s of (t, s) \<Rightarrow>
        (case save_alert env (new_alert i r p t) s of
           (Some x, s) \<Rightarrow> (Some (''failed to save alert: '' @ x), s)
         | (None, s) \<Rightarrow>
             (case read_clock env (publish_alert_event env (new_alert i r p t) s) of (t, s) \<Rightarrow>
                (None, set_last_fired (ar_id r) t s))))"

definition evaluate_alert_rule :: "metric_env \<Rightarrow> alert_rule \<Rightarrow> metrics_state \<Rightarrow> go_error option \<times> metrics_state" where
  "evaluate_alert_rule env r s =
     (case read_clock env s of (to, s) \<Rightarrow>
        (case repo_get_metrics env (ar_metric_name r) (to + neg_duration (ar_duration r)) to s of
           (Inl x, s) \<Rightarrow> (Some (''failed to get metrics: '' @ x), s)
         | (Inr ps, s) \<Rightarrow>
             if ps = [] then (None, s)
             else if \<not> condition_holds (ar_condition r) (mp_value (last ps)) (ar_threshold r) then (None, s)
             else (case read_clock env s of (now, s) \<Rightarrow>
                     if sub_time now (ar_last_fired r) > ar_duration r then fire_alert env r (last ps) s
                     else (None, s))))"

text \<open>
  \<open>CheckAlerts\<close>: the enabled rules, in the order in which the iteration over the map has
  come across them; each is a pointer, read when its turn comes.
\<close>

definition check_rule :: "metric_env \<Rightarrow> uuid \<Rightarrow> metrics_state \<Rightarrow> metrics_state" where
  "check_rule env i s =
     (case map_of (mv_rules s) i of None \<Rightarrow> s | Some r \<Rightarrow> snd (evaluate_alert_rule env r s))"

definition enabled_rule :: "metrics_state \<Rightarrow> uuid \<Rightarrow> bool" where
  "enabled_rule s i \<longleftrightarrow> (case map_of (mv_rules s) i of None \<Rightarrow> False | Some r \<Rightarrow> ar_enabled r)"

definition check_alerts :: "metric_env \<Rightarrow> uuid list \<Rightarrow> metrics_state \<Rightarrow> metrics_state" where
  "check_alerts env order s = fold (check_rule env) (filter (enabled_rule s) order) s"

definition get_metrics ::
  "metric_env \<Rightarrow> string \<Rightarrow> time \<Rightarrow> time \<Rightarrow> metrics_state \<Rightarrow> metric_point list go_result \<times> metrics_state" where
  "get_metrics env name t u s = repo_get_metrics env name t u s"

definition get_active_alerts :: "metric_env \<Rightarrow> metrics_state \<Rightarrow> metadata alert list go_result \<times> metrics_state" where
  "get_active_alerts env s = repo_get_active_alerts env s"

definition new_metrics_service :: "metric_tables \<Rightarrow> metrics_state" where
  "new_metrics_service tb = \<lparr>mv_rules = [], mv_calls = [], mv_tables = tb, mv_kafka = [], mv_tick = 0\<rparr>"

section \<open>In the server\<close>

text \<open>The handlers of \<open>registerMetricsEventHandlers\<close>.\<close>

definition metrics_handler :: "metric_env \<Rightarrow> string \<Rightarrow> domain_event \<Rightarrow> metrics_state \<Rightarrow> metrics_state" where
  "metrics_handler env t e s =
     (if t = PaymentInitiated then
        (case e of Payment_Initiated_Event b p \<Rightarrow>
           record_payment_initiated env (be_aggregate_id b) (pi_user_id p) (pi_amount p) s | _ \<Rightarrow> s)
      else if t = PaymentCompleted then
        (case e of Payment_Completed_Event b p \<Rightarrow>
           (case read_clock env s of (now, s) \<Rightarrow>
              record_payment_completed env (be_aggregate_id b) (sub_time now (pc_processed_at p)) s) | _ \<Rightarrow> s)
      else if t = PaymentFailed then
        (case e of Payment_Failed_Event b p \<Rightarrow>
           record_payment_failed env (be_aggregate_id b) (pf_error_code p) s | _ \<Rightarrow> s)
      else if t = WalletDeducted then
        (case e of Wallet_Deducted_Event b w \<Rightarrow>
           record_wallet_balance env (wc_user_id w) (wc_currency w) (wc_new_balance w) s | _ \<Rightarrow> s)
      else if t = WalletRefunded then
        (case e of Wallet_Refunded_Event b w reason \<Rightarrow>
           record_wallet_balance env (wc_user_id w) (wc_currency w) (wc_new_balance w) s | _ \<Rightarrow> s)
      else if t = GatewayResponseReceived then
        (case e of Gateway_Response_Event b g \<Rightarrow>
           record_gateway_response_time env ''gateway'' (gr_processing_time g) s | _ \<Rightarrow> s)
      else s)"

text \<open>A message from Kafka, as far as the metrics are concerned.\<close>

fun run_handler :: "metric_env \<Rightarrow> server_handler \<times> domain_event \<Rightarrow> metrics_state \<Rightarrow> metrics_state" where
  "run_handler env (Metrics_Handler t, e) s = metrics_handler env t e s"
| "run_handler env (Saga_Handler t, e) s = s"

definition receive_message :: "metric_env \<Rightarrow> kafka_message \<Rightarrow> metrics_state \<Rightarrow> metrics_state" where
  "receive_message env msg s = fold (run_handler env) (snd (process_message server_handlers msg)) s"

text \<open>\<open>startMetricsChecker\<close> up to some tick: a ticker panics on an interval that is not positive.\<close>

definition start_metrics_checker ::
  "metric_env \<Rightarrow> duration \<Rightarrow> uuid list list \<Rightarrow> metrics_state \<Rightarrow> metrics_state go_run" where
  "start_metrics_checker env interval orders s =
     (if interval \<le> 0 then Panicked else Returned (fold (check_alerts env) orders s))"

end
