(* ===== verification/Alert_Rules.thy ===== *)
theory Alert_Rules
  imports Metrics_Service
begin

text \<open>
  What holds of the metrics service of \<open>Metrics_Service\<close>: when a rule fires and what it leaves
  behind, how far apart the alerts of a rule are over any run of the service, and what lost replies,
  broken reads and the publisher make of it.
\<close>

section \<open>Steps that do not concern the alerts of the service\<close>

text \<open>Alerts of this process carry ids it has drawn; those of others do not.\<close>

definition foreign :: "metric_env \<Rightarrow> json alert \<Rightarrow> bool" where
  "foreign env a \<longleftrightarrow> al_rule_id a \<notin> range (me_uuid env)"

definition others_foreign :: "metric_env \<Rightarrow> bool" where
  "others_foreign env \<longleftrightarrow> (\<forall>n. list_all (foreign env) (snd (me_others env n)))"

definition quiet_step :: "metric_env \<Rightarrow> metrics_state \<Rightarrow> metrics_state \<Rightarrow> bool" where
  "quiet_step env s s' \<longleftrightarrow> mv_rules s' = mv_rules s \<and> mv_tick s \<le> mv_tick s' \<and>
     (\<exists>as. list_all (foreign env) as \<and> mt_alerts (mv_tables s') = mt_alerts (mv_tables s) @ as)"

lemma quiet_refl [simp]: "quiet_step env s s"
  by (auto simp: quiet_step_def)

lemma quiet_trans: "quiet_step env s s' \<Longrightarrow> quiet_step env s' s'' \<Longrightarrow> quiet_step env s s''"
  by (auto simp: quiet_step_def)

lemma tick_simps [simp]:
  "mv_rules (tick s) = mv_rules s" "mv_calls (tick s) = mv_calls s" "mv_tables (tick s) = mv_tables s"
  "mv_kafka (tick s) = mv_kafka s" "mv_tick (tick s) = Suc (mv_tick s)"
  by (simp_all add: tick_def)

lemma collect_simps [simp]:
  "mv_rules (collect cs s) = mv_rules s" "mv_calls (collect cs s) = mv_calls s @ cs"
  "mv_tables (collect cs s) = mv_tables s" "mv_kafka (collect cs s) = mv_kafka s" "mv_tick (collect cs s) = mv_tick s"
  by (simp_all add: collect_def)

lemma emit_simps [simp]:
  "mv_rules (emit env e s) = mv_rules s" "mv_calls (emit env e s) = mv_calls s" "mv_tables (emit env e s) = mv_tables s"
  "mv_kafka (emit env e s) = mv_kafka s @ snd (publish (me_format env) (me_write env (mv_tick s)) e)"
  "mv_tick (emit env e s) = Suc (mv_tick s)"
  by (simp_all add: emit_def)

lemma quiet_tick: "quiet_step env s (tick s)"
  by (simp add: quiet_step_def)

lemma quiet_collect: "quiet_step env s (collect cs s)"
  by (simp add: quiet_step_def)

lemma quiet_emit: "quiet_step env s (emit env e s)"
  by (simp add: quiet_step_def)

lemma insert_others_simps [simp]:
  "mt_metrics (insert_others rows tb) = mt_metrics tb @ fst rows"
  "mt_alerts (insert_others rows tb) = mt_alerts tb @ snd rows"
  by (simp_all add: insert_others_def)

lemma run_stmt_frame:
  assumes "run_stmt env st s = (r, s')"
  shows "mv_rules s' = mv_rules s" "mv_calls s' = mv_calls s" "mv_kafka s' = mv_kafka s" "mv_tick s' = Suc (mv_tick s)"
  using assms by (auto simp: run_stmt_def Let_def split: fault.splits)

text \<open>A statement that leaves the alerts alone.\<close>

lemma run_stmt_quiet:
  assumes "run_stmt env st s = (r, s')" "others_foreign env"
    and "\<And>tb. mt_alerts (after_stmt tb (st tb)) = mt_alerts tb"
  shows "quiet_step env s s'"
  using assms by (auto simp: quiet_step_def run_stmt_def others_foreign_def Let_def split: fault.splits)

lemma query_rows_quiet:
  assumes "query_rows env q s = (r, s')" "others_foreign env"
  shows "quiet_step env s s'"
proof -
  obtain x s1 where x: "run_stmt env (\<lambda>tb. Inr (q tb, tb)) s = (x, s1)" by fastforce
  have "quiet_step env s s1" using run_stmt_quiet [OF x assms(2)] by simp
  with assms(1) x show ?thesis by (auto simp: query_rows_def split: sum.splits)
qed

lemma save_metric_quiet:
  assumes "others_foreign env"
  shows "quiet_step env s (snd (save_metric env name v labels t s))"
proof -
  obtain x s1 where x: "run_stmt env (insert_metric \<lparr>mr_metric_name = name, mr_value = v, mr_labels = JObj labels,
      mr_timestamp = me_stored env t\<rparr>) s = (x, s1)" by fastforce
  have "quiet_step env s s1"
    using run_stmt_quiet [OF x assms] by (simp add: insert_metric_def split: option.splits)
  with x show ?thesis by (auto simp: save_metric_def split: sum.splits)
qed

lemma publish_metric_event_quiet:
  assumes "others_foreign env"
  shows "quiet_step env s (publish_metric_event env name v labels s)"
  unfolding publish_metric_event_def new_uuid_def read_clock_def Let_def prod.case
  by (rule quiet_trans [OF _ save_metric_quiet [OF assms]]) (simp add: quiet_step_def)

lemma recording_quiet:
  assumes "others_foreign env"
  shows "quiet_step env s (publish_metric_event env name v labels (collect cs s))"
  by (rule quiet_trans [OF quiet_collect publish_metric_event_quiet [OF assms]])

lemmas record_defs = record_payment_initiated_def record_payment_completed_def record_payment_failed_def
  record_wallet_balance_def record_gateway_response_time_def record_circuit_breaker_state_def

lemma metrics_handler_quiet:
  assumes "others_foreign env"
  shows "quiet_step env s (metrics_handler env t e s)"
  by (auto simp: metrics_handler_def record_defs read_clock_def recording_quiet [OF assms]
      intro: quiet_trans [OF quiet_tick recording_quiet [OF assms]] split: domain_event.splits)

lemma fold_quiet: "(\<And>x s. x \<in> set xs \<Longrightarrow> quiet_step env s (f x s)) \<Longrightarrow> quiet_step env s (fold f xs s)"
proof (induction xs arbitrary: s)
  case (Cons x xs)
  have "quiet_step env s (f x s)" "quiet_step env (f x s) (fold f xs (f x s))" using Cons by auto
  then show ?case by (auto intro: quiet_trans)
qed simp

lemma receive_message_quiet:
  assumes "others_foreign env"
  shows "quiet_step env s (receive_message env msg s)"
proof -
  have "quiet_step env s' (run_handler env he s')" for he s'
    by (cases "(env, he, s')" rule: run_handler.cases) (simp_all add: metrics_handler_quiet [OF assms])
  then show ?thesis unfolding receive_message_def by (intro fold_quiet) auto
qed

lemma get_metrics_quiet: "get_metrics env name t u s = (r, s') \<Longrightarrow> others_foreign env \<Longrightarrow> quiet_step env s s'"
  unfolding get_metrics_def repo_get_metrics_def by (rule query_rows_quiet)

lemma get_active_alerts_quiet:
  assumes "get_active_alerts env s = (r, s')" "others_foreign env"
  shows "quiet_step env s s'"
  using assms(1) quiet_trans [OF quiet_tick query_rows_quiet [OF _ assms(2)]]
  by (auto simp: get_active_alerts_def repo_get_active_alerts_def read_clock_def)

section \<open>The distance of alerts\<close>

text \<open>
  Clock and ids of an environment: the clock does not go back, ids are drawn once, storing moves a
  time by half a microsecond at most, and no reply of the database is lost.
\<close>

definition orderly :: "metric_env \<Rightarrow> bool" where
  "orderly env \<longleftrightarrow> mono (me_now env) \<and> inj (me_uuid env) \<and> (\<forall>t. \<bar>me_stored env t - t\<bar> \<le> 500) \<and>
     (\<forall>n x. me_fault env n \<noteq> Lost_Reply x) \<and> others_foreign env"

text \<open>What the goroutines of the server do to the service, one operation at a time; a check goes rule by rule.\<close>

inductive metrics_step :: "metric_env \<Rightarrow> metrics_state \<Rightarrow> metrics_state \<Rightarrow> bool" for env where
  step_message: "metrics_step env s (receive_message env msg s)"
| step_breaker: "metrics_step env s (record_circuit_breaker_state env service provider st s)"
| step_add: "valid_duration (ar_duration r) \<Longrightarrow> metrics_step env s (snd (add_alert_rule env r s))"
| step_check: "enabled_rule s i \<Longrightarrow> metrics_step env s (check_rule env i s)"
| step_metrics: "metrics_step env s (snd (get_metrics env name t u s))"
| step_alerts: "metrics_step env s (snd (get_active_alerts env s))"

definition alerts_of :: "uuid \<Rightarrow> metrics_state \<Rightarrow> json alert list" where
  "alerts_of i s = filter (\<lambda>a. al_rule_id a = i) (mt_alerts (mv_tables s))"

definition spaced :: "duration \<Rightarrow> json alert list \<Rightarrow> bool" where
  "spaced d as \<longleftrightarrow> sorted_wrt (\<lambda>a b. d - 1000 < al_fired_at b - al_fired_at a) as"

definition rule_inv :: "metrics_state \<Rightarrow> uuid \<Rightarrow> alert_rule \<Rightarrow> bool" where
  "rule_inv s i r \<longleftrightarrow> ar_id r = i \<and> valid_duration (ar_duration r) \<and> spaced (ar_duration r) (alerts_of i s) \<and>
     (\<forall>a \<in> set (alerts_of i s). al_fired_at a \<le> ar_last_fired r + 500)"

definition drawn_ids :: "metric_env \<Rightarrow> metrics_state \<Rightarrow> uuid set" where
  "drawn_ids env s = me_uuid env ` {..<mv_tick s}"

definition metrics_inv :: "metric_env \<Rightarrow> metrics_state \<Rightarrow> bool" where
  "metrics_inv env s \<longleftrightarrow> (\<forall>i r. map_of (mv_rules s) i = Some r \<longrightarrow> rule_inv s i r) \<and>
     fst ` set (mv_rules s) \<subseteq> drawn_ids env s \<and>
     (\<forall>a \<in> set (mt_alerts (mv_tables s)). foreign env a \<or>
        al_rule_id a \<in> drawn_ids env s \<and> al_fired_at a \<le> me_now env (mv_tick s) + 500)"

lemma metrics_inv_rule: "metrics_inv env s \<Longrightarrow> map_of (mv_rules s) i = Some r \<Longrightarrow> rule_inv s i r"
  by (simp add: metrics_inv_def)

lemma metrics_inv_id: "metrics_inv env s \<Longrightarrow> map_of (mv_rules s) i = Some r \<Longrightarrow> i \<in> drawn_ids env s"
  by (force simp: metrics_inv_def dest: map_of_SomeD)

lemma metrics_inv_alert:
  assumes "metrics_inv env s" "i \<in> drawn_ids env s" "a \<in> set (alerts_of i s)"
  shows "al_fired_at a \<le> me_now env (mv_tick s) + 500"
  using assms by (auto simp: metrics_inv_def alerts_of_def drawn_ids_def foreign_def)

lemma drawn_ids_mono: "mv_tick s \<le> mv_tick s' \<Longrightarrow> i \<in> drawn_ids env s \<Longrightarrow> i \<in> drawn_ids env s'"
  by (auto simp: drawn_ids_def)

lemma foreign_not_drawn: "foreign env a \<Longrightarrow> i \<in> drawn_ids env s \<Longrightarrow> al_rule_id a \<noteq> i"
  by (auto simp: foreign_def drawn_ids_def)

lemma filter_foreign: "list_all (foreign env) as \<Longrightarrow> i \<in> drawn_ids env s \<Longrightarrow> filter (\<lambda>a. al_rule_id a = i) as = []"
  by (auto simp: list_all_iff filter_empty_conv dest: foreign_not_drawn)

lemma quiet_alerts_of:
  assumes "quiet_step env s s'" "i \<in> drawn_ids env s"
  shows "alerts_of i s' = alerts_of i s"
  using assms filter_foreign [OF _ assms(2)] by (auto simp: quiet_step_def alerts_of_def)

lemma clock_later: "orderly env \<Longrightarrow> m \<le> n \<Longrightarrow> t \<le> me_now env m + c \<Longrightarrow> t \<le> me_now env n + c"
  using monoD [of "me_now env" m n] by (simp add: orderly_def) 

lemma quiet_inv:
  assumes "quiet_step env s s'" "metrics_inv env s" "orderly env"
  shows "metrics_inv env s'"
proof -
  obtain as where q: "mv_rules s' = mv_rules s" "mv_tick s \<le> mv_tick s'" "list_all (foreign env) as"
    "mt_alerts (mv_tables s') = mt_alerts (mv_tables s) @ as" using assms(1) by (auto simp: quiet_step_def)
  have rules: "rule_inv s' i r" if r: "map_of (mv_rules s') i = Some r" for i r
    using metrics_inv_rule [OF assms(2)] metrics_inv_id [OF assms(2)] r q(1) quiet_alerts_of [OF assms(1)]
    by (simp add: rule_inv_def)
  have "foreign env a \<or> al_rule_id a \<in> drawn_ids env s' \<and> al_fired_at a \<le> me_now env (mv_tick s') + 500"
    if a: "a \<in> set (mt_alerts (mv_tables s'))" for a
    using a q(3,4) assms(2) drawn_ids_mono [OF q(2)] clock_later [OF assms(3) q(2)]
    by (auto simp: list_all_iff metrics_inv_def)
  moreover have "fst ` set (mv_rules s') \<subseteq> drawn_ids env s'"
    using assms(2) q(1) drawn_ids_mono [OF q(2)] by (auto simp: metrics_inv_def)
  ultimately show ?thesis using rules by (simp add: metrics_inv_def)
qed

text \<open>A new rule has an id no alert carries.\<close>

lemma add_alert_rule_inv:
  assumes "metrics_inv env s" "orderly env" "valid_duration (ar_duration r)"
  shows "metrics_inv env (snd (add_alert_rule env r s))"
proof -
  let ?i = "me_uuid env (mv_tick s)" and ?s = "snd (add_alert_rule env r s)"
  have s: "mv_rules ?s = AList.update ?i (r\<lparr>ar_id := ?i\<rparr>) (mv_rules s)" "mv_tables ?s = mv_tables s" "mv_tick ?s = Suc (mv_tick s)"
    by (simp_all add: add_alert_rule_def new_uuid_def)
  have new: "?i \<notin> drawn_ids env s" using assms(2) by (auto simp: drawn_ids_def orderly_def dest: injD)
  have range: "\<not> foreign env a" if "al_rule_id a = ?i" for a using that by (auto simp: foreign_def)
  have none: "alerts_of ?i s = []" using assms(1) new range by (auto simp: alerts_of_def filter_empty_conv metrics_inv_def)
  have same: "alerts_of i ?s = alerts_of i s" for i by (simp add: alerts_of_def s)
  have le: "mv_tick s \<le> mv_tick ?s" by (simp add: s)
  have i: "?i \<in> drawn_ids env ?s" by (simp add: drawn_ids_def s)
  have "rule_inv ?s j q" if "map_of (mv_rules ?s) j = Some q" for j q
    using that metrics_inv_rule [OF assms(1)] none assms(3)
    by (auto simp: rule_inv_def same s spaced_def update_conv split: if_splits)
  moreover have "fst ` set (mv_rules ?s) \<subseteq> drawn_ids env ?s"
    using assms(1) i drawn_ids_mono [OF le] by (auto simp: s dom_update metrics_inv_def)
  moreover have "foreign env a \<or> al_rule_id a \<in> drawn_ids env ?s \<and> al_fired_at a \<le> me_now env (mv_tick ?s) + 500"
    if "a \<in> set (mt_alerts (mv_tables ?s))" for a
    using that assms(1) drawn_ids_mono [OF le] clock_later [OF assms(2) le] by (auto simp: s(2) metrics_inv_def)
  ultimately show ?thesis by (simp add: metrics_inv_def)
qed

lemma alert_row_simps [simp]:
  "al_id (alert_row env a) = al_id a" "al_rule_id (alert_row env a) = al_rule_id a"
  "al_fired_at (alert_row env a) = me_stored env (al_fired_at a)" "al_value (alert_row env a) = al_value a"
  "al_severity (alert_row env a) = al_severity a"
  by (simp_all add: alert_row_def)

lemma new_alert_simps [simp]:
  "al_id (new_alert i r p t) = i" "al_rule_id (new_alert i r p t) = ar_id r" "al_fired_at (new_alert i r p t) = t"
  "al_value (new_alert i r p t) = mp_value p"
  "al_severity (new_alert i r p t) = determine_severity (ar_threshold r) (mp_value p)"
  by (simp_all add: new_alert_def)

text \<open>Saving an alert: refused without a trace, or done, after what others have inserted.\<close>

lemma save_alert_cases:
  assumes "save_alert env a s = (x, s')" "orderly env"
  obtains "x \<noteq> None" "quiet_step env s s'"
  | as where "x = None" "mv_rules s' = mv_rules s" "mv_tick s' = Suc (mv_tick s)" "list_all (foreign env) as"
      "mt_alerts (mv_tables s') = mt_alerts (mv_tables s) @ as @ [alert_row env a]"
proof -
  have others: "others_foreign env" and safe: "me_fault env n \<noteq> Lost_Reply y" for n y
    using assms(2) by (simp_all add: orderly_def)
  let ?n = "mv_tick s" and ?tb = "insert_others (me_others env (mv_tick s)) (mv_tables s)"
  have as: "list_all (foreign env) (snd (me_others env ?n))" using others by (simp add: others_foreign_def)
  show thesis
  proof (cases "me_fault env ?n = No_Fault \<and> alert_violation ?tb (alert_row env a) = None")
    case True
    then show ?thesis
      using assms(1) as by (intro that(2)) (auto simp: save_alert_def run_stmt_def insert_alert_def Let_def)
  next
    case False
    then show ?thesis
      using assms(1) as safe [of ?n]
      by (intro that(1))
        (auto simp: save_alert_def run_stmt_def insert_alert_def Let_def quiet_step_def split: option.splits fault.splits)
  qed
qed

lemma publish_alert_event_quiet: "quiet_step env s (publish_alert_event env a s)"
  by (simp add: publish_alert_event_def new_uuid_def read_clock_def quiet_step_def)

lemma set_last_fired_simps [simp]:
  "map_of (mv_rules (set_last_fired i t s)) = (map_of (mv_rules s))
     (i := map_option (\<lambda>r. r\<lparr>ar_last_fired := t\<rparr>) (map_of (mv_rules s) i))"
  "fst ` set (mv_rules (set_last_fired i t s)) = fst ` set (mv_rules s)"
  "mv_tables (set_last_fired i t s) = mv_tables s" "mv_tick (set_last_fired i t s) = mv_tick s"
  "mv_kafka (set_last_fired i t s) = mv_kafka s" "mv_calls (set_last_fired i t s) = mv_calls s"
  by (auto simp: set_last_fired_def map_of_map_entry dom_map_entry split: option.splits)

text \<open>The two times of a firing: the alert's, and the later one the rule keeps.\<close>

lemma fire_alert_inv:
  assumes "fire_alert env r p s = (x, s')" "orderly env" "metrics_inv env s" "map_of (mv_rules s) i = Some r"
    and "ar_last_fired r + ar_duration r < me_now env (mv_tick s)"
  shows "metrics_inv env s'"
proof -
  let ?n = "mv_tick s"
  let ?t = "me_now env (Suc ?n)" and ?s2 = "tick (tick s)"
  let ?a = "new_alert (me_uuid env ?n) r p ?t"
  have q2: "quiet_step env s ?s2" by (simp add: quiet_step_def)
  have id: "ar_id r = i" "valid_duration (ar_duration r)" using metrics_inv_rule [OF assms(3,4)] by (simp_all add: rule_inv_def)
  have near: "\<bar>me_stored env ?t - ?t\<bar> \<le> 500" and mono: "mono (me_now env)" using assms(2) by (simp_all add: orderly_def)
  obtain y s3 where save: "save_alert env ?a ?s2 = (y, s3)" by fastforce
  from save assms(2) show ?thesis
  proof (cases rule: save_alert_cases)
    case 1
    then have "s' = s3" using assms(1) save by (auto simp: fire_alert_def new_uuid_def read_clock_def)
    with 1 q2 show ?thesis using quiet_inv [OF quiet_trans assms(3,2)] by blast
  next
    case (2 as)
    let ?s4 = "publish_alert_event env ?a s3" and ?m = "mv_tick (publish_alert_event env ?a s3)"
    have s4: "mv_rules ?s4 = mv_rules s" "mt_alerts (mv_tables ?s4) = mt_alerts (mv_tables s) @ as @ [alert_row env ?a]" "?n < ?m"
      using 2 by (simp_all add: publish_alert_event_def new_uuid_def read_clock_def)
    have s': "s' = set_last_fired i (me_now env ?m) (tick ?s4)"
      using assms(1) save 2(1) id by (simp add: fire_alert_def new_uuid_def read_clock_def)
    have le: "?n \<le> mv_tick s'" using s4(3) by (simp add: s')
    have t: "?t \<le> me_now env ?m" using monoD [OF mono] s4(3) by simp
    have tick': "mv_tick s' = Suc ?m" by (simp add: s')
    have later: "me_now env ?n \<le> ?t" "me_now env ?m \<le> me_now env (mv_tick s')"
      using monoD [OF mono] by (simp_all add: tick')
    have others: "alerts_of j s' = alerts_of j s @ (if j = i then [alert_row env ?a] else [])"
      if "j \<in> drawn_ids env s" for j
      using s4(2) id filter_foreign [OF 2(4) that] by (auto simp: alerts_of_def s')
    have "rule_inv s' j q" if j: "map_of (mv_rules s') j = Some q" for j q
    proof (cases "j = i")
      case False
      then have m: "map_of (mv_rules s) j = Some q" using j s4(1) by (simp add: s')
      from metrics_inv_rule [OF assms(3) m] others [OF metrics_inv_id [OF assms(3) m]] False
      show ?thesis by (simp add: rule_inv_def)
    next
      case True
      then have q: "q = r\<lparr>ar_last_fired := me_now env ?m\<rparr>" using j s4(1) assms(4) by (simp add: s')
      note old = metrics_inv_rule [OF assms(3,4), unfolded rule_inv_def]
      have all: "alerts_of i s' = alerts_of i s @ [alert_row env ?a]" using others [OF metrics_inv_id [OF assms(3,4)]] by simp
      have "ar_duration r - 1000 < me_stored env ?t - al_fired_at a" if "a \<in> set (alerts_of i s)" for a
        using old that near assms(5) later(1) by fastforce
      then have "spaced (ar_duration r) (alerts_of i s')" using old by (simp add: spaced_def all)
      moreover have "al_fired_at a \<le> me_now env ?m + 500" if "a \<in> set (alerts_of i s')" for a
        using that near t later(1) metrics_inv_alert [OF assms(3) metrics_inv_id [OF assms(3,4)], of a] by (auto simp: all)
      ultimately show ?thesis using old True q by (simp add: rule_inv_def)
    qed
    moreover have "fst ` set (mv_rules s') \<subseteq> drawn_ids env s'"
      using assms(3) s4(1) drawn_ids_mono [OF le] by (auto simp: s' metrics_inv_def)
    moreover have "foreign env a \<or> al_rule_id a \<in> drawn_ids env s' \<and> al_fired_at a \<le> me_now env (mv_tick s') + 500"
      if "a \<in> set (mt_alerts (mv_tables s'))" for a
      using that s4(2) 2(4) assms(3) drawn_ids_mono [OF le] clock_later [OF assms(2) le] id
        metrics_inv_id [OF assms(3,4)] near t later(2)
      by (auto simp: s' metrics_inv_def list_all_iff)
    ultimately show ?thesis by (simp add: metrics_inv_def)
  qed
qed

lemma evaluate_alert_rule_inv:
  assumes "orderly env" "metrics_inv env s" "map_of (mv_rules s) i = Some r"
  shows "metrics_inv env (snd (evaluate_alert_rule env r s))"
proof -
  have others: "others_foreign env" using assms(1) by (simp add: orderly_def)
  obtain x s1 where get: "repo_get_metrics env (ar_metric_name r)
      (me_now env (mv_tick s) + neg_duration (ar_duration r)) (me_now env (mv_tick s)) (tick s) = (x, s1)" by fastforce
  have q: "quiet_step env s s1" using quiet_trans [OF quiet_tick query_rows_quiet [OF _ others]] get
    by (simp add: repo_get_metrics_def)
  note inv1 = quiet_inv [OF q assms(2,1)]
  let ?s2 = "tick s1"
  have inv2: "metrics_inv env ?s2" by (rule quiet_inv [OF quiet_tick inv1 assms(1)])
  have rule: "map_of (mv_rules ?s2) i = Some r" using q assms(3) by (simp add: quiet_step_def)
  have valid: "valid_duration (ar_duration r)" using metrics_inv_rule [OF assms(2,3)] by (simp add: rule_inv_def)
  have fire: "metrics_inv env (snd (fire_alert env r p ?s2))"
    if due: "ar_duration r < sub_time (me_now env (mv_tick s1)) (ar_last_fired r)" for p
  proof -
    have "me_now env (mv_tick s1) \<le> me_now env (mv_tick ?s2)" using clock_later [OF assms(1), of "mv_tick s1" _ _ 0] by simp
    then have "ar_last_fired r + ar_duration r < me_now env (mv_tick ?s2)" using sub_time_gt [OF valid due] by linarith
    then show ?thesis using fire_alert_inv [OF _ assms(1) inv2 rule] by (metis prod.collapse)
  qed
  show ?thesis
    using get inv1 inv2 fire by (auto simp: evaluate_alert_rule_def read_clock_def split: sum.splits)
qed

lemma metrics_step_inv:
  assumes "metrics_step env s s'" "orderly env" "metrics_inv env s"
  shows "metrics_inv env s'"
proof -
  have others: "others_foreign env" using assms(2) by (simp add: orderly_def)
  show ?thesis
    using assms(1)
  proof cases
    case (step_check i)
    then show ?thesis
      using evaluate_alert_rule_inv [OF assms(2,3)] by (auto simp: check_rule_def enabled_rule_def split: option.splits)
  next
    case (step_add r)
    then show ?thesis using add_alert_rule_inv [OF assms(3,2)] by simp
  next
    case (step_breaker service provider st)
    then show ?thesis using quiet_inv [OF recording_quiet [OF others] assms(3,2)] by (simp add: record_defs)
  next
    case (step_message msg)
    then show ?thesis using quiet_inv [OF receive_message_quiet [OF others] assms(3,2)] by simp
  next
    case (step_metrics name t u)
    then show ?thesis using quiet_inv [OF get_metrics_quiet [OF _ others] assms(3,2)] by (metis prod.collapse)
  next
    case step_alerts
    then show ?thesis using quiet_inv [OF get_active_alerts_quiet [OF _ others] assms(3,2)] by (metis prod.collapse)
  qed
qed

lemma reachable_inv:
  assumes "(metrics_step env)\<^sup>*\<^sup>* (new_metrics_service tb) s" "orderly env" "list_all (foreign env) (mt_alerts tb)"
  shows "metrics_inv env s"
  using assms(1)
proof induction
  case base
  then show ?case using assms(3) by (simp add: metrics_inv_def new_metrics_service_def list_all_iff)
next
  case (step s s')
  then show ?case using metrics_step_inv assms(2) by blast
qed

text \<open>A check of all rules is a run of such steps: none of them removes or disables a rule.\<close>

lemma query_rows_rules: "query_rows env q s = (x, s') \<Longrightarrow> mv_rules s' = mv_rules s"
  by (auto simp: query_rows_def dest: run_stmt_frame(1) split: prod.splits sum.splits)

lemma save_alert_rules: "save_alert env a s = (x, s') \<Longrightarrow> mv_rules s' = mv_rules s"
  by (auto simp: save_alert_def dest: run_stmt_frame(1) split: prod.splits sum.splits)

lemma set_last_fired_enabled: "enabled_rule (set_last_fired i t s) j = enabled_rule s j"
  by (auto simp: enabled_rule_def split: option.splits)

lemma enabled_cong: "mv_rules s' = mv_rules s \<Longrightarrow> enabled_rule s' j = enabled_rule s j"
  by (simp add: enabled_rule_def)

lemma fire_alert_enabled: "enabled_rule (snd (fire_alert env r p s)) j = enabled_rule s j"
proof -
  let ?a = "new_alert (me_uuid env (mv_tick s)) r p (me_now env (Suc (mv_tick s)))"
  obtain x s1 where save: "save_alert env ?a (tick (tick s)) = (x, s1)" by fastforce
  have same: "enabled_rule s1 j = enabled_rule s j" using save_alert_rules [OF save] by (intro enabled_cong) simp
  have "mv_rules (tick (publish_alert_event env ?a s1)) = mv_rules s1"
    by (simp add: publish_alert_event_def new_uuid_def read_clock_def)
  then show ?thesis
    using save same enabled_cong [of "tick (publish_alert_event env ?a s1)" s1]
    by (cases x) (simp_all add: fire_alert_def new_uuid_def read_clock_def set_last_fired_enabled)
qed

lemma check_rule_enabled: "enabled_rule (check_rule env i s) j = enabled_rule s j"
proof -
  have "enabled_rule (snd (evaluate_alert_rule env r s)) j = enabled_rule s j" for r
  proof -
    obtain x s1 where get: "repo_get_metrics env (ar_metric_name r)
        (me_now env (mv_tick s) + neg_duration (ar_duration r)) (me_now env (mv_tick s)) (tick s) = (x, s1)" by fastforce
    have "mv_rules s1 = mv_rules s" using query_rows_rules get by (fastforce simp: repo_get_metrics_def)
    then have "enabled_rule s1 j = enabled_rule s j" "enabled_rule (tick s1) j = enabled_rule s j"
      by (simp_all add: enabled_rule_def)
    then show ?thesis
      using get by (auto simp: evaluate_alert_rule_def read_clock_def fire_alert_enabled split: sum.splits)
  qed
  then show ?thesis by (simp add: check_rule_def split: option.splits)
qed

lemma check_alerts_run: "(metrics_step env)\<^sup>*\<^sup>* s (check_alerts env order s)"
proof -
  have "(metrics_step env)\<^sup>*\<^sup>* s (fold (check_rule env) ids s)" if "list_all (enabled_rule s) ids" for ids s
    using that
  proof (induction ids arbitrary: s)
    case (Cons i ids)
    then have "list_all (enabled_rule (check_rule env i s)) ids" by (simp add: list_all_iff check_rule_enabled)
    from converse_rtranclp_into_rtranclp [OF step_check Cons.IH [OF this]] Cons.prems show ?case by simp
  qed simp
  then show ?thesis by (simp add: check_alerts_def list_all_iff)
qed

section \<open>When a rule fires\<close>

text \<open>No request fails, no read is cut, no other process writes.\<close>

definition calm_metrics :: "metric_env \<Rightarrow> bool" where
  "calm_metrics env \<longleftrightarrow> (\<forall>n. me_fault env n = No_Fault \<and> me_rows env n = None \<and> me_others env n = ([], []))"

lemma insert_no_others [simp]: "insert_others ([], []) tb = tb"
  by (simp add: insert_others_def)

lemma run_stmt_calm:
  assumes "calm_metrics env"
  shows "run_stmt env st s = (case st (mv_tables s) of Inl c \<Rightarrow> (Inl (me_violation env c), tick s)
     | Inr (a, tb) \<Rightarrow> (Inr a, (tick s)\<lparr>mv_tables := tb\<rparr>))"
  using assms by (auto simp: calm_metrics_def run_stmt_def Let_def tick_def split: sum.split)

lemma get_metrics_calm:
  assumes "calm_metrics env"
  shows "repo_get_metrics env name t u s =
    (Inr (map point_of (rows_between name (me_stored env t) (me_stored env u) (mv_tables s))), tick s)"
  using assms by (simp add: repo_get_metrics_def query_rows_def run_stmt_calm [OF assms] rows_read_def calm_metrics_def tick_def)

text \<open>The latest of the measurements in a window.\<close>

definition in_window :: "string \<Rightarrow> time \<Rightarrow> time \<Rightarrow> metric_row \<Rightarrow> bool" where
  "in_window name t u m \<longleftrightarrow> mr_metric_name m = name \<and> t \<le> mr_timestamp m \<and> mr_timestamp m \<le> u"

definition latest_in :: "string \<Rightarrow> time \<Rightarrow> time \<Rightarrow> metric_tables \<Rightarrow> metric_row \<Rightarrow> bool" where
  "latest_in name t u tb m \<longleftrightarrow> m \<in> set (mt_metrics tb) \<and> in_window name t u m \<and>
     (\<forall>m' \<in> set (mt_metrics tb). in_window name t u m' \<longrightarrow> mr_timestamp m' \<le> mr_timestamp m)"

lemma rows_between_set: "set (rows_between name t u tb) = {m \<in> set (mt_metrics tb). in_window name t u m}"
  by (auto simp: rows_between_def in_window_def)

lemma last_sorted: "sorted xs \<Longrightarrow> x \<in> set xs \<Longrightarrow> x \<le> last xs"
  by (induction xs) (auto split: if_splits)

lemma last_between:
  assumes "rows_between name t u tb \<noteq> []"
  shows "latest_in name t u tb (last (rows_between name t u tb))"
proof -
  let ?ms = "rows_between name t u tb"
  have "sorted (map mr_timestamp ?ms)" by (simp add: rows_between_def)
  then have "mr_timestamp m \<le> mr_timestamp (last ?ms)" if "m \<in> set ?ms" for m
    using last_sorted [of "map mr_timestamp ?ms" "mr_timestamp m"] that assms by (simp add: last_map)
  then show ?thesis using last_in_set [OF assms] by (auto simp: latest_in_def rows_between_set)
qed

text \<open>The alert of a rule for a measurement, and the state once it is saved and published.\<close>

definition saved_alert :: "metric_env \<Rightarrow> alert_rule \<Rightarrow> metric_row \<Rightarrow> nat \<Rightarrow> json alert" where
  "saved_alert env r m n = alert_row env (new_alert (me_uuid env n) r (point_of m) (me_now env (n + 1)))"

definition alert_message :: "metric_env \<Rightarrow> alert_rule \<Rightarrow> metric_row \<Rightarrow> nat \<Rightarrow> kafka_message list" where
  "alert_message env r m n = snd (publish (me_format env) (me_write env (n + 5))
     (alert_event (me_uuid env (n + 3)) (me_now env (n + 4)) (new_alert (me_uuid env n) r (point_of m) (me_now env (n + 1)))))"

definition fired :: "metric_env \<Rightarrow> alert_rule \<Rightarrow> metric_row \<Rightarrow> metrics_state \<Rightarrow> metrics_state \<Rightarrow> bool" where
  "fired env r m s s' \<longleftrightarrow> mt_alerts (mv_tables s') = mt_alerts (mv_tables s) @ [saved_alert env r m (mv_tick s)] \<and>
     mt_metrics (mv_tables s') = mt_metrics (mv_tables s) \<and> mv_calls s' = mv_calls s \<and>
     mv_kafka s' = mv_kafka s @ alert_message env r m (mv_tick s) \<and> mv_tick s' = mv_tick s + 7 \<and>
     mv_rules s' = AList.map_entry (ar_id r) (\<lambda>q. q\<lparr>ar_last_fired := me_now env (mv_tick s + 6)\<rparr>) (mv_rules s)"

definition unchanged :: "metrics_state \<Rightarrow> metrics_state \<Rightarrow> bool" where
  "unchanged s s' \<longleftrightarrow> mv_rules s' = mv_rules s \<and> mv_calls s' = mv_calls s \<and> mv_tables s' = mv_tables s \<and> mv_kafka s' = mv_kafka s"

lemma fire_alert_calm:
  assumes "calm_metrics env"
  shows "case alert_violation (mv_tables s) (saved_alert env r m (mv_tick s)) of
      Some c \<Rightarrow> fst (fire_alert env r (point_of m) s) = Some (''failed to save alert: '' @ me_violation env c) \<and>
        unchanged s (snd (fire_alert env r (point_of m) s))
    | None \<Rightarrow> fst (fire_alert env r (point_of m) s) = None \<and> fired env r m s (snd (fire_alert env r (point_of m) s))"
proof -
  have save: "save_alert env (new_alert (me_uuid env (mv_tick s)) r (point_of m) (me_now env (Suc (mv_tick s)))) (tick (tick s)) =
    (case alert_violation (mv_tables s) (saved_alert env r m (mv_tick s)) of
       Some c \<Rightarrow> (Some (me_violation env c), tick (tick (tick s)))
     | None \<Rightarrow> (None, (tick (tick (tick s)))\<lparr>mv_tables :=
         (mv_tables s)\<lparr>mt_alerts := mt_alerts (mv_tables s) @ [saved_alert env r m (mv_tick s)]\<rparr>\<rparr>))"
    by (simp add: save_alert_def run_stmt_calm [OF assms] insert_alert_def saved_alert_def split: option.split)
  show ?thesis
    by (simp add: fire_alert_def new_uuid_def read_clock_def save split: option.split)
      (simp add: unchanged_def fired_def alert_message_def publish_alert_event_def new_uuid_def read_clock_def
        set_last_fired_def eval_nat_numeral)
qed

lemma evaluate_calm:
  assumes "calm_metrics env" "n = mv_tick s"
    and "ms = rows_between (ar_metric_name r) (me_stored env (me_now env n + neg_duration (ar_duration r)))
      (me_stored env (me_now env n)) (mv_tables s)"
    and "due = (ms \<noteq> [] \<and> condition_holds (ar_condition r) (mr_value (last ms)) (ar_threshold r) \<and>
      ar_duration r < sub_time (me_now env (n + 2)) (ar_last_fired r))"
  shows "due \<Longrightarrow> evaluate_alert_rule env r s = fire_alert env r (point_of (last ms)) (tick (tick (tick s)))"
    and "\<not> due \<Longrightarrow> fst (evaluate_alert_rule env r s) = None \<and> unchanged s (snd (evaluate_alert_rule env r s))"
proof -
  have get: "repo_get_metrics env (ar_metric_name r) (me_now env n + neg_duration (ar_duration r)) (me_now env n) (tick s) =
    (Inr (map point_of ms), tick (tick s))" using assms(3) by (simp add: get_metrics_calm [OF assms(1)])
  have latest_value: "ms \<noteq> [] \<Longrightarrow> mp_value (last (map point_of ms)) = mr_value (last ms)" by (simp add: last_map point_of_def)
  show "due \<Longrightarrow> evaluate_alert_rule env r s = fire_alert env r (point_of (last ms)) (tick (tick (tick s)))"
    using assms(2,4) get latest_value by (simp add: evaluate_alert_rule_def read_clock_def last_map)
  show "\<not> due \<Longrightarrow> fst (evaluate_alert_rule env r s) = None \<and> unchanged s (snd (evaluate_alert_rule env r s))"
    using assms(2,4) get latest_value by (auto simp: evaluate_alert_rule_def read_clock_def unchanged_def last_map)
qed

section \<open>Properties\<close>

text \<open>C19: the evaluation of an alert rule, when the database answers and no read is cut.  Nothing happens, and no
  error is returned, when there is no measurement of the metric in the rule's duration up to now, or when
  the latest one does not satisfy the condition, or the rule has fired less than its duration ago.  Otherwise
  exactly one alert of the latest value is stored, its event handed to Kafka and the rule marked, in that
  order; or the row is refused by the table, and then nothing is left behind but the error.\<close>

theorem alert_rule_exact:
  assumes "calm_metrics env" "n = mv_tick s" "evaluate_alert_rule env r s = (err, s')"
    and "begins = me_stored env (me_now env n + neg_duration (ar_duration r))" "ends = me_stored env (me_now env n)"
    and "fires = (\<lambda>m. condition_holds (ar_condition r) (mr_value m) (ar_threshold r) \<and>
      ar_duration r < sub_time (me_now env (n + 2)) (ar_last_fired r))"
  shows "err = None \<and> unchanged s s' \<and>
      (list_all (\<lambda>m. \<not> in_window (ar_metric_name r) begins ends m) (mt_metrics (mv_tables s)) \<or>
       (\<exists>m. latest_in (ar_metric_name r) begins ends (mv_tables s) m \<and> \<not> fires m)) \<or>
    (\<exists>m. latest_in (ar_metric_name r) begins ends (mv_tables s) m \<and> fires m \<and>
       (case alert_violation (mv_tables s) (saved_alert env r m (n + 3)) of
          None \<Rightarrow> err = None \<and> fired env r m ((tick ^^ 3) s) s'
        | Some c \<Rightarrow> err = Some (''failed to save alert: '' @ me_violation env c) \<and> unchanged s s'))"
proof -
  define ms where "ms = rows_between (ar_metric_name r) begins ends (mv_tables s)"
  have none: "ms = [] \<longleftrightarrow> list_all (\<lambda>m. \<not> in_window (ar_metric_name r) begins ends m) (mt_metrics (mv_tables s))"
    unfolding ms_def set_empty [symmetric] rows_between_set by (auto simp: list_all_iff)
  have latest: "ms \<noteq> [] \<Longrightarrow> latest_in (ar_metric_name r) begins ends (mv_tables s) (last ms)"
    unfolding ms_def by (rule last_between)
  note ev = evaluate_calm [OF assms(1,2) ms_def [unfolded assms(4) assms(5)] refl]
  show ?thesis
  proof (cases "ms \<noteq> [] \<and> fires (last ms)")
    case False
    then have "err = None \<and> unchanged s s'" using ev(2) assms(3,6) by auto
    with False none latest show ?thesis by blast
  next
    case True
    let ?s3 = "tick (tick (tick s))"
    have run: "fire_alert env r (point_of (last ms)) ?s3 = (err, s')" using True ev(1) assms(3,6) by auto
    have t3: "(tick ^^ 3) s = ?s3" by (simp add: eval_nat_numeral)
    have ticks: "unchanged ?s3 s' \<Longrightarrow> unchanged s s'" by (simp add: unchanged_def)
    from fire_alert_calm [OF assms(1), where s = ?s3 and r = r and m = "last ms"] run ticks
    have "case alert_violation (mv_tables s) (saved_alert env r (last ms) (n + 3)) of
          None \<Rightarrow> err = None \<and> fired env r (last ms) ((tick ^^ 3) s) s'
        | Some c \<Rightarrow> err = Some (''failed to save alert: '' @ me_violation env c) \<and> unchanged s s'"
      unfolding t3 using assms(2) by (auto simp: eval_nat_numeral split: option.splits)
    with True latest show ?thesis by blast
  qed
qed

lemma severity_short: "length (determine_severity th v) \<le> 8"
  by (simp add: determine_severity_def Let_def)

definition example_metric_env :: metric_env where
  "example_metric_env = \<lparr>me_now = (\<lambda>n. int n * 1000000), me_uuid = (\<lambda>n. replicate n (CHR ''u'')), me_fault = (\<lambda>_. No_Fault),
     me_rows = (\<lambda>_. None), me_others = (\<lambda>_. ([], [])), me_violation = (\<lambda>c. c), me_stored = (\<lambda>t. t),
     me_write = (\<lambda>_. None), me_format = (\<lambda>_. '''')\<rparr>"

definition example_measured :: metric_tables where
  "example_measured = \<lparr>mt_metrics = [\<lparr>mr_metric_name = ''m'', mr_value = FFin 9, mr_labels = JObj [], mr_timestamp = 1\<rparr>,
     \<lparr>mr_metric_name = ''m'', mr_value = FFin 7, mr_labels = JObj [], mr_timestamp = 10500000\<rparr>], mt_alerts = []\<rparr>"

definition example_rule :: alert_rule where
  "example_rule = \<lparr>ar_id = nil_uuid, ar_name = ''r'', ar_metric_name = ''m'', ar_condition = ''gt'', ar_threshold = FFin 5,
     ar_duration = 1000000, ar_enabled = True, ar_last_fired = 0, ar_description = ''''\<rparr>"

definition example_watched :: metrics_state where
  "example_watched = snd (add_alert_rule example_metric_env example_rule (new_metrics_service example_measured))"

lemma example_calm: "calm_metrics example_metric_env"
  by (simp add: calm_metrics_def example_metric_env_def)

lemma example_orderly: "orderly example_metric_env"
proof -
  have "inj (\<lambda>n. replicate n (CHR ''u''))" by (intro injI) (metis length_replicate)
  then show ?thesis
    by (simp add: orderly_def example_metric_env_def others_foreign_def mono_def)
qed

lemma example_env_simps [simp]:
  "me_now example_metric_env n = int n * 1000000" "me_stored example_metric_env t = t"
  "me_uuid example_metric_env n = replicate n (CHR ''u'')"
  by (simp_all add: example_metric_env_def)

lemma example_watched_simps:
  "mv_tick example_watched = 1" "mv_tables example_watched = example_measured"
  "mv_rules example_watched = [([], example_rule\<lparr>ar_id := []\<rparr>)]"
  by (simp_all add: example_watched_def add_alert_rule_def new_uuid_def new_metrics_service_def)

lemma alert_rule_exact_witness:
  "\<exists>s'. evaluate_alert_rule example_metric_env (example_rule\<lparr>ar_id := []\<rparr>) example_watched = (None, s') \<and>
     map al_value (mt_alerts (mv_tables s')) = [FFin 9]"
proof -
  let ?r = "example_rule\<lparr>ar_id := []\<rparr>"
  obtain err s' where run: "evaluate_alert_rule example_metric_env ?r example_watched = (err, s')" by fastforce
  let ?m = "hd (mt_metrics example_measured)"
  have rule: "ar_metric_name ?r = ''m''" "ar_condition ?r = ''gt''" "ar_threshold ?r = FFin 5" "ar_duration ?r = 1000000"
    "ar_last_fired ?r = 0" by (simp_all add: example_rule_def)
  have latest: "latest_in ''m'' 0 1000000 example_measured m \<longleftrightarrow> m = ?m" for m
    by (auto simp: latest_in_def example_measured_def in_window_def)
  have some: "\<not> list_all (\<lambda>m. \<not> in_window ''m'' 0 1000000 m) (mt_metrics example_measured)"
    by (simp add: example_measured_def in_window_def)
  have v: "mr_value ?m = FFin 9" "mt_alerts example_measured = []" by (simp_all add: example_measured_def)
  have ok: "alert_violation example_measured (saved_alert example_metric_env ?r ?m 4) = None"
    using le_trans [OF severity_short, of 20]
    by (simp add: alert_violation_def saved_alert_def alert_row_def new_alert_def v example_rule_def not_less)
  have al: "al_value (saved_alert example_metric_env ?r ?m k) = FFin 9" for k
    by (simp add: saved_alert_def point_of_def v)
  have t: "mv_tables ((tick ^^ 3) example_watched) = example_measured" by (simp add: eval_nat_numeral example_watched_simps)
  from alert_rule_exact [OF example_calm refl run refl refl refl]
  have "err = None \<and> fired example_metric_env ?r ?m ((tick ^^ 3) example_watched) s'"
    unfolding rule example_watched_simps
    by (simp add: neg_duration_def sub_time_def latest some v ok condition_holds_def)
  with run t show ?thesis by (auto simp: fired_def al v)
qed

text \<open>C18: the alerts of a rule keep their distance.  Whatever sequence of messages, new rules, checks and queries
  the service has served since it started, any two alerts of a rule in the table are further apart than
  the rule's duration, up to the microsecond to which the database rounds times.  It takes a clock
  that does not go back and a database whose replies are not lost; requests may fail, reads may be cut.\<close>

theorem alerts_spaced:
  assumes "(metrics_step env)\<^sup>*\<^sup>* (new_metrics_service tb) s" "orderly env" "list_all (foreign env) (mt_alerts tb)"
    and "map_of (mv_rules s) i = Some r"
  shows "sorted_wrt (\<lambda>a b. ar_duration r - 1000 < al_fired_at b - al_fired_at a)
    (filter (\<lambda>a. al_rule_id a = i) (mt_alerts (mv_tables s)))"
  using metrics_inv_rule [OF reachable_inv [OF assms(1-3)] assms(4)]
  by (simp add: rule_inv_def spaced_def alerts_of_def)

definition example_rule_at :: "time \<Rightarrow> alert_rule" where
  "example_rule_at l = example_rule\<lparr>ar_id := [], ar_last_fired := l\<rparr>"

lemma example_check:
  assumes "mv_rules s = [([], example_rule_at l)]" "n = mv_tick s"
    and "rows_between ''m'' (int n * 1000000 - 1000000) (int n * 1000000) (mv_tables s) = [m]" "mr_value m = FFin v" "5 < v"
    and "1000000 < sub_time (int (n + 2) * 1000000) l" "list_all (\<lambda>a. length (al_id a) < n + 3) (mt_alerts (mv_tables s))"
    and "s' = check_rule example_metric_env [] s"
  shows "\<exists>a. mt_alerts (mv_tables s') = mt_alerts (mv_tables s) @ [a] \<and> al_rule_id a = [] \<and> length (al_id a) = n + 3"
    and "mt_metrics (mv_tables s') = mt_metrics (mv_tables s)" "mv_tick s' = n + 10"
    and "mv_rules s' = [([], example_rule_at (int (n + 9) * 1000000))]"
proof -
  let ?env = example_metric_env and ?r = "example_rule_at l" and ?s3 = "tick (tick (tick s))"
  have rule: "ar_id ?r = []" "ar_metric_name ?r = ''m''" "ar_condition ?r = ''gt''" "ar_threshold ?r = FFin 5" "ar_duration ?r = 1000000"
    "ar_last_fired ?r = l" by (simp_all add: example_rule_at_def example_rule_def)
  have "evaluate_alert_rule ?env ?r s = fire_alert ?env ?r (point_of m) ?s3"
    using evaluate_calm(1) [OF example_calm assms(2) refl refl, of ?r] assms(3-6)
    by (simp add: rule neg_duration_def condition_holds_def)
  then have s': "s' = snd (fire_alert ?env ?r (point_of m) ?s3)"
    using assms(1,8) by (simp add: check_rule_def)
  have new: "replicate (mv_tick ?s3) (CHR ''u'') \<notin> al_id ` set (mt_alerts (mv_tables s))"
  proof
    assume "replicate (mv_tick ?s3) (CHR ''u'') \<in> al_id ` set (mt_alerts (mv_tables s))"
    then obtain a where "a \<in> set (mt_alerts (mv_tables s))" "al_id a = replicate (mv_tick ?s3) (CHR ''u'')" by (metis imageE)
    moreover have "length (replicate (mv_tick ?s3) (CHR ''u'')) = n + 3" using assms(2) by simp
    ultimately show False using assms(7) by (metis list_all_iff nat_less_le)
  qed
  have ok: "alert_violation (mv_tables ?s3) (saved_alert ?env ?r m (mv_tick ?s3)) = None"
    using le_trans [OF severity_short, of 20] new
    by (simp add: alert_violation_def saved_alert_def alert_row_def new_alert_def example_rule_at_def example_rule_def not_less
      del: replicate.simps)
  have fired: "fired ?env ?r m ?s3 s'" using fire_alert_calm [OF example_calm, where s = ?s3 and r = ?r and m = m] ok s' by simp
  then show "mt_metrics (mv_tables s') = mt_metrics (mv_tables s)" "mv_tick s' = n + 10"
    by (simp_all add: fired_def assms(2))
  show "mv_rules s' = [([], example_rule_at (int (n + 9) * 1000000))]"
    using fired assms(1,2) by (simp add: fired_def rule) (simp add: example_rule_at_def add.commute)
  show "\<exists>a. mt_alerts (mv_tables s') = mt_alerts (mv_tables s) @ [a] \<and> al_rule_id a = [] \<and> length (al_id a) = n + 3"
    using fired assms(2) by (simp add: fired_def saved_alert_def rule)
qed

lemma alerts_spaced_witness:
  "\<exists>s a b. (metrics_step example_metric_env)\<^sup>*\<^sup>* (new_metrics_service example_measured) s \<and>
     mt_alerts (mv_tables s) = [a, b] \<and> 999000 < al_fired_at b - al_fired_at a"
proof -
  let ?env = example_metric_env
  define s1 where "s1 = check_rule ?env [] example_watched"
  define s2 where "s2 = check_rule ?env [] s1"
  have r0: "mv_rules example_watched = [([], example_rule_at 0)]"
    by (simp add: example_watched_simps example_rule_at_def example_rule_def)
  have t0: "rows_between ''m'' (int 1 * 1000000 - 1000000) (int 1 * 1000000) (mv_tables example_watched) = [hd (mt_metrics example_measured)]"
    "mt_alerts (mv_tables example_watched) = []" "mv_tick example_watched = 1"
    by (simp_all add: rows_between_def example_watched_simps example_measured_def)
  have v: "mr_value (hd (mt_metrics example_measured)) = FFin 9" "mr_value (mt_metrics example_measured ! 1) = FFin 7"
    by (simp_all add: example_measured_def)
  note first = example_check [OF r0 t0(3) [symmetric] t0(1) v(1) _ _ _ s1_def]
  have m1: "mt_metrics (mv_tables s1) = mt_metrics (mv_tables example_watched)" using first(2) t0 by (simp add: sub_time_def)
  obtain a where a: "mt_alerts (mv_tables s1) = [a]" "al_rule_id a = []" "length (al_id a) = 4"
    using first(1) t0 by (auto simp: sub_time_def)
  have r1: "mv_rules s1 = [([], example_rule_at 10000000)]" "mv_tick s1 = 11" using first(3,4) t0 by (simp_all add: sub_time_def)
  have t1: "rows_between ''m'' (int 11 * 1000000 - 1000000) (int 11 * 1000000) (mv_tables s1) = [mt_metrics example_measured ! 1]"
    using m1 by (simp add: rows_between_def example_watched_simps) (simp add: example_measured_def)
  have "list_all (\<lambda>a. length (al_id a) < 11 + 3) (mt_alerts (mv_tables s1))" using a by simp
  note second = example_check [OF r1(1) r1(2) [symmetric] t1 v(2) _ _ this s2_def]
  obtain b where b: "mt_alerts (mv_tables s2) = [a, b]" "al_rule_id b = []"
    using second(1) a by (auto simp: sub_time_def)
  have r2: "map_of (mv_rules s2) [] = Some (example_rule_at 20000000)" using second(4) by (simp add: sub_time_def)
  have enabled: "enabled_rule example_watched []" "enabled_rule s1 []"
    using r0 r1 by (simp_all add: enabled_rule_def example_rule_at_def example_rule_def)
  have "metrics_step ?env (new_metrics_service example_measured) example_watched"
    unfolding example_watched_def by (rule step_add) (simp add: valid_duration_def example_rule_def)
  moreover have "metrics_step ?env example_watched s1" "metrics_step ?env s1 s2"
    unfolding s2_def using step_check [OF enabled(1), of ?env] step_check [OF enabled(2), of ?env]
    by (simp_all only: s1_def [symmetric])
  ultimately have run: "(metrics_step ?env)\<^sup>*\<^sup>* (new_metrics_service example_measured) s2"
    by (meson converse_rtranclp_into_rtranclp rtranclp.rtrancl_refl)
  have "list_all (foreign ?env) (mt_alerts example_measured)" by (simp add: example_measured_def)
  from alerts_spaced [OF run example_orderly this r2] a b
  have "999000 < al_fired_at b - al_fired_at a" by (simp add: example_rule_at_def example_rule_def)
  with run b show ?thesis by blast
qed

section \<open>Cut reads and lost replies\<close>

text \<open>C38: a broken connection ends the loop over the rows without an error, and rows come oldest first: a read cut
  after \<open>k\<close> rows is evaluated as if the \<open>k\<close>-th measurement were the latest.  The rule fires for a
  value that has long been superseded (and is then silent for its duration), or does not fire at all.\<close>

theorem cut_read_decides:
  assumes "n = mv_tick s" "me_fault env (n + 1) = No_Fault" "me_others env (n + 1) = ([], [])" "me_rows env (n + 1) = Some k"
    and "ms = rows_between (ar_metric_name r) (me_stored env (me_now env n + neg_duration (ar_duration r)))
      (me_stored env (me_now env n)) (mv_tables s)"
    and "k \<le> length ms" "ar_duration r < sub_time (me_now env (n + 2)) (ar_last_fired r)"
  shows "if 0 < k \<and> condition_holds (ar_condition r) (mr_value (ms ! (k - 1))) (ar_threshold r)
    then evaluate_alert_rule env r s = fire_alert env r (point_of (ms ! (k - 1))) ((tick ^^ 3) s)
    else fst (evaluate_alert_rule env r s) = None \<and> unchanged s (snd (evaluate_alert_rule env r s))"
proof -
  have get: "repo_get_metrics env (ar_metric_name r) (me_now env n + neg_duration (ar_duration r)) (me_now env n) (tick s) =
    (Inr (take k (map point_of ms)), tick (tick s))"
    using assms(1-5) by (simp add: repo_get_metrics_def query_rows_def run_stmt_def rows_read_def Let_def tick_def)
  have latest: "0 < k \<Longrightarrow> take k (map point_of ms) \<noteq> [] \<and> last (take k (map point_of ms)) = point_of (ms ! (k - 1))"
  proof -
    assume k: "0 < k"
    with assms(6) have "take k (map point_of ms) \<noteq> []" by auto
    then have "last (take k (map point_of ms)) = take k (map point_of ms) ! (k - 1)"
      using assms(6) by (simp add: last_conv_nth min_absorb2)
    with k assms(6) show ?thesis by auto
  qed
  have val: "mp_value (point_of m) = mr_value m" for m by (simp add: point_of_def)
  have t3: "(tick ^^ 3) s = tick (tick (tick s))" by (simp add: eval_nat_numeral)
  show ?thesis
    using assms(1,7) get latest unfolding t3
    by (cases "k = 0") (auto simp: evaluate_alert_rule_def read_clock_def unchanged_def val)
qed

lemma cut_read_decides_witness:
  "\<exists>k s'. evaluate_alert_rule (example_metric_env\<lparr>me_rows := (\<lambda>_. Some k)\<rparr>) (example_rule\<lparr>ar_id := []\<rparr>) example_watched = (None, s') \<and>
     unchanged example_watched s'"
proof -
  let ?env = "example_metric_env\<lparr>me_rows := (\<lambda>_. Some 0)\<rparr>" and ?r = "example_rule\<lparr>ar_id := []\<rparr>"
  have env: "me_fault ?env j = No_Fault" "me_others ?env j = ([], [])" "me_rows ?env j = Some 0" "me_now ?env j = int j * 1000000" for j
    by (simp_all add: example_metric_env_def)
  have due: "ar_duration ?r < sub_time (me_now ?env (1 + 2)) (ar_last_fired ?r)"
    by (simp add: env sub_time_def example_rule_def)
  from cut_read_decides [OF example_watched_simps(1) [symmetric] env(1,2,3) refl _ due]
  have "fst (evaluate_alert_rule ?env ?r example_watched) = None \<and>
      unchanged example_watched (snd (evaluate_alert_rule ?env ?r example_watched))" by simp
  then show ?thesis by (metis prod.collapse)
qed

text \<open>An alert whose reply is lost is in the table, but the rule does not know it and nobody hears of it.\<close>

lemma lost_reply_unmarked:
  assumes "me_fault env (mv_tick s + 2) = Lost_Reply x" "me_others env (mv_tick s + 2) = ([], [])"
    and "alert_violation (mv_tables s) (saved_alert env r m (mv_tick s)) = None"
  shows "fst (fire_alert env r (point_of m) s) = Some (''failed to save alert: '' @ x)"
    and "mt_alerts (mv_tables (snd (fire_alert env r (point_of m) s))) = mt_alerts (mv_tables s) @ [saved_alert env r m (mv_tick s)]"
    and "mv_rules (snd (fire_alert env r (point_of m) s)) = mv_rules s"
    and "mv_kafka (snd (fire_alert env r (point_of m) s)) = mv_kafka s"
  using assms
  by (simp_all add: fire_alert_def new_uuid_def read_clock_def save_alert_def run_stmt_def insert_alert_def saved_alert_def
      Let_def eval_nat_numeral)

text \<open>The name of a rule is not checked when it is added; one too long for the table never has an alert.\<close>

lemma long_name_never_stored:
  assumes "calm_metrics env" "255 < length (ar_name r)"
  shows "unchanged s (snd (evaluate_alert_rule env r s))"
proof -
  define ms where "ms = rows_between (ar_metric_name r) (me_stored env (me_now env (mv_tick s) + neg_duration (ar_duration r)))
      (me_stored env (me_now env (mv_tick s))) (mv_tables s)"
  have refused: "alert_violation tb (saved_alert env r m k) = Some ''rule_name''" for tb m k
    using assms(2) by (simp add: alert_violation_def saved_alert_def alert_row_def new_alert_def)
  have "unchanged (tick (tick (tick s))) (snd (fire_alert env r (point_of m) (tick (tick (tick s)))))" for m
    using fire_alert_calm [OF assms(1), where s = "tick (tick (tick s))" and r = r and m = m] by (simp add: refused)
  moreover have "unchanged (tick (tick (tick s))) s' \<Longrightarrow> unchanged s s'" for s' by (simp add: unchanged_def)
  ultimately show ?thesis using evaluate_calm [OF assms(1) refl ms_def refl] by metis
qed

section \<open>Severity\<close>

text \<open>The deviation is relative to the threshold: at a threshold of 0 every other value is critical.\<close>

lemma severity_zero:
  assumes "v \<noteq> 0" "round64 v = FFin v"
  shows "determine_severity (FFin 0) (FFin v) = ''critical''"
proof -
  show ?thesis using assms by (auto simp: determine_severity_def fsub_def f0_def Let_def round64_small)
qed

lemma not_flt_nan [simp]: "\<not> flt a FNaN"
  by (cases a) auto

lemma severity_zero_at_zero: "determine_severity (FFin 0) (FFin 0) = ''info''"
  by (simp add: determine_severity_def fsub_def f0_def Let_def)

section \<open>What is recorded\<close>

text \<open>A metric makes a row; its event never gets to Kafka, because of its type.\<close>

lemma metrics_event_refused: "snd (publish format_time write_err (metrics_event i agg t name v labels)) = []"
  by (simp add: publish_def metrics_event_def)

lemma publish_metric_event_calm:
  assumes "calm_metrics env" "length name \<le> 255"
  shows "publish_metric_event env name v labels s = s\<lparr>mv_tick := mv_tick s + 6, mv_tables := (mv_tables s)
    \<lparr>mt_metrics := mt_metrics (mv_tables s) @ [\<lparr>mr_metric_name = name, mr_value = v, mr_labels = JObj (string_labels labels),
       mr_timestamp = me_stored env (me_now env (mv_tick s + 4))\<rparr>]\<rparr>\<rparr>"
  using assms(2)
  by (simp add: publish_metric_event_def new_uuid_def read_clock_def save_metric_def run_stmt_calm [OF assms(1)]
      insert_metric_def metric_violation_def)
    (simp add: emit_def tick_def metrics_event_refused eval_nat_numeral)

text \<open>The messages of \<open>published_message\<close> that are of no registered type leave the service as it is, alerts included.\<close>

lemma unheard_message_ignored:
  assumes "be_type b \<in> {WalletValidated, WalletInsufficient, GatewayRequestSent, GatewayError, AlertTriggered}"
  shows "receive_message env (kafka_message_of format_time b data) s = s"
  using message_ignored [OF assms] by (simp add: receive_message_def)

end
