(* ===== verification/Http_Handlers.thy ===== *)
theory Http_Handlers
  imports Saga_Orchestrator Payment_Service Alert_Rules
begin

text \<open>
  The HTTP interface, \<open>pkg/server/handlers.go\<close>, and the routes \<open>main\<close> gives it.

  A handler takes what gin has taken from the request (the path and query parameters, the body as a
  JSON tree or the error of reading it) and the state of its service, and returns the status code and
  the body of the reply.  The body is the value that is encoded, not its text.  The parsers of uuids and
  of RFC 3339 times and the printing of the latter are arguments, and so is the text of the
  validator's error.
\<close>

section \<open>Replies\<close>

datatype reply_body =
    Error_Body string
  | Payment_Body payment
  | Wallet_Body wallet
  | History_Body "transaction list" nat
  | Points_Body string time time "metric_point list" nat
  | Alerts_Body "metadata alert list" nat
  | Rule_Body alert_rule
  | Saga_Body saga
  | Fields_Body "(string \<times> string) list"
  | Checks_Body string "(string \<times> string) list"
  | Text_Body string

type_synonym reply = "int \<times> reply_body"

definition bad_request :: "string \<Rightarrow> reply" where "bad_request x = (400, Error_Body x)"
definition not_found :: "string \<Rightarrow> reply" where "not_found x = (404, Error_Body x)"
definition internal_error :: "string \<Rightarrow> reply" where "internal_error x = (500, Error_Body x)"

lemmas reply_defs = bad_request_def not_found_def internal_error_def

record http_env =
  he_parse_uuid :: "string \<Rightarrow> uuid go_result"
  he_parse_time :: "string \<Rightarrow> time go_result"
  he_format_time :: "time \<Rightarrow> string"
  he_required :: "string list \<Rightarrow> go_error"

section \<open>Fixed replies\<close>

definition health_handler :: "http_env \<Rightarrow> time \<Rightarrow> reply" where
  "health_handler he now = (200, Fields_Body [(''status'', ''healthy''), (''timestamp'', he_format_time he now),
     (''service'', ''payment-system''), (''version'', ''1.0.0'')])"

definition readiness_handler :: reply where
  "readiness_handler = (200, Checks_Body ''ready'' [(''database'', ''ok''), (''redis'', ''ok''), (''kafka'', ''ok'')])"

definition liveness_handler :: "http_env \<Rightarrow> time \<Rightarrow> reply" where
  "liveness_handler he now = (200, Fields_Body [(''status'', ''alive''), (''timestamp'', he_format_time he now),
     (''service'', ''payment-system'')])"

definition metrics_page :: "string list" where
  "metrics_page =
    [''# HELP payment_system_info Information about the payment system'',
     ''# TYPE payment_system_info gauge'',
     ''payment_system_info{version=\"1.0.0\",service=\"payment-system\"} 1'', '''',
     ''# HELP payment_requests_total Total number of payment requests'',
     ''# TYPE payment_requests_total counter'', ''payment_requests_total 0'', '''',
     ''# HELP payment_requests_success_total Total number of successful payments'',
     ''# TYPE payment_requests_success_total counter'', ''payment_requests_success_total 0'', '''',
     ''# HELP payment_requests_failed_total Total number of failed payments'',
     ''# TYPE payment_requests_failed_total counter'', ''payment_requests_failed_total 0'', '''',
     ''# HELP wallet_balance_usd Current wallet balance in USD'',
     ''# TYPE wallet_balance_usd gauge'', ''wallet_balance_usd 100000'', '''',
     ''# HELP wallet_balance_eur Current wallet balance in EUR'',
     ''# TYPE wallet_balance_eur gauge'', ''wallet_balance_eur 200000'']"

definition metrics_page_handler :: reply where
  "metrics_page_handler = (200, Text_Body (concat (map (\<lambda>l. l @ [CHR 0x0A]) metrics_page)))"

section \<open>Payments\<close>

fun d_uuid :: "http_env \<Rightarrow> json \<Rightarrow> uuid go_result" where
  "d_uuid he (JStr s) = he_parse_uuid he s"
| "d_uuid he JNull = Inr nil_uuid"
| "d_uuid he _ = Inl type_mismatch"

definition decode_payment_request :: "http_env \<Rightarrow> json \<Rightarrow> payment_request go_result" where
  "decode_payment_request he j =
     rbind (d_struct j) (\<lambda>kvs. rbind (d_uuid he (j_field kvs ''user_id'')) (\<lambda>u.
     rbind (d_i64 (j_field kvs ''amount'')) (\<lambda>a. rbind (d_str (j_field kvs ''currency'')) (\<lambda>c.
     rbind (d_str (j_field kvs ''service_id'')) (\<lambda>sv. rbind (d_str (j_field kvs ''description'')) (\<lambda>d.
       Inr \<lparr>rq_user_id = u, rq_amount = a, rq_currency = c, rq_service_id = sv, rq_description = d\<rparr>))))))"

definition supported_currencies :: "string list" where
  "supported_currencies = [''USD'', ''EUR'', ''GBP'', ''JPY'', ''CAD'', ''AUD'']"

text \<open>The checks before the service is called, in their order.\<close>

definition request_error :: "payment_request \<Rightarrow> string option" where
  "request_error req =
     (if i64_le (rq_amount req) 0 then Some ''amount must be positive''
      else if rq_currency req = '''' then Some ''currency is required''
      else if rq_currency req \<notin> set supported_currencies then Some ''currency not supported''
      else if rq_user_id req = nil_uuid then Some ''user_id is required''
      else None)"

text \<open>The reply, the payment whose goroutine has been started, if any, and the state.\<close>

definition create_payment_handler ::
  "http_env \<Rightarrow> draws \<Rightarrow> 's payment_deps \<Rightarrow> json go_result \<Rightarrow> 's \<Rightarrow> (reply \<times> payment option) \<times> 's" where
  "create_payment_handler he dr deps body s =
     (case rbind body (decode_payment_request he) of
        Inl x \<Rightarrow> ((bad_request x, None), s)
      | Inr req \<Rightarrow>
          (case request_error req of
             Some x \<Rightarrow> ((bad_request x, None), s)
           | None \<Rightarrow>
               (case process_payment dr deps req s of
                  ((p, Some x, started), s) \<Rightarrow> ((internal_error x, if started then p else None), s)
                | ((p, None, started), s) \<Rightarrow> (((201, Payment_Body (the p)), if started then p else None), s))))"

definition get_payment_handler ::
  "http_env \<Rightarrow> 's payment_deps \<Rightarrow> string \<Rightarrow> 's \<Rightarrow> reply \<times> 's" where
  "get_payment_handler he deps idstr s =
     (case he_parse_uuid he idstr of
        Inl _ \<Rightarrow> (bad_request ''invalid payment ID'', s)
      | Inr i \<Rightarrow> (case get_payment deps i s of
          (Inl _, s) \<Rightarrow> (not_found ''payment not found'', s)
        | (Inr p, s) \<Rightarrow> ((200, Payment_Body p), s)))"

section \<open>Wallets\<close>

definition get_wallet_handler ::
  "http_env \<Rightarrow> 's wallet_repo \<Rightarrow> string \<Rightarrow> string \<Rightarrow> 's \<Rightarrow> reply \<times> 's" where
  "get_wallet_handler he repo userstr currency s =
     (case he_parse_uuid he userstr of
        Inl _ \<Rightarrow> (bad_request ''invalid user ID'', s)
      | Inr u \<Rightarrow>
          if currency = '''' then (bad_request ''currency is required'', s)
          else (case wallet_get repo u currency s of
                  (Inl _, s) \<Rightarrow> (not_found ''wallet not found'', s)
                | (Inr w, s) \<Rightarrow> ((200, Wallet_Body w), s)))"

definition get_transaction_history_handler ::
  "http_env \<Rightarrow> 's wallet_repo \<Rightarrow> string \<Rightarrow> string \<Rightarrow> 's \<Rightarrow> reply \<times> 's" where
  "get_transaction_history_handler he repo userstr currency s =
     (case he_parse_uuid he userstr of
        Inl _ \<Rightarrow> (bad_request ''invalid user ID'', s)
      | Inr u \<Rightarrow>
          if currency = '''' then (bad_request ''currency is required'', s)
          else (case wallet_get_history repo u currency s of
                  (Inl x, s) \<Rightarrow> (internal_error x, s)
                | (Inr ts, s) \<Rightarrow> ((200, History_Body ts (length ts)), s)))"

section \<open>Metrics and alerts\<close>

text \<open>The query parameters, if given; both defaults are computed in any case, each from a reading of the clock.\<close>

definition get_metrics_handler ::
  "http_env \<Rightarrow> metric_env \<Rightarrow> string option \<Rightarrow> string option \<Rightarrow> string option \<Rightarrow> metrics_state \<Rightarrow> reply \<times> metrics_state" where
  "get_metrics_handler he env metric_arg from_arg to_arg s =
     (if metric_arg = None \<or> metric_arg = Some '''' then (bad_request ''metric parameter is required'', s)
      else
        (case read_clock env s of (now1, s) \<Rightarrow>
         case read_clock env s of (now2, s) \<Rightarrow>
           (let begins = (case from_arg of None \<Rightarrow> he_format_time he (now1 - 24 * 3600 * 1000000000) | Some x \<Rightarrow> x);
                ends = (case to_arg of None \<Rightarrow> he_format_time he now2 | Some x \<Rightarrow> x)
            in case he_parse_time he begins of
                 Inl _ \<Rightarrow> (bad_request ''invalid from timestamp'', s)
               | Inr t \<Rightarrow>
                   (case he_parse_time he ends of
                      Inl _ \<Rightarrow> (bad_request ''invalid to timestamp'', s)
                    | Inr u \<Rightarrow>
                        (case get_metrics env (the metric_arg) t u s of
                           (Inl x, s) \<Rightarrow> (internal_error x, s)
                         | (Inr ps, s) \<Rightarrow> ((200, Points_Body (the metric_arg) t u ps (length ps)), s))))))"

definition get_alerts_handler :: "metric_env \<Rightarrow> metrics_state \<Rightarrow> reply \<times> metrics_state" where
  "get_alerts_handler env s =
     (case get_active_alerts env s of
        (Inl x, s) \<Rightarrow> (internal_error x, s)
      | (Inr as, s) \<Rightarrow> ((200, Alerts_Body as (length as)), s))"

record create_alert_rule_request =
  cq_name :: string
  cq_metric_name :: string
  cq_condition :: string
  cq_threshold :: float64
  cq_duration :: string
  cq_description :: string

definition decode_rule_request :: "json \<Rightarrow> create_alert_rule_request go_result" where
  "decode_rule_request j =
     rbind (d_struct j) (\<lambda>kvs. rbind (d_str (j_field kvs ''name'')) (\<lambda>n.
     rbind (d_str (j_field kvs ''metric_name'')) (\<lambda>m. rbind (d_str (j_field kvs ''condition'')) (\<lambda>c.
     rbind (d_float (j_field kvs ''threshold'')) (\<lambda>th. rbind (d_str (j_field kvs ''duration'')) (\<lambda>d.
     rbind (d_str (j_field kvs ''description'')) (\<lambda>x.
       Inr \<lparr>cq_name = n, cq_metric_name = m, cq_condition = c, cq_threshold = th, cq_duration = d,
            cq_description = x\<rparr>)))))))"

text \<open>\<open>binding:"required"\<close> asks for a value that is not the zero value of its type.\<close>

definition missing_fields :: "create_alert_rule_request \<Rightarrow> string list" where
  "missing_fields q =
     (if cq_name q = '''' then [''Name''] else []) @ (if cq_metric_name q = '''' then [''MetricName''] else []) @
     (if cq_condition q = '''' then [''Condition''] else []) @ (if cq_threshold q = f0 then [''Threshold''] else []) @
     (if cq_duration q = '''' then [''Duration''] else [])"

definition valid_conditions :: "string list" where
  "valid_conditions = [''gt'', ''lt'', ''eq'', ''gte'', ''lte'']"

definition rule_of_request :: "create_alert_rule_request \<Rightarrow> duration \<Rightarrow> alert_rule" where
  "rule_of_request q d =
     \<lparr>ar_id = nil_uuid, ar_name = cq_name q, ar_metric_name = cq_metric_name q, ar_condition = cq_condition q,
      ar_threshold = cq_threshold q, ar_duration = d, ar_enabled = True, ar_last_fired = 0,
      ar_description = cq_description q\<rparr>"

definition create_alert_rule_handler ::
  "http_env \<Rightarrow> metric_env \<Rightarrow> json go_result \<Rightarrow> metrics_state \<Rightarrow> reply \<times> metrics_state" where
  "create_alert_rule_handler he env body s =
     (case rbind body decode_rule_request of
        Inl x \<Rightarrow> (bad_request x, s)
      | Inr q \<Rightarrow>
          if missing_fields q \<noteq> [] then (bad_request (he_required he (missing_fields q)), s)
          else if cq_condition q \<notin> set valid_conditions then (bad_request ''invalid condition'', s)
          else (case parse_duration (cq_duration q) of
                  None \<Rightarrow> (bad_request ''invalid duration format'', s)
                | Some d \<Rightarrow>
                    (case add_alert_rule env (rule_of_request q d) s of (r, s) \<Rightarrow> ((201, Rule_Body r), s))))"

section \<open>Sagas\<close>

definition get_saga_handler :: "http_env \<Rightarrow> 's saga_repo \<Rightarrow> string \<Rightarrow> 's \<Rightarrow> reply \<times> 's" where
  "get_saga_handler he repo idstr s =
     (case he_parse_uuid he idstr of
        Inl _ \<Rightarrow> (bad_request ''invalid saga ID'', s)
      | Inr i \<Rightarrow> (case sp_get repo i s of
          (Inl _, s) \<Rightarrow> (not_found ''saga not found'', s)
        | (Inr sg, s) \<Rightarrow> ((200, Saga_Body sg), s)))"

section \<open>Routes\<close>

datatype route_handler =
    Health_Handler | Readiness_Handler | Liveness_Handler | Metrics_Page
  | Checker_Health | Checker_Readiness | Checker_Liveness
  | Create_Payment | Get_Payment | Get_Wallet | Get_Transaction_History
  | Get_Metrics | Get_Alerts | Create_Alert_Rule | Get_Saga

definition main_routes :: "((string \<times> string) \<times> route_handler) list" where
  "main_routes =
    [((''GET'', ''/health''), Health_Handler), ((''GET'', ''/ready''), Readiness_Handler),
     ((''GET'', ''/live''), Liveness_Handler), ((''GET'', ''/metrics''), Metrics_Page),
     ((''POST'', ''/api/v1/payments/''), Create_Payment), ((''GET'', ''/api/v1/payments/:id''), Get_Payment),
     ((''GET'', ''/api/v1/wallets/:user_id/:currency''), Get_Wallet),
     ((''GET'', ''/api/v1/wallets/:user_id/:currency/transactions''), Get_Transaction_History),
     ((''GET'', ''/api/v1/metrics/''), Get_Metrics), ((''GET'', ''/api/v1/metrics/alerts''), Get_Alerts),
     ((''POST'', ''/api/v1/metrics/alerts/rules''), Create_Alert_Rule), ((''GET'', ''/api/v1/sagas/:id''), Get_Saga)]"

definition package_routes :: "((string \<times> string) \<times> route_handler) list" where
  "package_routes =
    [((''GET'', ''/health''), Checker_Health), ((''GET'', ''/ready''), Checker_Readiness),
     ((''GET'', ''/live''), Checker_Liveness), ((''POST'', ''/api/v1/payments''), Create_Payment),
     ((''GET'', ''/api/v1/payments/:id''), Get_Payment),
     ((''GET'', ''/api/v1/wallets/:user_id/:currency''), Get_Wallet),
     ((''GET'', ''/api/v1/metrics''), Get_Metrics), ((''GET'', ''/api/v1/metrics/alerts''), Get_Alerts)]"

lemma routes_distinct: "distinct (map fst main_routes)" "distinct (map fst package_routes)"
  by (simp_all add: main_routes_def package_routes_def)

text \<open>\<open>NewDependencies\<close>: the services of \<open>main\<close>, but with a gateway that accepts every payment.\<close>

definition mock_process_payment :: "payment \<Rightarrow> string go_result" where
  "mock_process_payment p = Inr (''mock-txn-'' @ py_id p)"

definition new_dependencies :: "server_env \<Rightarrow> server payment_deps" where
  "new_dependencies env = (server_deps env)\<lparr>pd_gateway := (\<lambda>p s. (mock_process_payment p, s))\<rparr>"

section \<open>A payment over HTTP\<close>

text \<open>A request, and then the goroutine it has started up to its end.\<close>

definition serve_payment ::
  "http_env \<Rightarrow> draws \<Rightarrow> server_env \<Rightarrow> json go_result \<Rightarrow> server \<Rightarrow> reply \<times> server" where
  "serve_payment he dr env body s =
     (case create_payment_handler he dr (server_deps env) body s of
        ((reply, started), s) \<Rightarrow>
          (reply, case started of None \<Rightarrow> s | Some p \<Rightarrow> finish_payment dr (server_deps env) p s))"

lemma started_payment:
  "process_payment dr deps req s = ((p, err, True), s') \<Longrightarrow> p \<noteq> None \<and> err = None"
  by (auto simp: process_payment_def Let_def split: prod.splits option.splits)

lemma serve_accepted:
  assumes "rbind body (decode_payment_request he) = Inr req" "request_error req = None" "run_payment dr env req s = (err, s')"
  shows "\<exists>b. serve_payment he dr env body s = ((if err = None then 201 else 500, b), s')"
proof -
  obtain p x started s1 where p: "process_payment dr (server_deps env) req s = ((p, x, started), s1)"
    by (metis prod.collapse)
  have "started \<Longrightarrow> p \<noteq> None \<and> x = None" using p started_payment [of dr "server_deps env" req s p x s1] by auto
  then show ?thesis
    using assms p by (cases x) (auto simp: serve_payment_def create_payment_handler_def run_payment_def internal_error_def)
qed

lemma serve_refused:
  assumes "rbind body (decode_payment_request he) = Inr req" "request_error req = Some x"
  shows "serve_payment he dr env body s = (bad_request x, s)"
  using assms by (simp add: serve_payment_def create_payment_handler_def)

lemma accepted_fields:
  assumes "request_error req = None"
  shows "0 < sint (rq_amount req)" "length (rq_currency req) = 3" "rq_user_id req \<noteq> nil_uuid"
  using assms by (auto simp: request_error_def supported_currencies_def i64_le_def split: if_splits)

text \<open>Of the constraints of the table only the length of the service id is left unchecked.\<close>

lemma accepted_violation:
  assumes "request_error req = None"
  shows "payment_violation (new_payment dr req) = (if 255 < length (rq_service_id req) then Some ''service_id'' else None)"
  using accepted_fields [OF assms] by (simp add: payment_violation_def new_payment_def statuses i64_le_def)

lemma run_violation:
  assumes "undisturbed (sn_db env)" "payment_violation (new_payment dr req) = Some c"
  shows "\<exists>x s'. run_payment dr env req s = (Some x, s') \<and> db_tables (sr_db s') = db_tables (sr_db s)"
  using assms(2)
  by (simp add: run_payment_def process_payment_def Let_def on_db_def pg_save_payment_def exec_only_def
      exec_undisturbed [OF assms(1)] save_payment_stmt_def)

text \<open>C1: a payment over HTTP, from the body of the request to the end of the goroutine, on an undisturbed database.
  A request that fails a check is answered 400 and touches nothing; one whose service id is too long for its
  column is answered 500 and leaves no row.  Of the others: the wallet does not have the amount, then 500,
  the payment failed and no money moved; the gateway accepts, then 201, the payment completed, exactly the
  amount taken once, one debit; the gateway fails or declines, then also 201, but the payment failed, the
  balance as before, one debit and one credit.\<close>

theorem http_payment_settles:
  assumes "undisturbed (sn_db env)" "account (db_tables (sr_db s)) (rq_user_id req) (rq_currency req) w"
    and "dr_uuid dr 1 \<notin> py_id ` set (tb_payments (db_tables (sr_db s)))"
    and "dr_uuid (sn_deduct env) 0 \<notin> tx_id ` set (tb_transactions (db_tables (sr_db s)))"
    and "dr_uuid (sn_refund env) 0 \<notin> tx_id ` set (tb_transactions (db_tables (sr_db s)))"
    and "dr_uuid (sn_refund env) 0 \<noteq> dr_uuid (sn_deduct env) 0" "wl_version w + 2 < 2 ^ 31"
    and "rbind body (decode_payment_request he) = Inr req" "serve_payment he dr env body s = ((code, b), s')"
    and "tb = db_tables (sr_db s)" "tb' = db_tables (sr_db s')"
    and "gateway_process_payment (sn_gateway env) (sn_provider env) (processing_payment dr req) (sr_breaker s) =
      (answer, evs, cb)"
  shows "if request_error req \<noteq> None then code = 400 \<and> s' = s
    else if 255 < length (rq_service_id req) then code = 500 \<and> tb' = tb
    else if sint (wl_balance w) < sint (rq_amount req)
    then code = 500 \<and> settled tb' (dr_uuid dr 1) ''failed'' \<and>
      stored tb' (wl_id w) = Some (wl_balance w, wl_version w) \<and> tb_transactions tb' = tb_transactions tb
    else code = 201 \<and> (\<exists>debit. tx_type debit = ''debit'' \<and> tx_amount debit = rq_amount req \<and>
      (case answer of
         Inr txn \<Rightarrow> settled tb' (dr_uuid dr 1) ''completed'' \<and>
           stored tb' (wl_id w) = Some (wl_balance w - rq_amount req, wl_version w + 1) \<and>
           tb_transactions tb' = tb_transactions tb @ [debit]
       | Inl x \<Rightarrow> settled tb' (dr_uuid dr 1) ''failed'' \<and>
           stored tb' (wl_id w) = Some (wl_balance w, wl_version w + 2) \<and>
           (\<exists>credit. tx_type credit = ''credit'' \<and> tx_amount credit = rq_amount req \<and>
              tb_transactions tb' = tb_transactions tb @ [debit, credit])))"
proof (cases "request_error req")
  case (Some x)
  then show ?thesis using serve_refused [OF assms(8)] assms(9) by (auto simp: bad_request_def)
next
  case None
  obtain err s2 where run: "run_payment dr env req s = (err, s2)" by fastforce
  from serve_accepted [OF assms(8) None run] assms(9)
  have answered: "code = (if err = None then 201 else 500)" "s' = s2" by auto
  show ?thesis
  proof (cases "255 < length (rq_service_id req)")
    case True
    then show ?thesis
      using run_violation [OF assms(1), of dr req "''service_id''" s] accepted_violation [OF None] None run answered assms(10,11)
      by auto
  next
    case False
    then have ok: "payment_violation (new_payment dr req) = None" using accepted_violation [OF None] by simp
    note short = False
    note settles = payment_settles [OF assms(1,2) ok assms(3-7) run assms(10) assms(11) [unfolded answered(2)] assms(12)]
    show ?thesis
    proof (cases "sint (wl_balance w) < sint (rq_amount req)")
      case True
      then show ?thesis using settles short None answered(1) by simp
    next
      case False
      then show ?thesis using settles short None answered(1) by simp
    qed
  qed
qed

definition example_http :: http_env where
  "example_http = \<lparr>he_parse_uuid = Inr, he_parse_time = (\<lambda>_. Inr 0), he_format_time = (\<lambda>_. ''''), he_required = concat\<rparr>"

definition example_body :: json where
  "example_body = JObj [(''user_id'', JStr ''u''), (''amount'', JInt 30), (''currency'', JStr ''USD''), (''service_id'', JStr ''s'')]"

lemma http_payment_settles_witness:
  "\<exists>b s'. serve_payment example_http (tagged_draws ''n'') example_server_env (Inr example_body) example_server = ((201, b), s') \<and>
     settled (db_tables (sr_db s')) ''n'' ''completed'' \<and> stored (db_tables (sr_db s')) ''w'' = Some (70, 2)"
proof -
  obtain code b s' where run: "serve_payment example_http (tagged_draws ''n'') example_server_env (Inr example_body) example_server = ((code, b), s')"
    by (metis prod.collapse)
  have decoded: "rbind (Inr example_body) (decode_payment_request example_http) = Inr example_request"
    by (simp add: decode_payment_request_def example_body_def example_http_def d_i64_def example_request_def)
  have fine: "request_error example_request = None"
    by (simp add: request_error_def example_request_def supported_currencies_def i64_le_def nil_uuid_def)
  obtain txn evs cb where gateway: "gateway_process_payment (sn_gateway example_server_env) (sn_provider example_server_env)
      (processing_payment (tagged_draws ''n'') example_request) (sr_breaker example_server) = (Inr txn, evs, cb)"
    using example_gateway by blast
  from http_payment_settles [OF example_payment _ decoded run refl refl gateway] run fine
  show ?thesis by (auto simp: example_request_def tagged_draws_def example_funds_simps)
qed

text \<open>A database that cannot be reached looks like a payment, a wallet or a saga that does not exist.\<close>

lemma outage_is_not_found:
  assumes "he_parse_uuid he i = Inr u"
  shows "pd_get deps u s = (Inl x, s') \<Longrightarrow> fst (get_payment_handler he deps i s) = not_found ''payment not found''"
    and "wr_get repo u currency d = (Inl x, d') \<Longrightarrow> currency \<noteq> '''' \<Longrightarrow>
      fst (get_wallet_handler he repo i currency d) = not_found ''wallet not found''"
    and "sp_get sagas u w = (Inl x, w') \<Longrightarrow> fst (get_saga_handler he sagas i w) = not_found ''saga not found''"
  using assms by (simp_all add: get_payment_handler_def get_payment_def get_wallet_handler_def wallet_get_def get_saga_handler_def)

text \<open>With the gateway of \<open>NewDependencies\<close> the goroutine never gives money back.\<close>

lemma mock_gateway_completes:
  "finish_payment dr (new_dependencies env) p s =
     (let s = snd (pd_update_status (server_deps env) (py_id p) StatusCompleted s) in
      s\<lparr>sr_published := sr_published s @ [Payment_Completed_Event
        \<lparr>be_id = dr_uuid dr 3, be_type = PaymentCompleted, be_aggregate_id = py_id p, be_version = 1,
         be_timestamp = dr_now dr 3, be_correlation_id = py_correlation_id p, be_metadata = []\<rparr>
        \<lparr>pc_user_id = py_user_id p, pc_amount = py_amount p, pc_currency = py_currency p,
         pc_gateway_txn_id = ''mock-txn-'' @ py_id p, pc_processed_at = 0\<rparr>]\<rparr>)"
  by (simp add: finish_payment_def new_dependencies_def mock_process_payment_def server_deps_def Let_def)

section \<open>An alert rule over HTTP\<close>

lemma accepted_rule:
  assumes "create_alert_rule_handler he env body s = (reply, s')" "fst reply = 201"
  obtains q d where "rbind body decode_rule_request = Inr q" "missing_fields q = []" "cq_condition q \<in> set valid_conditions"
    "parse_duration (cq_duration q) = Some d" "s' = snd (add_alert_rule env (rule_of_request q d) s)"
proof (cases "rbind body decode_rule_request")
  case (Inl x)
  then show ?thesis using assms by (auto simp: create_alert_rule_handler_def bad_request_def)
next
  case (Inr q)
  then show ?thesis
    using assms that [OF Inr]
    by (auto simp: create_alert_rule_handler_def bad_request_def split: if_splits option.splits prod.splits)
qed

lemma refused_rule:
  assumes "create_alert_rule_handler he env body s = (reply, s')" "fst reply \<noteq> 201"
  shows "fst reply = 400 \<and> s' = s"
  using assms by (auto simp: create_alert_rule_handler_def bad_request_def split: sum.splits if_splits option.splits prod.splits)

lemma insort_key_snoc: "f x \<le> f m \<Longrightarrow> insort_key f x (ys @ [m]) = insort_key f x ys @ [m]"
  by (induction ys) auto

lemma sort_key_snoc: "(\<And>x. x \<in> set xs \<Longrightarrow> f x \<le> f m) \<Longrightarrow> sort_key f (xs @ [m]) = sort_key f xs @ [m]"
  by (induction xs) (simp_all add: insort_key_snoc)

text \<open>The newest row of the table decides.\<close>

lemma newest_between:
  assumes "mt_metrics tb = ms @ [m]" "\<And>x. x \<in> set ms \<Longrightarrow> mr_timestamp x \<le> mr_timestamp m" "in_window name t u m"
  shows "rows_between name t u tb \<noteq> [] \<and> last (rows_between name t u tb) = m"
proof -
  have "rows_between name t u tb = sort_key mr_timestamp (filter (in_window name t u) ms @ [m])"
    using assms(1,3) unfolding rows_between_def by (simp add: in_window_def [abs_def])
  also have "\<dots> = sort_key mr_timestamp (filter (in_window name t u) ms) @ [m]"
    using assms(2) by (intro sort_key_snoc) simp
  finally show ?thesis by simp
qed


definition example_rule_body :: json where
  "example_rule_body = JObj [(''name'', JStr ''r''), (''metric_name'', JStr ''m''), (''condition'', JStr ''gt''),
     (''threshold'', JFloat (FFin 5)), (''duration'', JStr ''1ms'')]"

definition example_row :: metric_row where
  "example_row = \<lparr>mr_metric_name = ''m'', mr_value = FFin 9, mr_labels = JObj [], mr_timestamp = 1\<rparr>"

lemma example_duration: "parse_duration ''1ms'' = Some 1000000"
  by (simp add: parse_duration_def unsigned_part_def duration_sum.simps duration_term_def fraction_part_def with_unit_def
      is_digit_def digit_value_def is_unit_char_def unit_of_def micro_sign_def micro_letter_def scaled_def Let_def)


end
