(* ===== verification/Configuration.thy ===== *)
theory Configuration
  imports Metrics_Service
begin

text \<open>
  The settings of the server and what starts with them: \<open>internal/config/config.go\<close>, the logger
  (\<open>pkg/logger\<close>), the connections and transactions of \<open>pkg/database/database.go\<close>,
  \<open>pkg/redis\<close>, and the start of \<open>main\<close> as far as it can fail.

  The environment is the function \<open>os.Getenv\<close>, which gives the empty text for a variable that is
  not set.  What the drivers answer when a connection is opened or pinged is an argument.
\<close>

section \<open>Settings\<close>

record server_config =
  cs_port :: int
  cs_host :: string
  cs_read_timeout :: duration
  cs_write_timeout :: duration
  cs_idle_timeout :: duration

record database_config =
  cd_host :: string
  cd_port :: int
  cd_database :: string
  cd_username :: string
  cd_password :: string
  cd_ssl_mode :: string
  cd_max_open_conns :: int
  cd_max_idle_conns :: int
  cd_conn_max_lifetime :: duration

record redis_config =
  cr_host :: string
  cr_port :: int
  cr_password :: string
  cr_database :: int
  cr_pool_size :: int
  cr_dial_timeout :: duration
  cr_read_timeout :: duration
  cr_write_timeout :: duration

record kafka_config =
  ck_brokers :: "string list"
  ck_topic :: string
  ck_consumer_group :: string
  ck_batch_size :: int
  ck_batch_timeout :: duration

record gateway_config =
  cg_provider :: string
  cg_base_url :: string
  cg_api_key :: string
  cg_timeout :: duration
  cg_max_retries :: int
  cg_circuit_breaker_max_failures :: int
  cg_circuit_breaker_reset_timeout :: duration

record metrics_config =
  cm_enabled :: bool
  cm_port :: int
  cm_path :: string
  cm_alert_check_interval :: duration

record logging_config =
  cl_level :: string
  cl_format :: string
  cl_output_path :: string

record config =
  cf_server :: server_config
  cf_database :: database_config
  cf_redis :: redis_config
  cf_kafka :: kafka_config
  cf_gateway :: gateway_config
  cf_metrics :: metrics_config
  cf_logging :: logging_config

section \<open>Reading the environment\<close>

definition get_env :: "(string \<Rightarrow> string) \<Rightarrow> string \<Rightarrow> string \<Rightarrow> string" where
  "get_env env k d = (if env k \<noteq> '''' then env k else d)"

text \<open>A value that cannot be read counts as none.\<close>

definition get_env_as_int :: "(string \<Rightarrow> string) \<Rightarrow> string \<Rightarrow> int \<Rightarrow> int" where
  "get_env_as_int env k d = (if env k \<noteq> '''' then (case atoi (env k) of Some n \<Rightarrow> n | None \<Rightarrow> d) else d)"

definition get_env_as_bool :: "(string \<Rightarrow> string) \<Rightarrow> string \<Rightarrow> bool \<Rightarrow> bool" where
  "get_env_as_bool env k d = (if env k \<noteq> '''' then (case parse_bool (env k) of Some b \<Rightarrow> b | None \<Rightarrow> d) else d)"

definition get_env_as_duration :: "(string \<Rightarrow> string) \<Rightarrow> string \<Rightarrow> string \<Rightarrow> duration" where
  "get_env_as_duration env k d =
     (let fallback = (case parse_duration d of Some t \<Rightarrow> t | None \<Rightarrow> 0)
      in if env k \<noteq> '''' then (case parse_duration (env k) of Some t \<Rightarrow> t | None \<Rightarrow> fallback) else fallback)"

definition get_env_as_slice :: "(string \<Rightarrow> string) \<Rightarrow> string \<Rightarrow> string list \<Rightarrow> string list" where
  "get_env_as_slice env k d = (if env k \<noteq> '''' then [env k] else d)"

definition load_server_config :: "(string \<Rightarrow> string) \<Rightarrow> server_config" where
  "load_server_config env =
     \<lparr>cs_port = get_env_as_int env ''SERVER_PORT'' 8080,
      cs_host = get_env env ''SERVER_HOST'' ''0.0.0.0'',
      cs_read_timeout = get_env_as_duration env ''SERVER_READ_TIMEOUT'' ''30s'',
      cs_write_timeout = get_env_as_duration env ''SERVER_WRITE_TIMEOUT'' ''30s'',
      cs_idle_timeout = get_env_as_duration env ''SERVER_IDLE_TIMEOUT'' ''120s''\<rparr>"

definition load_database_config :: "(string \<Rightarrow> string) \<Rightarrow> database_config" where
  "load_database_config env =
     \<lparr>cd_host = get_env env ''DB_HOST'' ''localhost'',
      cd_port = get_env_as_int env ''DB_PORT'' 5432,
      cd_database = get_env env ''DB_NAME'' ''payment_system'',
      cd_username = get_env env ''DB_USER'' ''postgres'',
      cd_password = get_env env ''DB_PASSWORD'' '''',
      cd_ssl_mode = get_env env ''DB_SSL_MODE'' ''disable'',
      cd_max_open_conns = get_env_as_int env ''DB_MAX_OPEN_CONNS'' 25,
      cd_max_idle_conns = get_env_as_int env ''DB_MAX_IDLE_CONNS'' 25,
      cd_conn_max_lifetime = get_env_as_duration env ''DB_CONN_MAX_LIFETIME'' ''5m''\<rparr>"

definition load_redis_config :: "(string \<Rightarrow> string) \<Rightarrow> redis_config" where
  "load_redis_config env =
     \<lparr>cr_host = get_env env ''REDIS_HOST'' ''localhost'',
      cr_port = get_env_as_int env ''REDIS_PORT'' 6379,
      cr_password = get_env env ''REDIS_PASSWORD'' '''',
      cr_database = get_env_as_int env ''REDIS_DB'' 0,
      cr_pool_size = get_env_as_int env ''REDIS_POOL_SIZE'' 10,
      cr_dial_timeout = get_env_as_duration env ''REDIS_DIAL_TIMEOUT'' ''5s'',
      cr_read_timeout = get_env_as_duration env ''REDIS_READ_TIMEOUT'' ''3s'',
      cr_write_timeout = get_env_as_duration env ''REDIS_WRITE_TIMEOUT'' ''3s''\<rparr>"

definition load_kafka_config :: "(string \<Rightarrow> string) \<Rightarrow> kafka_config" where
  "load_kafka_config env =
     \<lparr>ck_brokers = get_env_as_slice env ''KAFKA_BROKERS'' [''localhost:9092''],
      ck_topic = get_env env ''KAFKA_TOPIC'' ''payment-events'',
      ck_consumer_group = get_env env ''KAFKA_CONSUMER_GROUP'' ''payment-service'',
      ck_batch_size = get_env_as_int env ''KAFKA_BATCH_SIZE'' 100,
      ck_batch_timeout = get_env_as_duration env ''KAFKA_BATCH_TIMEOUT'' ''10ms''\<rparr>"

definition load_gateway_config :: "(string \<Rightarrow> string) \<Rightarrow> gateway_config" where
  "load_gateway_config env =
     \<lparr>cg_provider = get_env env ''GATEWAY_PROVIDER'' ''stripe'',
      cg_base_url = get_env env ''GATEWAY_BASE_URL'' ''https://api.stripe.com'',
      cg_api_key = get_env env ''GATEWAY_API_KEY'' '''',
      cg_timeout = get_env_as_duration env ''GATEWAY_TIMEOUT'' ''30s'',
      cg_max_retries = get_env_as_int env ''GATEWAY_MAX_RETRIES'' 3,
      cg_circuit_breaker_max_failures = get_env_as_int env ''GATEWAY_CB_MAX_FAILURES'' 5,
      cg_circuit_breaker_reset_timeout = get_env_as_duration env ''GATEWAY_CB_RESET_TIMEOUT'' ''60s''\<rparr>"

definition load_metrics_config :: "(string \<Rightarrow> string) \<Rightarrow> metrics_config" where
  "load_metrics_config env =
     \<lparr>cm_enabled = get_env_as_bool env ''METRICS_ENABLED'' True,
      cm_port = get_env_as_int env ''METRICS_PORT'' 9090,
      cm_path = get_env env ''METRICS_PATH'' ''/metrics'',
      cm_alert_check_interval = get_env_as_duration env ''METRICS_ALERT_CHECK_INTERVAL'' ''30s''\<rparr>"

definition load_logging_config :: "(string \<Rightarrow> string) \<Rightarrow> logging_config" where
  "load_logging_config env =
     \<lparr>cl_level = get_env env ''LOG_LEVEL'' ''info'',
      cl_format = get_env env ''LOG_FORMAT'' ''json'',
      cl_output_path = get_env env ''LOG_OUTPUT_PATH'' ''stdout''\<rparr>"

definition load_config :: "(string \<Rightarrow> string) \<Rightarrow> config" where
  "load_config env =
     \<lparr>cf_server = load_server_config env, cf_database = load_database_config env, cf_redis = load_redis_config env,
      cf_kafka = load_kafka_config env, cf_gateway = load_gateway_config env, cf_metrics = load_metrics_config env,
      cf_logging = load_logging_config env\<rparr>"

definition get_dsn :: "database_config \<Rightarrow> string" where
  "get_dsn c = ''host='' @ cd_host c @ '' port='' @ show_int (cd_port c) @ '' user='' @ cd_username c @
     '' password='' @ cd_password c @ '' dbname='' @ cd_database c @ '' sslmode='' @ cd_ssl_mode c"

definition get_redis_addr :: "redis_config \<Rightarrow> string" where
  "get_redis_addr c = cr_host c @ '':'' @ show_int (cr_port c)"

section \<open>The logger\<close>

datatype log_level = Debug_Level | Info_Level | Warn_Level | Error_Level

record zap_config =
  zc_development :: bool
  zc_level :: log_level
  zc_encoding :: string
  zc_output_paths :: "string list"

text \<open>
  The presets of zap write to the standard error stream, the one for development at level debug, the
  other at level info.  \<open>New\<close> takes the level and the format only, so the path is always empty.
\<close>

definition preset :: "bool \<Rightarrow> zap_config" where
  "preset dev = \<lparr>zc_development = dev, zc_level = (if dev then Debug_Level else Info_Level),
     zc_encoding = (if dev then ''console'' else ''json''), zc_output_paths = [''stderr'']\<rparr>"

definition logger_config :: "logging_config \<Rightarrow> zap_config" where
  "logger_config c =
     (let z = preset (cl_level c = ''debug'');
          z = (if cl_level c \<in> {''debug'', ''info'', ''warn'', ''error''} then z else z\<lparr>zc_level := Info_Level\<rparr>);
          z = (if cl_level c = ''debug'' then z\<lparr>zc_level := Debug_Level\<rparr>
               else if cl_level c = ''info'' then z\<lparr>zc_level := Info_Level\<rparr>
               else if cl_level c = ''warn'' then z\<lparr>zc_level := Warn_Level\<rparr>
               else if cl_level c = ''error'' then z\<lparr>zc_level := Error_Level\<rparr>
               else z);
          z = z\<lparr>zc_encoding := (if cl_format c = ''console'' then ''console'' else ''json'')\<rparr>
      in if cl_output_path c \<noteq> '''' \<and> cl_output_path c \<noteq> ''stdout''
         then z\<lparr>zc_output_paths := [cl_output_path c]\<rparr> else z)"

definition new_logger :: "string \<Rightarrow> string \<Rightarrow> zap_config" where
  "new_logger level format = logger_config \<lparr>cl_level = level, cl_format = format, cl_output_path = ''''\<rparr>"

section \<open>Connections\<close>

definition new_database :: "go_error option \<Rightarrow> go_error option \<Rightarrow> go_error option" where
  "new_database open_err ping_err =
     (case open_err of Some x \<Rightarrow> Some (''failed to open database: '' @ x)
      | None \<Rightarrow> (case ping_err of Some x \<Rightarrow> Some (''failed to ping database: '' @ x) | None \<Rightarrow> None))"

definition new_redis :: "go_error option \<Rightarrow> go_error option" where
  "new_redis ping_err = map_option (\<lambda>x. ''failed to connect to Redis: '' @ x) ping_err"

text \<open>
  \<open>WithTx\<close>: the function works on the state of the transaction.  The deferred function assigns the
  error of the commit to a variable whose value has already been returned.
\<close>

definition with_tx ::
  "go_error option \<Rightarrow> ('s \<Rightarrow> go_error option go_run \<times> 's) \<Rightarrow> fault \<Rightarrow> 's \<Rightarrow> go_error option go_run \<times> 's" where
  "with_tx begin_err fn commit s =
     (case begin_err of
        Some x \<Rightarrow> (Returned (Some (''failed to begin transaction: '' @ x)), s)
      | None \<Rightarrow>
          (case fn s of
             (Panicked, s') \<Rightarrow> (Panicked, s)
           | (Returned (Some x), s') \<Rightarrow> (Returned (Some x), s)
           | (Returned None, s') \<Rightarrow> (Returned None, case commit of Lost_Request x \<Rightarrow> s | _ \<Rightarrow> s')))"

section \<open>The start of the server\<close>

text \<open>A panic of the goroutine that checks the alerts ends the process.\<close>

datatype startup = Fatal string | Crashed | Running

definition start_server ::
  "(string \<Rightarrow> string) \<Rightarrow> go_error option \<Rightarrow> go_error option \<Rightarrow> go_error option \<Rightarrow> metric_env \<Rightarrow> metric_tables \<Rightarrow> startup" where
  "start_server env open_err ping_err redis_err menv tb =
     (case new_database open_err ping_err of
        Some x \<Rightarrow> Fatal ''Failed to initialize database''
      | None \<Rightarrow>
          (case new_redis redis_err of
             Some x \<Rightarrow> Fatal ''Failed to initialize Redis''
           | None \<Rightarrow>
               (let mc = cf_metrics (load_config env)
                in if cm_enabled mc
                   then (case start_metrics_checker menv (cm_alert_check_interval mc) [] (new_metrics_service tb) of
                           Panicked \<Rightarrow> Crashed | Returned _ \<Rightarrow> Running)
                   else Running)))"

section \<open>Facts\<close>

text \<open>A text that is not of the type of its setting is as good as no text.\<close>

lemma unreadable_int: "atoi (env k) = None \<Longrightarrow> get_env_as_int env k d = d"
  by (simp add: get_env_as_int_def)

lemma unreadable_bool: "parse_bool (env k) = None \<Longrightarrow> get_env_as_bool env k d = d"
  by (simp add: get_env_as_bool_def)

lemma parse_duration_empty [simp]: "parse_duration '''' = None"
  by (simp add: parse_duration_def unsigned_part_def)

lemma unreadable_duration:
  "get_env_as_duration env k d = (case parse_duration (env k) of Some t \<Rightarrow> t
     | None \<Rightarrow> (case parse_duration d of Some t \<Rightarrow> t | None \<Rightarrow> 0))"
  by (auto simp: get_env_as_duration_def Let_def split: option.split)

text \<open>However many brokers are named, the list has one entry; the path for the log is never used.\<close>

lemma one_broker: "length (ck_brokers (cf_kafka (load_config env))) = 1"
  by (simp add: load_config_def load_kafka_config_def get_env_as_slice_def)

lemma log_path_unused: "zc_output_paths (new_logger level format) = [''stderr'']"
  by (simp add: new_logger_def logger_config_def preset_def Let_def)

lemma default_interval: "parse_duration ''30s'' = Some 30000000000"
  by (simp add: parse_duration_def unsigned_part_def duration_sum.simps duration_term_def fraction_part_def with_unit_def
      is_digit_def digit_value_def is_unit_char_def unit_of_def micro_sign_def micro_letter_def scaled_def Let_def)

section \<open>Properties\<close>


text \<open>
  A transaction is all or nothing, but its error is not always the caller's: when the commit fails the
  caller is told of no error, though nothing may have been stored.
\<close>

lemma transaction_atomic:
  "with_tx begin_err fn commit s = (r, s') \<Longrightarrow> s' = s \<or> s' = snd (fn s) \<and> fst (fn s) = Returned None"
  by (auto simp: with_tx_def split: option.splits prod.splits go_run.splits fault.splits)

lemma commit_error_lost:
  "fst (fn s) = Returned None \<Longrightarrow> with_tx None fn (Lost_Request x) s = (Returned None, s)"
  by (auto simp: with_tx_def split: prod.splits)

end
