(* ===== verification/Structured_Logging.thy ===== *)
theory Structured_Logging
  imports Instrumentation Configuration
begin

text \<open>
  The log lines of \<open>pkg/observability/logging.go\<close>: the wrapped zap logger with its level and fields,
  the fields taken from a context, the loggers of payments, wallets, events and sagas, and the
  middleware.

  A line is what is handed to the encoder of zap: level, message and fields in their order; the keys
  the encoder adds by itself are those of zap's presets.  A duration counts in nanoseconds.  Whether
  a line is written depends on the level only.
\<close>

section \<open>The logger\<close>

record log_line =
  ll_level :: log_level
  ll_message :: string
  ll_fields :: "(string \<times> json) list"

record logger =
  lg_level :: log_level
  lg_production :: bool
  lg_fields :: "(string \<times> json) list"

definition new_zap_logger :: "string \<Rightarrow> bool \<Rightarrow> logger" where
  "new_zap_logger level development =
     \<lparr>lg_level = (if level = ''debug'' then Debug_Level
        else if level = ''info'' then Info_Level
        else if level = ''warn'' then Warn_Level
        else if level = ''error'' then Error_Level
        else Info_Level),
      lg_production = (\<not> development), lg_fields = []\<rparr>"

fun level_rank :: "log_level \<Rightarrow> nat" where
  "level_rank Debug_Level = 0"
| "level_rank Info_Level = 1"
| "level_rank Warn_Level = 2"
| "level_rank Error_Level = 3"

definition write_line :: "logger \<Rightarrow> log_level \<Rightarrow> string \<Rightarrow> (string \<times> json) list \<Rightarrow> log_line list" where
  "write_line lg level msg fs =
     (if level_rank (lg_level lg) \<le> level_rank level
      then [\<lparr>ll_level = level, ll_message = msg, ll_fields = lg_fields lg @ fs\<rparr>] else [])"

definition with_fields :: "(string \<times> json) list \<Rightarrow> logger \<Rightarrow> logger" where
  "with_fields fs lg = lg\<lparr>lg_fields := lg_fields lg @ fs\<rparr>"

definition with_context :: "go_context \<Rightarrow> logger \<Rightarrow> logger go_run" where
  "with_context ctx lg =
     run_bind (extract_fields_from_context ctx) (\<lambda>fs. Returned (with_fields (map (\<lambda>(k, v). (k, JStr v)) fs) lg))"

definition log_in_context ::
  "logger \<Rightarrow> go_context \<Rightarrow> log_level \<Rightarrow> string \<Rightarrow> (string \<times> json) list \<Rightarrow> log_line list go_run" where
  "log_in_context lg ctx level msg fs = run_bind (with_context ctx lg) (\<lambda>lg. Returned (write_line lg level msg fs))"

text \<open>\<open>zap.Error\<close> of nil is no field.\<close>

definition error_field :: "go_error option \<Rightarrow> (string \<times> json) list" where
  "error_field err = (case err of None \<Rightarrow> [] | Some x \<Rightarrow> [(''error'', JStr x)])"

section \<open>The loggers of the services\<close>

definition new_payment_logger :: "logger \<Rightarrow> logger" where
  "new_payment_logger lg = with_fields [(''service'', JStr ''payment'')] lg"

definition new_wallet_logger :: "logger \<Rightarrow> logger" where
  "new_wallet_logger lg = with_fields [(''service'', JStr ''wallet'')] lg"

definition new_event_logger :: "logger \<Rightarrow> logger" where
  "new_event_logger lg = with_fields [(''service'', JStr ''eventstore'')] lg"

definition new_saga_logger :: "logger \<Rightarrow> logger" where
  "new_saga_logger lg = with_fields [(''service'', JStr ''saga_orchestrator'')] lg"

definition log_payment_started ::
  "logger \<Rightarrow> go_context \<Rightarrow> time \<Rightarrow> string \<Rightarrow>
     string \<Rightarrow> float64 \<Rightarrow> string \<Rightarrow> log_line list go_run" where
  "log_payment_started lg ctx now payment_id user_id amount currency =
     log_in_context lg ctx Info_Level ''Payment processing started''
       [(''payment_id'', JStr payment_id), (''user_id'', JStr user_id), (''amount'', JFloat amount),
        (''currency'', JStr currency), (''event'', JStr ''payment_started''), (''timestamp'', JTime now)]"

definition log_payment_completed ::
  "logger \<Rightarrow> go_context \<Rightarrow> time \<Rightarrow> string \<Rightarrow>
     string \<Rightarrow> float64 \<Rightarrow> string \<Rightarrow> string \<Rightarrow> int \<Rightarrow> log_line list go_run" where
  "log_payment_completed lg ctx now payment_id user_id amount currency gateway_tx_id processing_time_ms =
     log_in_context lg ctx Info_Level ''Payment completed successfully''
       [(''payment_id'', JStr payment_id), (''user_id'', JStr user_id), (''amount'', JFloat amount),
        (''currency'', JStr currency), (''gateway_transaction_id'', JStr gateway_tx_id),
        (''processing_time_ms'', JInt processing_time_ms), (''event'', JStr ''payment_completed''),
        (''status'', JStr ''success''), (''timestamp'', JTime now)]"

definition log_payment_failed ::
  "logger \<Rightarrow> go_context \<Rightarrow> time \<Rightarrow> string \<Rightarrow>
     string \<Rightarrow> float64 \<Rightarrow> string \<Rightarrow> string \<Rightarrow> go_error option \<Rightarrow> log_line list go_run" where
  "log_payment_failed lg ctx now payment_id user_id amount currency failure_reason err =
     log_in_context lg ctx Error_Level ''Payment failed''
       ([(''payment_id'', JStr payment_id), (''user_id'', JStr user_id), (''amount'', JFloat amount),
        (''currency'', JStr currency), (''failure_reason'', JStr failure_reason),
        (''event'', JStr ''payment_failed''), (''status'', JStr ''failed''),
        (''timestamp'', JTime now)] @ error_field err)"

definition log_gateway_error ::
  "logger \<Rightarrow> go_context \<Rightarrow> time \<Rightarrow> string \<Rightarrow>
     string \<Rightarrow> string \<Rightarrow> string \<Rightarrow> log_line list go_run" where
  "log_gateway_error lg ctx now payment_id gateway_provider error_code error_message =
     log_in_context lg ctx Error_Level ''Gateway error occurred''
       [(''payment_id'', JStr payment_id), (''gateway_provider'', JStr gateway_provider),
        (''error_code'', JStr error_code), (''error_message'', JStr error_message),
        (''event'', JStr ''gateway_error''), (''component'', JStr ''external_gateway''),
        (''timestamp'', JTime now)]"

definition log_retry_attempt ::
  "logger \<Rightarrow> go_context \<Rightarrow> time \<Rightarrow> string \<Rightarrow>
     int \<Rightarrow> int \<Rightarrow> duration \<Rightarrow> string \<Rightarrow> log_line list go_run" where
  "log_retry_attempt lg ctx now payment_id attempt limit next_retry_in last_error =
     log_in_context lg ctx Warn_Level ''Payment retry attempt''
       [(''payment_id'', JStr payment_id), (''attempt'', JInt attempt),
        (''max_attempts'', JInt limit), (''next_retry_in'', JInt next_retry_in),
        (''last_error'', JStr last_error), (''event'', JStr ''payment_retry''), (''timestamp'', JTime now)]"

definition log_funds_deducted ::
  "logger \<Rightarrow> go_context \<Rightarrow> time \<Rightarrow> string \<Rightarrow>
     string \<Rightarrow> float64 \<Rightarrow> float64 \<Rightarrow> float64 \<Rightarrow> string \<Rightarrow> log_line list go_run" where
  "log_funds_deducted lg ctx now user_id currency amount previous_balance new_balance reason =
     log_in_context lg ctx Info_Level ''Funds deducted from wallet''
       [(''user_id'', JStr user_id), (''currency'', JStr currency), (''amount'', JFloat amount),
        (''previous_balance'', JFloat previous_balance), (''new_balance'', JFloat new_balance),
        (''reason'', JStr reason), (''event'', JStr ''funds_deducted''), (''operation'', JStr ''debit''),
        (''timestamp'', JTime now)]"

definition log_funds_added ::
  "logger \<Rightarrow> go_context \<Rightarrow> time \<Rightarrow> string \<Rightarrow>
     string \<Rightarrow> float64 \<Rightarrow> float64 \<Rightarrow> float64 \<Rightarrow> string \<Rightarrow> log_line list go_run" where
  "log_funds_added lg ctx now user_id currency amount previous_balance new_balance reason =
     log_in_context lg ctx Info_Level ''Funds added to wallet''
       [(''user_id'', JStr user_id), (''currency'', JStr currency), (''amount'', JFloat amount),
        (''previous_balance'', JFloat previous_balance), (''new_balance'', JFloat new_balance),
        (''reason'', JStr reason), (''event'', JStr ''funds_added''), (''operation'', JStr ''credit''),
        (''timestamp'', JTime now)]"

definition log_insufficient_funds ::
  "logger \<Rightarrow> go_context \<Rightarrow> time \<Rightarrow> string \<Rightarrow>
     string \<Rightarrow> float64 \<Rightarrow> float64 \<Rightarrow> log_line list go_run" where
  "log_insufficient_funds lg ctx now user_id currency requested_amount available_balance =
     log_in_context lg ctx Warn_Level ''Insufficient funds for operation''
       [(''user_id'', JStr user_id), (''currency'', JStr currency),
        (''requested_amount'', JFloat requested_amount), (''available_balance'', JFloat available_balance),
        (''shortfall'', JFloat (fsub requested_amount available_balance)),
        (''event'', JStr ''insufficient_funds''), (''status'', JStr ''rejected''),
        (''timestamp'', JTime now)]"

definition log_concurrency_conflict ::
  "logger \<Rightarrow> go_context \<Rightarrow> time \<Rightarrow> string \<Rightarrow>
     string \<Rightarrow> int \<Rightarrow> int \<Rightarrow> int \<Rightarrow> log_line list go_run" where
  "log_concurrency_conflict lg ctx now user_id currency expected_version actual_version attempt =
     log_in_context lg ctx Warn_Level ''Concurrency conflict detected''
       [(''user_id'', JStr user_id), (''currency'', JStr currency),
        (''expected_version'', JInt expected_version), (''actual_version'', JInt actual_version),
        (''retry_attempt'', JInt attempt), (''event'', JStr ''concurrency_conflict''),
        (''strategy'', JStr ''optimistic_locking''), (''timestamp'', JTime now)]"

definition log_event_stored ::
  "logger \<Rightarrow> go_context \<Rightarrow> time \<Rightarrow> string \<Rightarrow>
     string \<Rightarrow> string \<Rightarrow> string \<Rightarrow> int \<Rightarrow> log_line list go_run" where
  "log_event_stored lg ctx now event_id event_type aggregate_id aggregate_type sequence_number =
     log_in_context lg ctx Debug_Level ''Event stored successfully''
       [(''event_id'', JStr event_id), (''event_type'', JStr event_type),
        (''aggregate_id'', JStr aggregate_id), (''aggregate_type'', JStr aggregate_type),
        (''sequence_number'', JInt sequence_number), (''event'', JStr ''event_stored''),
        (''timestamp'', JTime now)]"

definition log_event_published ::
  "logger \<Rightarrow> go_context \<Rightarrow> time \<Rightarrow> string \<Rightarrow>
     string \<Rightarrow> int \<Rightarrow> log_line list go_run" where
  "log_event_published lg ctx now event_id event_type publish_latency_ms =
     log_in_context lg ctx Debug_Level ''Event published to event bus''
       [(''event_id'', JStr event_id), (''event_type'', JStr event_type),
        (''publish_latency_ms'', JInt publish_latency_ms), (''event'', JStr ''event_published''),
        (''timestamp'', JTime now)]"

definition log_event_processing_error ::
  "logger \<Rightarrow> go_context \<Rightarrow> time \<Rightarrow> string \<Rightarrow>
     string \<Rightarrow> string \<Rightarrow> go_error option \<Rightarrow> int \<Rightarrow> log_line list go_run" where
  "log_event_processing_error lg ctx now event_id event_type processor_name err attempt =
     log_in_context lg ctx Error_Level ''Event processing failed''
       ([(''event_id'', JStr event_id), (''event_type'', JStr event_type),
        (''processor'', JStr processor_name)] @ error_field err @ [(''attempt'', JInt attempt),
        (''event'', JStr ''event_processing_error''), (''timestamp'', JTime now)])"

definition log_event_sent_to_dlq ::
  "logger \<Rightarrow> go_context \<Rightarrow> time \<Rightarrow> string \<Rightarrow>
     string \<Rightarrow> string \<Rightarrow> int \<Rightarrow> log_line list go_run" where
  "log_event_sent_to_dlq lg ctx now event_id event_type reason failure_count =
     log_in_context lg ctx Error_Level ''Event sent to Dead Letter Queue''
       [(''event_id'', JStr event_id), (''event_type'', JStr event_type), (''failure_reason'', JStr reason),
        (''failure_count'', JInt failure_count), (''event'', JStr ''event_sent_to_dlq''),
        (''status'', JStr ''failed_permanently''), (''timestamp'', JTime now)]"

definition log_saga_started ::
  "logger \<Rightarrow> go_context \<Rightarrow> time \<Rightarrow> string \<Rightarrow>
     string \<Rightarrow> string \<Rightarrow> log_line list go_run" where
  "log_saga_started lg ctx now saga_id saga_type payment_id =
     log_in_context lg ctx Info_Level ''Saga started''
       [(''saga_id'', JStr saga_id), (''saga_type'', JStr saga_type), (''payment_id'', JStr payment_id),
        (''event'', JStr ''saga_started''), (''status'', JStr ''initiated''), (''timestamp'', JTime now)]"

definition log_saga_step_completed ::
  "logger \<Rightarrow> go_context \<Rightarrow> time \<Rightarrow> string \<Rightarrow>
     string \<Rightarrow> duration \<Rightarrow> log_line list go_run" where
  "log_saga_step_completed lg ctx now saga_id step_name step_duration =
     log_in_context lg ctx Info_Level ''Saga step completed''
       [(''saga_id'', JStr saga_id), (''step_name'', JStr step_name),
        (''step_duration'', JInt step_duration), (''event'', JStr ''saga_step_completed''),
        (''status'', JStr ''success''), (''timestamp'', JTime now)]"

definition log_saga_compensation_started ::
  "logger \<Rightarrow> go_context \<Rightarrow> time \<Rightarrow> string \<Rightarrow>
     string \<Rightarrow> string list \<Rightarrow> log_line list go_run" where
  "log_saga_compensation_started lg ctx now saga_id reason completed_steps =
     log_in_context lg ctx Warn_Level ''Saga compensation started''
       [(''saga_id'', JStr saga_id), (''compensation_reason'', JStr reason),
        (''completed_steps'', JArr (map JStr completed_steps)),
        (''event'', JStr ''saga_compensation_started''), (''status'', JStr ''compensating''),
        (''timestamp'', JTime now)]"

definition log_saga_completed ::
  "logger \<Rightarrow> go_context \<Rightarrow> time \<Rightarrow> string \<Rightarrow>
     duration \<Rightarrow> string list \<Rightarrow> log_line list go_run" where
  "log_saga_completed lg ctx now saga_id total_duration completed_steps =
     log_in_context lg ctx Info_Level ''Saga completed successfully''
       [(''saga_id'', JStr saga_id), (''total_duration'', JInt total_duration),
        (''completed_steps'', JArr (map JStr completed_steps)), (''event'', JStr ''saga_completed''),
        (''status'', JStr ''success''), (''timestamp'', JTime now)]"

definition log_saga_failed ::
  "logger \<Rightarrow> go_context \<Rightarrow> time \<Rightarrow> string \<Rightarrow>
     string \<Rightarrow> go_error option \<Rightarrow> string list \<Rightarrow> log_line list go_run" where
  "log_saga_failed lg ctx now saga_id failure_reason err compensation_steps =
     log_in_context lg ctx Error_Level ''Saga failed''
       ([(''saga_id'', JStr saga_id), (''failure_reason'', JStr failure_reason),
        (''compensation_steps'', JArr (map JStr compensation_steps)), (''event'', JStr ''saga_failed''),
        (''status'', JStr ''failed''), (''timestamp'', JTime now)] @ error_field err)"

lemmas service_lines = log_payment_started_def log_payment_completed_def log_payment_failed_def log_gateway_error_def
  log_retry_attempt_def log_funds_deducted_def log_funds_added_def log_insufficient_funds_def
  log_concurrency_conflict_def log_event_stored_def log_event_published_def log_event_processing_error_def
  log_event_sent_to_dlq_def log_saga_started_def log_saga_step_completed_def log_saga_compensation_started_def
  log_saga_completed_def log_saga_failed_def

section \<open>The middleware\<close>

text \<open>
  The handler gets the context with the new id and passes on status codes; \<open>d\<close> is the time it took.
  The result is the lines and the context the handler saw; a panic of the handler goes through, after
  the first line.
\<close>

definition logging_middleware ::
  "logger \<Rightarrow> go_context \<Rightarrow> uuid \<Rightarrow> string \<Rightarrow> string \<Rightarrow> string \<Rightarrow> string \<Rightarrow> (go_context \<Rightarrow> int list go_run) \<Rightarrow>
     duration \<Rightarrow> log_line list go_run" where
  "logging_middleware lg ctx rid method path addr agent handler d =
     (let ctx = with_value ctx (Plain_Key ''request_id'') (Str_Value rid)
      in run_bind (log_in_context lg ctx Info_Level ''HTTP request started''
           [(''method'', JStr method), (''path'', JStr path), (''remote_addr'', JStr addr), (''user_agent'', JStr agent),
            (''request_id'', JStr rid)]) (\<lambda>ls1.
         run_bind (handler ctx) (\<lambda>codes.
         run_bind (log_in_context lg ctx Info_Level ''HTTP request completed''
           [(''method'', JStr method), (''path'', JStr path), (''status_code'', JInt (response_status codes)),
            (''duration'', JInt d), (''request_id'', JStr rid)]) (\<lambda>ls2.
         Returned (ls1 @ ls2)))))"

section \<open>Facts\<close>

text \<open>A context whose traced values are strings; any other value makes every line of it panic.\<close>

definition traceable :: "go_context \<Rightarrow> bool" where
  "traceable ctx \<longleftrightarrow> (\<forall>k \<in> {''trace_id'', ''correlation_id'', ''user_id'', ''request_id''}.
     context_value ctx (Plain_Key k) \<noteq> Some Other_Value)"

definition traced_fields :: "go_context \<Rightarrow> (string \<times> string) list" where
  "traced_fields ctx = (case extract_fields_from_context ctx of Panicked \<Rightarrow> [] | Returned fs \<Rightarrow> fs)"

lemma context_field_cases:
  "context_field ctx k fs = (if context_value ctx (Plain_Key k) = Some Other_Value then Panicked
     else Returned (fs @ (case context_value ctx (Plain_Key k) of Some (Str_Value x) \<Rightarrow> [(k, x)] | _ \<Rightarrow> [])))"
  by (auto simp: context_field_def split: option.splits ctx_value.splits)

lemma extract_traceable:
  "extract_fields_from_context ctx = (if traceable ctx then Returned (traced_fields ctx) else Panicked)"
  by (auto simp: traced_fields_def traceable_def extract_fields_from_context_def context_field_cases)

lemma log_in_context_eq:
  "log_in_context lg ctx level msg fs =
     (if traceable ctx then Returned (write_line (with_fields (map (\<lambda>(k, v). (k, JStr v)) (traced_fields ctx)) lg) level msg fs)
      else Panicked)"
  by (simp add: log_in_context_def with_context_def extract_traceable)

text \<open>A failure is written at every level the logger can be configured to.\<close>

lemma errors_always_written:
  assumes "traceable ctx"
  shows "\<exists>l. log_in_context (with_fields service (new_zap_logger level development)) ctx Error_Level msg fs = Returned [l] \<and>
    ll_message l = msg \<and> set fs \<subseteq> set (ll_fields l)"
  using assms by (auto simp: log_in_context_eq write_line_def with_fields_def new_zap_logger_def)

text \<open>
  What the encoder adds in front of the fields; the configuration for production calls the time of a
  line \<open>timestamp\<close>.
\<close>

definition encoder_keys :: "logger \<Rightarrow> string list" where
  "encoder_keys lg = (if lg_production lg then [''level'', ''timestamp'', ''caller'', ''msg''] else [''L'', ''T'', ''C'', ''M''])"

definition line_keys :: "logger \<Rightarrow> log_line \<Rightarrow> string list" where
  "line_keys lg l = encoder_keys lg @ map fst (ll_fields l)"

text \<open>A key that comes twice leaves it to the reader of the line which value counts.\<close>

lemma fields_written:
  "log_in_context lg ctx level msg fs = Returned ls \<Longrightarrow> l \<in> set ls \<Longrightarrow> (k, v) \<in> set fs \<Longrightarrow> (k, v) \<in> set (ll_fields l)"
  by (auto simp: log_in_context_eq write_line_def split: if_splits)

lemma repeated_key: "lg_production lg \<Longrightarrow> (''timestamp'', v) \<in> set (ll_fields l) \<Longrightarrow> \<not> distinct (line_keys lg l)"
  by (force simp: line_keys_def encoder_keys_def)

lemma production_lines_repeat_timestamp:
  assumes "lg_production lg" "ls = [log_payment_started lg ctx now a b x c, log_payment_failed lg ctx now a b x c d err,
      log_funds_deducted lg ctx now a b x y z c, log_event_stored lg ctx now a b c d n, log_saga_failed lg ctx now a b err ss]"
    and "Returned lines \<in> set ls" "l \<in> set lines"
  shows "\<not> distinct (line_keys lg l)"
  by (rule repeated_key [OF assms(1), of "JTime now"])
    (use assms(2-4) in \<open>auto simp: service_lines dest!: sym [of "Returned lines"] intro: fields_written\<close>)

text \<open>The id of a request is in its context and in the fields of the line.\<close>

lemma traced_request_id:
  assumes "context_value ctx (Plain_Key ''request_id'') = Some (Str_Value rid)" "traceable ctx"
  shows "(''request_id'', rid) \<in> set (traced_fields ctx)"
  using assms by (auto simp: traced_fields_def traceable_def extract_fields_from_context_def context_field_cases)

lemma twice_not_distinct: "k \<in> set xs \<Longrightarrow> k \<in> set ys \<Longrightarrow> \<not> distinct (ws @ xs @ ys)"
  by auto

lemma request_line_repeats:
  assumes "context_value ctx (Plain_Key ''request_id'') = Some (Str_Value rid)"
    and "log_in_context lg ctx level msg fs = Returned ls" "l \<in> set ls" "(''request_id'', v) \<in> set fs"
  shows "\<not> distinct (line_keys lg l)"
proof -
  have tr: "traceable ctx" and l: "ll_fields l = lg_fields lg @ map (\<lambda>(k, v). (k, JStr v)) (traced_fields ctx) @ fs"
    using assms(2,3) by (auto simp: log_in_context_eq write_line_def with_fields_def split: if_splits)
  have "''request_id'' \<in> set (map fst (map (\<lambda>(k, v). (k, JStr v)) (traced_fields ctx)))" "''request_id'' \<in> set (map fst fs)"
    using traced_request_id [OF assms(1) tr] assms(4) by force+
  from twice_not_distinct [OF this, of "encoder_keys lg @ map fst (lg_fields lg)"]
  show ?thesis unfolding line_keys_def l map_append append_assoc .
qed

lemma request_id_repeated:
  assumes "logging_middleware lg ctx rid method path addr agent handler d = Returned ls" "l \<in> set ls"
  shows "\<not> distinct (line_keys lg l)"
proof -
  let ?ctx = "with_value ctx (Plain_Key ''request_id'') (Str_Value rid)"
  have id: "context_value ?ctx (Plain_Key ''request_id'') = Some (Str_Value rid)"
    by (simp add: with_value_def context_value_def)
  have line: "\<not> distinct (line_keys lg l)" if "log_in_context lg ?ctx Info_Level msg fs = Returned ls'" "l \<in> set ls'"
    "(''request_id'', JStr rid) \<in> set fs" for msg fs ls'
    using request_line_repeats [OF id] that by blast
  from assms(1) obtain ls1 codes ls2 where
    "log_in_context lg ?ctx Info_Level ''HTTP request started''
       [(''method'', JStr method), (''path'', JStr path), (''remote_addr'', JStr addr), (''user_agent'', JStr agent),
        (''request_id'', JStr rid)] = Returned ls1"
    "log_in_context lg ?ctx Info_Level ''HTTP request completed''
       [(''method'', JStr method), (''path'', JStr path), (''status_code'', JInt (response_status codes)),
        (''duration'', JInt d), (''request_id'', JStr rid)] = Returned ls2" "ls = ls1 @ ls2"
    by (auto simp: logging_middleware_def Let_def run_bind_eq_Returned)
  with assms(2) line show ?thesis by (metis (no_types, lifting) Un_iff list.set_intros(1,2) set_append)
qed

section \<open>New trace ids\<close>

text \<open>\<open>GenerateTraceID\<close>: the random bytes, two hexadecimal digits each.\<close>

definition hex_digit :: "nat \<Rightarrow> char" where
  "hex_digit d = char_of (if d < 10 then 48 + d else 87 + d)"

definition generate_trace_id :: "8 word list \<Rightarrow> string" where
  "generate_trace_id bytes = concat (map (\<lambda>b. [hex_digit (unat b div 16), hex_digit (unat b mod 16)]) bytes)"

lemma hex_digit_inj: "d < 16 \<Longrightarrow> e < 16 \<Longrightarrow> hex_digit d = hex_digit e \<Longrightarrow> d = e"
proof -
  assume small: "d < 16" "e < 16" and "hex_digit d = hex_digit e"
  then have "(of_char (hex_digit d) :: nat) = of_char (hex_digit e)" by simp
  with small show "d = e" by (simp add: hex_digit_def of_char_of split: if_splits)
qed

lemma byte_inj: "unat (a :: 8 word) div 16 = unat b div 16 \<Longrightarrow> unat a mod 16 = unat b mod 16 \<Longrightarrow> a = b"
  by (metis div_mult_mod_eq word_unat_eq_iff)

text \<open>Different bytes make different ids.\<close>

lemma generate_trace_id_inj: "generate_trace_id as = generate_trace_id bs \<Longrightarrow> as = bs"
proof (induction as arbitrary: bs)
  case Nil
  then show ?case by (cases bs) (simp_all add: generate_trace_id_def)
next
  case (Cons a as)
  have small: "unat (x :: 8 word) div 16 < 16" for x
  proof -
    have "unat x < 2 ^ 8" using unsigned_less [of x] by simp
    then show ?thesis by (simp add: less_mult_imp_div_less)
  qed
  from Cons.prems obtain b bs' where bs: "bs = b # bs'" "hex_digit (unat a div 16) = hex_digit (unat b div 16)"
    "hex_digit (unat a mod 16) = hex_digit (unat b mod 16)" "generate_trace_id as = generate_trace_id bs'"
    by (cases bs) (auto simp: generate_trace_id_def)
  have "a = b"
    by (rule byte_inj) (use hex_digit_inj [OF small small bs(2)] hex_digit_inj [OF _ _ bs(3)] in simp_all)
  with Cons.IH [OF bs(4)] bs(1) show ?case by simp
qed

end
