(* ===== verification/Migrations.thy ===== *)
theory Migrations
  imports Configuration "HOL-Library.List_Lexorder" "HOL-Library.Char_ord"
begin

text \<open>
  The migration script, \<open>scripts/migrate.go\<close>: which files it runs, in which order, and what it
  remembers of them in the table \<open>schema_migrations\<close>.

  What the text of a migration does to the rest of the database is an argument, as are the contents of
  the files and the failures of the statements.  The database is its data and the versions in the
  table.
\<close>

section \<open>The script\<close>

record 'd migration_db =
  md_data :: 'd
  md_versions :: "string list"

record 'd migration_env =
  mg_read :: "string \<Rightarrow> string go_result"
  mg_exec :: "string \<Rightarrow> 'd \<Rightarrow> go_error option \<times> 'd"
  mg_mark :: "string \<Rightarrow> fault"
  mg_query :: "go_error option"

definition base_name :: "string \<Rightarrow> string" where
  "base_name f = rev (takeWhile (\<lambda>c. c \<noteq> CHR ''/'') (rev f))"

definition trim_suffix :: "string \<Rightarrow> string \<Rightarrow> string" where
  "trim_suffix s suffix =
     (if drop (length s - length suffix) s = suffix then take (length s - length suffix) s else s)"

definition version_of :: "string \<Rightarrow> string" where
  "version_of f = trim_suffix (base_name f) ''.sql''"

text \<open>\<open>INSERT INTO schema_migrations\<close>; the version is the primary key, of at most 255 characters.\<close>

definition mark_migration_applied ::
  "'d migration_env \<Rightarrow> string \<Rightarrow> 'd migration_db \<Rightarrow> go_error option \<times> 'd migration_db" where
  "mark_migration_applied env v s =
     (case mg_mark env v of
        Lost_Request x \<Rightarrow> (Some x, s)
      | Lost_Reply x \<Rightarrow>
          (Some x, if v \<in> set (md_versions s) \<or> 255 < length v then s else s\<lparr>md_versions := md_versions s @ [v]\<rparr>)
      | No_Fault \<Rightarrow>
          if 255 < length v then (Some ''value too long'', s)
          else if v \<in> set (md_versions s) then (Some ''duplicate key'', s)
          else (None, s\<lparr>md_versions := md_versions s @ [v]\<rparr>))"

definition get_applied_migrations :: "'d migration_env \<Rightarrow> 'd migration_db \<Rightarrow> string list go_result" where
  "get_applied_migrations env s = (case mg_query env of Some x \<Rightarrow> Inl x | None \<Rightarrow> Inr (md_versions s))"

text \<open>One migration that has not been applied.\<close>

definition run_migration ::
  "'d migration_env \<Rightarrow> string \<Rightarrow> 'd migration_db \<Rightarrow> go_error option \<times> 'd migration_db" where
  "run_migration env f s =
     (case mg_read env f of
        Inl x \<Rightarrow> (Some (''failed to read migration file '' @ f @ '': '' @ x), s)
      | Inr content \<Rightarrow>
          (case mg_exec env content (md_data s) of
             (Some x, d) \<Rightarrow> (Some (''failed to execute migration '' @ version_of f @ '': '' @ x), s\<lparr>md_data := d\<rparr>)
           | (None, d) \<Rightarrow>
               (case mark_migration_applied env (version_of f) (s\<lparr>md_data := d\<rparr>) of
                  (Some x, s) \<Rightarrow> (Some (''failed to mark migration '' @ version_of f @ '' as applied: '' @ x), s)
                | (None, s) \<Rightarrow> (None, s))))"

fun migration_loop ::
  "'d migration_env \<Rightarrow> string list \<Rightarrow> string list \<Rightarrow> 'd migration_db \<Rightarrow> go_error option \<times> 'd migration_db" where
  "migration_loop env applied [] s = (None, s)"
| "migration_loop env applied (f # fs) s =
     (if version_of f \<in> set applied then migration_loop env applied fs s
      else (case run_migration env f s of
              (Some x, s) \<Rightarrow> (Some x, s)
            | (None, s) \<Rightarrow> migration_loop env applied fs s))"

text \<open>\<open>filepath.Glob\<close> gives the files or an error.\<close>

definition run_migrations ::
  "'d migration_env \<Rightarrow> string list go_result \<Rightarrow> 'd migration_db \<Rightarrow> go_error option \<times> 'd migration_db" where
  "run_migrations env files s =
     (case files of
        Inl x \<Rightarrow> (Some (''failed to read migration files: '' @ x), s)
      | Inr fs \<Rightarrow>
          (case get_applied_migrations env s of
             Inl x \<Rightarrow> (Some (''failed to get applied migrations: '' @ x), s)
           | Inr applied \<Rightarrow> migration_loop env applied (sort fs) s))"

definition migration_dsn :: "(string \<Rightarrow> string) \<Rightarrow> string" where
  "migration_dsn env =
     ''host='' @ get_env env ''DB_HOST'' ''localhost'' @ '' port='' @ get_env env ''DB_PORT'' ''5432'' @
     '' user='' @ get_env env ''DB_USER'' ''postgres'' @ '' password='' @ get_env env ''DB_PASSWORD'' ''postgres123'' @
     '' dbname='' @ get_env env ''DB_NAME'' ''payment_system'' @ '' sslmode='' @ get_env env ''DB_SSL_MODE'' ''disable''"

datatype migration_end = Stopped string | Completed

definition migrate_main ::
  "go_error option \<Rightarrow> go_error option \<Rightarrow> go_error option \<Rightarrow> 'd migration_env \<Rightarrow> string list go_result \<Rightarrow>
     'd migration_db \<Rightarrow> migration_end \<times> 'd migration_db" where
  "migrate_main open_err ping_err create_err env files s =
     (case open_err of Some x \<Rightarrow> (Stopped (''Failed to connect to database:'' @ x), s)
      | None \<Rightarrow> (case ping_err of Some x \<Rightarrow> (Stopped (''Failed to ping database:'' @ x), s)
      | None \<Rightarrow> (case create_err of Some x \<Rightarrow> (Stopped (''Failed to create migrations table:'' @ x), s)
      | None \<Rightarrow> (case run_migrations env files s of
          (Some x, s) \<Rightarrow> (Stopped (''Failed to run migrations:'' @ x), s)
        | (None, s) \<Rightarrow> (Completed, s)))))"

section \<open>What a run does\<close>

definition pending :: "string list \<Rightarrow> 'd migration_db \<Rightarrow> string list" where
  "pending fs s = filter (\<lambda>f. version_of f \<notin> set (md_versions s)) (sort fs)"

text \<open>The data after the migrations of some files, one after the other.\<close>

definition executed :: "'d migration_env \<Rightarrow> string list \<Rightarrow> 'd \<Rightarrow> 'd" where
  "executed env fs d = fold (\<lambda>f d. case mg_read env f of Inl _ \<Rightarrow> d | Inr c \<Rightarrow> snd (mg_exec env c d)) fs d"

lemma migration_loop_filter:
  "migration_loop env applied fs s = migration_loop env [] (filter (\<lambda>f. version_of f \<notin> set applied) fs) s"
  by (induction fs arbitrary: s) (auto split: prod.splits option.splits)

lemma run_migration_ok:
  assumes "run_migration env f s = (None, s')"
  shows "md_versions s' = md_versions s @ [version_of f]" "md_data s' = executed env [f] (md_data s)"
    "version_of f \<notin> set (md_versions s)"
  using assms by (auto simp: run_migration_def mark_migration_applied_def executed_def
      split: sum.splits prod.splits option.splits fault.splits if_splits)

lemma run_migration_failed:
  assumes "run_migration env f s = (Some x, s')" "\<And>v. mg_mark env v = No_Fault"
  shows "md_versions s' = md_versions s" "md_data s' = executed env [f] (md_data s) \<or> md_data s' = md_data s"
  using assms by (auto simp: run_migration_def mark_migration_applied_def executed_def
      split: sum.splits prod.splits option.splits if_splits)

text \<open>The migrations that were done, and those left.\<close>

lemma migration_loop_split:
  assumes "migration_loop env [] fs s = (err, s')" "\<And>v. mg_mark env v = No_Fault"
  shows "\<exists>ran rest. fs = ran @ rest \<and> md_versions s' = md_versions s @ map version_of ran \<and> (err = None \<longleftrightarrow> rest = []) \<and>
    md_data s' \<in> {executed env ran (md_data s), executed env (ran @ take 1 rest) (md_data s)}"
  using assms(1)
proof (induction fs arbitrary: s)
  case Nil
  then show ?case by (auto simp: executed_def)
next
  case (Cons f fs)
  obtain x s1 where f: "run_migration env f s = (x, s1)" by fastforce
  show ?case
  proof (cases x)
    case None
    with Cons.prems f have "migration_loop env [] fs s1 = (err, s')" by simp
    from Cons.IH [OF this] obtain ran rest where "fs = ran @ rest" "md_versions s' = md_versions s1 @ map version_of ran"
      "err = None \<longleftrightarrow> rest = []" "md_data s' \<in> {executed env ran (md_data s1), executed env (ran @ take 1 rest) (md_data s1)}"
      by blast
    with run_migration_ok [OF f [unfolded None]] show ?thesis
      by (intro exI [of _ "f # ran"] exI [of _ rest]) (auto simp: executed_def)
  next
    case (Some y)
    then have "err = Some y" "s' = s1" using Cons.prems f by simp_all
    with run_migration_failed [OF f [unfolded Some] assms(2)] show ?thesis
      by (intro exI [of _ "[]"] exI [of _ "f # fs"]) (auto simp: executed_def)
  qed
qed


definition example_migrations :: "nat migration_env" where
  "example_migrations = \<lparr>mg_read = Inr, mg_exec = (\<lambda>c d. (None, 2 * d + length c)), mg_mark = (\<lambda>_. No_Fault), mg_query = None\<rparr>"


text \<open>A migration whose record is lost is executed again by the next run.\<close>

lemma lost_record_repeats:
  assumes "mg_mark env (version_of f) = Lost_Request x" "mg_read env f = Inr c" "mg_exec env c (md_data s) = (None, d)"
    and "version_of f \<notin> set (md_versions s)" "mg_query env = None"
  shows "snd (run_migrations env (Inr [f]) s) = s\<lparr>md_data := d\<rparr>" "pending [f] (snd (run_migrations env (Inr [f]) s)) = [f]"
  using assms by (simp_all add: run_migrations_def get_applied_migrations_def run_migration_def mark_migration_applied_def pending_def)

end
