(* ===== verification/Spec2Isabelle.thy ===== *)
theory Spec2Isabelle
  imports Postgres_Repository Projector Health_Checks Instrumentation Compensation Wallet_Interleavings Event_Partitions Http_Handlers Structured_Logging Migrations
begin

text \<open>
  A verification development of a payment system written in Go: an event-sourced core under
  \<open>pkg/eventstore\<close> and the services of the server under \<open>internal/\<close> and
  \<open>pkg/database\<close>.

  \<^bold>\<open>The program.\<close>  The core stores events per aggregate in an event store
  (\<open>eventstore.go\<close>, \<open>memory_store.go\<close>), rebuilds payments and wallets
  from them (\<open>aggregates.go\<close>, through the repository of \<open>aggregate.go\<close>),
  records sagas as events (\<open>payment_saga.go\<close>), retries, parks and compensates what fails
  (\<open>error_handling.go\<close>) and keeps balances for many goroutines
  (\<open>concurrency_control.go\<close>).  The server is a second, separate system: an HTTP request
  becomes a row of a payment (\<open>internal/services/payment\<close>), a goroutine takes the money from
  a wallet (\<open>internal/services/wallet\<close>), asks the gateway behind a circuit breaker
  (\<open>internal/services/gateway\<close>) and gives the money back when that fails; rows live in
  PostgreSQL (\<open>pkg/database/repositories.go\<close>, \<open>migrations/\<close>), events go over
  Kafka (\<open>internal/events\<close>), and a saga orchestrator (\<open>internal/saga\<close>) can
  drive the same steps.  Beside both stand the read models fed from the core's events
  (\<open>pkg/readmodels\<close>), a second event store on PostgreSQL (\<open>postgres_store.go\<close>), and metrics,
  alerts and health checks.

  \<^bold>\<open>The model.\<close>  A struct is a record, an interface a record of its methods over the
  state of the implementation, an error a string (\<open>Inl\<close> or \<open>Some\<close>), a panic the
  constructor \<open>Panicked\<close> or \<open>None\<close>.  A call gets from its environment what Go does
  not decide: the context, clock readings, uuids, random draws, and what other goroutines or
  connections do in between.  Money of the core is a \<open>float64\<close> (\<open>Go_Float\<close>, IEEE 754
  arithmetic written out), money of the services a \<open>64 word\<close> read by \<open>sint\<close>, so both
  round or wrap as in the code.  Counters that only count up from 0 are integers.  Loops are recursive
  functions HOL has proved terminating: no fuel is used.  Events that the code passes by
  pointer and writes into come back as a result.

  \<^bold>\<open>The theories\<close>, with the properties of each (numbered as in the manifest, C1 the most
  important one; each stands under a text block of its own):

  \<^item> \<open>Go_Prelude\<close>, \<open>Go_Float\<close>, \<open>Go_Json\<close>: results, errors, panics,
    decimal printing, consecutive versions, floats, and JSON documents as trees.
  \<^item> \<open>Event_Model\<close>: \<open>Event\<close>, \<open>EventFilter\<close>,
    \<open>NewEvent\<close>, and the interface \<open>EventStore\<close> with its laws, the locale
    \<open>event_store\<close>: streams only grow, versions count from 1, an append is all or nothing, of two
    writers at one version the second loses.
  \<^item> \<open>Memory_Store\<close>: \<open>MemoryEventStore\<close> with its indexes and snapshots, the exact effect of
    \<open>AppendEvents\<close> on every branch, optimistic concurrency, and the interpretation of
    \<open>event_store\<close>.  \<open>Memory_Subscriptions\<close>: channels of capacity 100, the goroutine that
    replays old events and the one that waits for the context, as a step relation with its
    reachable states and their invariant: what a subscriber gets, twice, or not at all.
  \<^item> \<open>Aggregates\<close>: payment and wallet, their events, JSON and snapshots; balances never
    negative (floats included), state equal to the replay of the events.
    \<open>Aggregate_Repository\<close>: \<open>Save\<close> and \<open>Load\<close> over any store that satisfies the
    laws, used on the in-memory one; what is saved is loaded; what a snapshot and the unchanged aggregate
    after a save break.
  \<^item> \<open>Payment_Saga\<close>, \<open>Retry\<close>, \<open>Dead_Letter_Queue\<close>,
    \<open>Compensation\<close>: the saga log, the retrier with its float backoff (\<open>math.Pow\<close> by its
    algorithm), the bounded queue, and the compensation of completed steps with its records.
  \<^item> \<open>User_Locks\<close>: the read-write locks with time-out as a step relation; mutual exclusion,
    and a lock that is acquired after the time-out and never released.  \<open>Concurrent_Wallet\<close>: the four
    strategies of \<open>ConcurrentWalletService\<close>, the optimistic loop with its 5 attempts and the
    other goroutines' operations between its critical sections: linearizable.
    \<open>Wallet_Interleavings\<close>: any number of goroutines as a step relation whose steps are the critical
    sections; every run equals a serial one.  \<open>Event_Partitions\<close>: the partitioned processor
    and the order of a user's events.
  \<^item> \<open>Kafka_Events\<close>: what the publisher writes, what the subscriber decodes and which
    handlers the server registers.
  \<^item> \<open>Service_Database\<close>: the tables with their constraints, atomic statements, other
    connections in between and lost requests or replies, and the repositories' methods.
    \<open>Wallet_Service\<close>: the locale \<open>wallet_repository\<close> states what deduct and refund need of the
    repository and is interpreted on the database for every environment.
    \<open>Gateway_Service\<close>: circuit breaker and simulated call.  \<open>Payment_Service\<close>:
    \<open>ProcessPayment\<close> and its goroutine, end to end over wallet, gateway and database as
    \<open>main\<close> puts them together.
  \<^item> \<open>Saga_Orchestrator\<close>: \<open>internal/saga/orchestrator.go\<close> with its repository: every run
    ends completed or compensated, with bounded attempts; what a restart repeats.
  \<^item> \<open>Postgres_Store\<close>: the event store over the tables of PostgreSQL, its batches, snapshots,
    streams and subscriptions; the exact effect of \<open>AppendEvents\<close>, what it loses between two
    processes, and the locale \<open>event_log\<close>, the part of the contract of an event store it still
    keeps, interpreted on it.  \<open>Postgres_Repository\<close>: the aggregate repository over it, and the saga
    log it refuses.
  \<^item> \<open>Read_Models\<close> and \<open>Projector\<close>: the query side of
    \<open>pkg/readmodels/store.go\<close>: the in-memory tables (locale \<open>read_model_store\<close>, interpreted as
    \<open>memory_models\<close>) and the projector that fills them from the event stream, position by position.
  \<^item> \<open>Health_Checks\<close>: the checker with its time-outs and concurrent checks, and the end points of
    the server.  \<open>Instrumentation\<close>: the collector of metrics and the instrumented wrappers of the
    wallet service (locale \<open>sequential_wallet\<close>, interpreted for three of its strategies), and the contexts of
    tracing.  \<open>Structured_Logging\<close>: the lines of \<open>logging.go\<close> with their fields.
  \<^item> \<open>Go_Time\<close>: durations, their parser and printing, \<open>Atoi\<close> and \<open>ParseBool\<close>.
    \<open>Metrics_Service\<close>: \<open>internal/services/metrics\<close> with its repository and the handlers of the
    service events; \<open>Alert_Rules\<close>: when a rule fires, the distance of its alerts over any run, and
    what cut reads and lost replies make of it.  \<open>Configuration\<close>: settings, logger, connections and
    transactions, and when the server starts.  \<open>Migrations\<close>: the script that sets up the database.
  \<^item> \<open>Http_Handlers\<close>: the handlers and routes of \<open>pkg/server\<close>, put together with the services
    behind them: a payment from the request to the end of its goroutine, an alert rule from the
    request to its first alert.

  \<^bold>\<open>Bounds.\<close>  Channels hold 100 events and the optimistic loop makes 5 attempts as in the
  code; numbers of retries are arguments.  JSON is a tree, not text: whitespace, escapes and the
  precision of printed floats are below the model.

  \<^bold>\<open>Not modelled.\<close>  The log calls inside the services and the text zap makes of a line, the routing of gin and
  the encoding of its replies, the Prometheus registry behind its collectors, closing connections and
  shutting down, the demonstrations, and the tests with the programs that run them.
\<close>

end
